(* ===== verification/Prelude.thy ===== *)
theory Prelude imports Main "HOL-Library.Word" "HOL-Library.Multiset" "HOL-Library.Product_Lexorder" "HOL-Library.Char_ord" "HOL-Library.List_Lexorder" begin

text \<open>
  Types, collections of facts and generic lemmas shared by every component: timestamps in
  microseconds, UUIDs and their text form, and facts on conditional list updates, on filters and
  on the sorted prefixes that \<open>ORDER BY ... LIMIT\<close> takes.
\<close>

named_theorems tx_simps \<open>equations of the transaction primitives\<close>
named_theorems keeps_intros \<open>invariant preservation of composed transactions\<close>
named_theorems wf_intros \<open>statements preserve the well-formedness of the database\<close>
named_theorems aborts_intros \<open>a transaction fails only by a rollback\<close>

section \<open>Timestamps and intervals\<close>

text \<open>
  A PostgreSQL \<open>timestamptz\<close> counts microseconds. A day is 24 hours: the session time zone is
  taken to have no daylight saving change inside the interval.
\<close>

type_synonym time = int

definition seconds :: "int \<Rightarrow> time" where
  "seconds n = n * 1000000"

definition milliseconds :: "int \<Rightarrow> time" where
  "milliseconds n = n * 1000"

definition minutes :: "int \<Rightarrow> time" where
  "minutes n = n * 60000000"

definition days :: "int \<Rightarrow> time" where
  "days n = n * 86400000000"

lemma seconds_pos [simp]: "0 < seconds n \<longleftrightarrow> 0 < n"
  by (simp add: seconds_def)

lemma seconds_nonneg [simp]: "0 \<le> seconds n \<longleftrightarrow> 0 \<le> n"
  by (simp add: seconds_def)

lemma days_mono [simp]: "days m \<le> days n \<longleftrightarrow> m \<le> n"
  by (simp add: days_def)

section \<open>UUIDs\<close>

type_synonym uuid = "128 word"

definition hex_digit :: "nat \<Rightarrow> char" where
  "hex_digit n = ''0123456789abcdef'' ! n"

primrec hex_fixed :: "nat \<Rightarrow> nat \<Rightarrow> string" where
  "hex_fixed 0 x = []"
| "hex_fixed (Suc n) x = hex_fixed n (x div 16) @ [hex_digit (x mod 16)]"

text \<open>Python's \<open>str(uuid)\<close>: 32 lower-case hexadecimal digits, grouped 8-4-4-4-12.\<close>

definition uuid_str :: "uuid \<Rightarrow> string" where
  "uuid_str u =
     (let h = hex_fixed 32 (unat u)
      in take 8 h @ ''-'' @ take 4 (drop 8 h) @ ''-'' @ take 4 (drop 12 h) @ ''-'' @
         take 4 (drop 16 h) @ ''-'' @ drop 20 h)"

lemma length_hex_fixed [simp]: "length (hex_fixed n x) = n"
  by (induction n arbitrary: x) simp_all

lemma hex_digit_inj: "m < 16 \<Longrightarrow> n < 16 \<Longrightarrow> hex_digit m = hex_digit n \<longleftrightarrow> m = n"
  unfolding hex_digit_def by (rule nth_eq_iff_index_eq) simp_all

lemma hex_fixed_inj:
  "x < 16 ^ n \<Longrightarrow> y < 16 ^ n \<Longrightarrow> hex_fixed n x = hex_fixed n y \<Longrightarrow> x = y"
proof (induction n arbitrary: x y)
  case 0
  then show ?case by simp
next
  case (Suc n)
  from Suc.prems(1,2) have "x div 16 < 16 ^ n" "y div 16 < 16 ^ n"
    by (simp_all add: less_mult_imp_div_less mult.commute)
  with Suc.IH Suc.prems(3) have "x div 16 = y div 16" and "hex_digit (x mod 16) = hex_digit (y mod 16)"
    by auto
  then have "x div 16 = y div 16" and "x mod 16 = y mod 16"
    by (simp_all add: hex_digit_inj)
  then show ?case by (metis div_mult_mod_eq)
qed

lemma take_drop_split:
  "length xs = length ys \<Longrightarrow> take k xs = take k ys \<Longrightarrow> drop k xs = drop k ys \<Longrightarrow> xs = ys"
  by (metis append_take_drop_id)

lemma uuid_str_inj: "uuid_str u = uuid_str v \<Longrightarrow> u = v"
proof -
  assume eq: "uuid_str u = uuid_str v"
  let ?g = "hex_fixed 32 (unat u)" and ?h = "hex_fixed 32 (unat v)"
  from eq have t8: "take 8 ?g = take 8 ?h"
    and t12: "take 4 (drop 8 ?g) = take 4 (drop 8 ?h)"
    and t16: "take 4 (drop 12 ?g) = take 4 (drop 12 ?h)"
    and t20: "take 4 (drop 16 ?g) = take 4 (drop 16 ?h)"
    and d20: "drop 20 ?g = drop 20 ?h"
    by (simp_all add: uuid_str_def Let_def del: hex_fixed.simps)
  from t20 d20 have "drop 16 ?g = drop 16 ?h"
    by (intro take_drop_split [of "drop 16 ?g" "drop 16 ?h" 4]) (simp_all del: hex_fixed.simps)
  with t16 have "drop 12 ?g = drop 12 ?h"
    by (intro take_drop_split [of "drop 12 ?g" "drop 12 ?h" 4]) (simp_all del: hex_fixed.simps)
  with t12 have "drop 8 ?g = drop 8 ?h"
    by (intro take_drop_split [of "drop 8 ?g" "drop 8 ?h" 4]) (simp_all del: hex_fixed.simps)
  with t8 have "?g = ?h"
    by (intro take_drop_split [of ?g ?h 8]) (simp_all del: hex_fixed.simps)
  moreover have "unat u < 16 ^ 32" "unat v < 16 ^ 32"
    using unsigned_less [of u, where 'a = nat] unsigned_less [of v, where 'a = nat] by simp_all
  ultimately have "unat u = unat v"
    by (intro hex_fixed_inj [of _ 32])
  then show ?thesis by (simp only: word_unat_eq_iff)
qed

section \<open>Conditional updates of a table\<close>

text \<open>\<open>UPDATE ... WHERE\<close>: rewrite the rows that satisfy the condition, leave the others.\<close>

definition upd_where :: "('a \<Rightarrow> bool) \<Rightarrow> ('a \<Rightarrow> 'a) \<Rightarrow> 'a list \<Rightarrow> 'a list" where
  "upd_where p f xs = map (\<lambda>x. if p x then f x else x) xs"

definition count_where :: "('a \<Rightarrow> bool) \<Rightarrow> 'a list \<Rightarrow> nat" where
  "count_where p xs = length (filter p xs)"

lemma upd_where_simps [simp]:
  "upd_where p f [] = []"
  "upd_where p f (x # xs) = (if p x then f x else x) # upd_where p f xs"
  by (simp_all add: upd_where_def)

lemma length_upd_where [simp]: "length (upd_where p f xs) = length xs"
  by (simp add: upd_where_def)

lemma set_upd_where: "set (upd_where p f xs) = f ` {x \<in> set xs. p x} \<union> {x \<in> set xs. \<not> p x}"
  by (auto simp: upd_where_def)

lemma upd_where_hit:
  "x \<in> set xs \<Longrightarrow> p x \<Longrightarrow> Q (f x) \<Longrightarrow> \<exists>y \<in> set (upd_where p f xs). Q y"
  by (auto simp: set_upd_where)

lemma map_upd_where_same:
  "(\<And>x. x \<in> set xs \<Longrightarrow> p x \<Longrightarrow> g (f x) = g x) \<Longrightarrow> map g (upd_where p f xs) = map g xs"
  by (induction xs) auto

lemma upd_where_none: "(\<And>x. x \<in> set xs \<Longrightarrow> \<not> p x) \<Longrightarrow> upd_where p f xs = xs"
  by (induction xs) auto

lemma upd_where_cong:
  "(\<And>x. x \<in> set xs \<Longrightarrow> p x = q x) \<Longrightarrow> (\<And>x. x \<in> set xs \<Longrightarrow> q x \<Longrightarrow> f x = g x) \<Longrightarrow>
    upd_where p f xs = upd_where q g xs"
  by (induction xs) auto

lemma count_where_simps [simp]:
  "count_where p [] = 0"
  "count_where p (x # xs) = (if p x then Suc (count_where p xs) else count_where p xs)"
  by (simp_all add: count_where_def)

lemma count_where_pos: "0 < count_where p xs \<longleftrightarrow> (\<exists>x \<in> set xs. p x)"
  by (induction xs) auto

lemma count_where_zero: "count_where p xs = 0 \<longleftrightarrow> (\<forall>x \<in> set xs. \<not> p x)"
  by (induction xs) auto

lemma count_where_le_length: "count_where p xs \<le> length xs"
  by (simp add: count_where_def)

lemma count_where_cong:
  "(\<And>x. x \<in> set xs \<Longrightarrow> p x = q x) \<Longrightarrow> count_where p xs = count_where q xs"
  by (induction xs) auto

lemma count_where_mono:
  "(\<And>x. x \<in> set xs \<Longrightarrow> p x \<Longrightarrow> q x) \<Longrightarrow> count_where p xs \<le> count_where q xs"
  by (induction xs) (auto simp: le_SucI)

lemma count_where_disj:
  "count_where (\<lambda>x. p x \<or> q x) xs \<le> count_where p xs + count_where q xs"
  by (induction xs) auto

lemma count_where_upd_where:
  "count_where q (upd_where p f xs) = count_where (\<lambda>x. if p x then q (f x) else q x) xs"
  by (induction xs) auto

section \<open>Nullable columns\<close>

definition the_default :: "'a \<Rightarrow> 'a option \<Rightarrow> 'a" where
  "the_default x v = (case v of None \<Rightarrow> x | Some y \<Rightarrow> y)"

lemma the_default_simps [simp]: "the_default x None = x" "the_default x (Some y) = y"
  by (simp_all add: the_default_def)

section \<open>Looking a row up by its key\<close>

text \<open>\<open>find\<close> on a list with distinct keys is the lookup of the row with that key.\<close>

lemma find_key_mem:
  "distinct (map k xs) \<Longrightarrow> x \<in> set xs \<Longrightarrow> find (\<lambda>y. k y = k x) xs = Some x"
  by (induction xs) (auto simp: image_iff)

lemma find_key_iff:
  "distinct (map k xs) \<Longrightarrow> find (\<lambda>y. k y = a) xs = Some x \<longleftrightarrow> x \<in> set xs \<and> k x = a"
  by (induction xs) auto

lemma find_key_None: "find (\<lambda>y. k y = a) xs = None \<longleftrightarrow> a \<notin> k ` set xs"
  by (induction xs) auto

lemma find_SomeD: "find p xs = Some x \<Longrightarrow> x \<in> set xs \<and> p x"
  by (induction xs) (auto split: if_splits)

lemma find_upd_where:
  "(\<And>x. k (f x) = k x) \<Longrightarrow>
    find (\<lambda>y. k y = a) (upd_where p f xs) =
      map_option (\<lambda>x. if p x then f x else x) (find (\<lambda>y. k y = a) xs)"
  by (induction xs) auto

lemma key_inj:
  "distinct (map k xs) \<Longrightarrow> x \<in> set xs \<Longrightarrow> y \<in> set xs \<Longrightarrow> k x = k y \<Longrightarrow> x = y"
  by (auto simp: distinct_map inj_on_def)

lemma distinct_map_filter: "distinct (map k xs) \<Longrightarrow> distinct (map k (filter p xs))"
  by (induction xs) auto

lemma distinct_map_upd_where:
  "(\<And>x. k (f x) = k x) \<Longrightarrow> distinct (map k (upd_where p f xs)) = distinct (map k xs)"
  by (simp add: map_upd_where_same)

lemma count_key_subset:
  assumes "distinct (map k xs)" and "distinct (map k ys)" and "set ys \<subseteq> set xs"
  shows "count_where (\<lambda>x. k x \<in> k ` set ys \<and> p x) xs = count_where p ys"
proof -
  have "{x \<in> set xs. k x \<in> k ` set ys \<and> p x} = {y \<in> set ys. p y}"
    using assms key_inj [OF assms(1)] by (auto 4 3)
  moreover have "distinct xs" "distinct ys"
    using assms by (simp_all add: distinct_map)
  ultimately show ?thesis
    by (simp add: count_where_def flip: distinct_card)
qed

lemma count_where_image:
  assumes "distinct (map f xs)" and "f ` {x \<in> set xs. p x} \<subseteq> g ` {y \<in> set ys. q y}"
  shows "count_where p xs \<le> count_where q ys"
proof -
  have "count_where p xs = card (f ` {x \<in> set xs. p x})"
    using assms(1) by (simp add: count_where_def distinct_map inj_on_def card_image flip: distinct_card)
  also have "\<dots> \<le> card (g ` set (filter q ys))"
    using assms(2) by (intro card_mono) simp_all
  also have "\<dots> \<le> count_where q ys"
    unfolding count_where_def by (metis card_length length_map list.set_map)
  finally show ?thesis .
qed

section \<open>Sorted prefixes: ORDER BY and LIMIT\<close>

lemma distinct_map_sort_key: "distinct (map k (sort_key f xs)) = distinct (map k xs)"
  by (simp add: distinct_map)

lemma take_sort_key_least:
  assumes "x \<in> set (take n (sort_key f xs))" and "y \<in> set xs"
    and "y \<notin> set (take n (sort_key f xs))"
  shows "f x \<le> f y"
proof -
  let ?s = "sort_key f xs"
  from assms(2,3) have "y \<in> set (drop n ?s)"
    by (metis Un_iff append_take_drop_id set_append set_sort)
  moreover have "sorted (map f (take n ?s) @ map f (drop n ?s))"
    by (metis append_take_drop_id map_append sorted_sort_key)
  ultimately show ?thesis
    using assms(1) by (auto simp: sorted_append)
qed

lemma take_short_all: "length (take n xs) < n \<Longrightarrow> take n xs = xs"
  by simp

lemma set_take_subset_set: "x \<in> set (take n xs) \<Longrightarrow> x \<in> set xs"
  by (rule in_set_takeD)

lemma distinct_map_concat:
  assumes "\<And>q. q \<in> set qs \<Longrightarrow> distinct (map k (g q))" and "distinct qs"
    and "\<And>q r x y. q \<in> set qs \<Longrightarrow> r \<in> set qs \<Longrightarrow> x \<in> set (g q) \<Longrightarrow> y \<in> set (g r) \<Longrightarrow>
      k x = k y \<Longrightarrow> q = r"
  shows "distinct (map k (concat (map g qs)))"
  using assms
proof (induction qs)
  case Nil
  then show ?case by simp
next
  case (Cons q qs)
  have "set (map k (g q)) \<inter> set (map k (concat (map g qs))) = {}"
    using Cons.prems(2,3) by fastforce
  moreover have "distinct (map k (concat (map g qs)))"
    using Cons.prems by (intro Cons.IH) auto
  ultimately show ?case
    using Cons.prems(1) by simp
qed

lemma count_where_concat:
  "count_where p (concat (map g qs)) = (\<Sum>q\<leftarrow>qs. count_where p (g q))"
  by (induction qs) (simp_all add: count_where_def)

lemma count_where_sort_key [simp]: "count_where p (sort_key f xs) = count_where p xs"
  by (simp add: count_where_def filter_sort)

lemma count_where_take_le: "count_where p (take n xs) \<le> count_where p xs"
  by (induction xs arbitrary: n) (auto simp: take_Cons' le_SucI)

lemma sum_list_single:
  assumes "distinct qs" and "q \<in> set qs" and "\<And>r. r \<in> set qs \<Longrightarrow> r \<noteq> q \<Longrightarrow> g r = (0::nat)"
  shows "(\<Sum>r\<leftarrow>qs. g r) = g q"
  using assms by (subst sum_list_distinct_conv_sum_set) (auto simp: sum.remove [of _ q])

lemma sum_list_zero: "(\<And>r. r \<in> set qs \<Longrightarrow> g r = (0::nat)) \<Longrightarrow> (\<Sum>r\<leftarrow>qs. g r) = 0"
  by (induction qs) auto

end
