(* ===== verification/Domain.thy ===== *)
theory Domain imports Prelude begin

text \<open>
  The data of PgRelay: the job and attempt statuses (\<open>constants.py\<close>), the domain errors with their
  codes and HTTP statuses (\<open>errors.py\<close>), JSON values, the rows of the four tables with the
  constraints the schema declares (\<open>db/models.py\<close>, \<open>migrations/versions/0001_initial_schema.py\<close>),
  and the well-formedness of a database.
\<close>

section \<open>Statuses\<close>

datatype job_status = Pending | Leased | Succeeded | Dead_letter | Cancelled

definition JOB_STATUSES :: "job_status list" where
  "JOB_STATUSES = [Pending, Leased, Succeeded, Dead_letter, Cancelled]"

fun status_text :: "job_status \<Rightarrow> string" where
  "status_text Pending = ''pending''"
| "status_text Leased = ''leased''"
| "status_text Succeeded = ''succeeded''"
| "status_text Dead_letter = ''dead_letter''"
| "status_text Cancelled = ''cancelled''"

datatype attempt_status = Attempt_succeeded | Attempt_failed | Attempt_timeout | Attempt_lease_expired

definition JOB_KIND_HTTP :: string where
  "JOB_KIND_HTTP = ''http''"

definition JOB_KIND_HANDLER :: string where
  "JOB_KIND_HANDLER = ''handler''"

definition JOB_KINDS :: "string list" where
  "JOB_KINDS = [JOB_KIND_HTTP, JOB_KIND_HANDLER]"

definition DEFAULT_QUEUE_NAME :: string where
  "DEFAULT_QUEUE_NAME = ''default''"

definition DEFAULT_API_TOKEN :: string where
  "DEFAULT_API_TOKEN = ''dev-token-change-me''"

fun terminal :: "job_status \<Rightarrow> bool" where
  "terminal Pending = False"
| "terminal Leased = False"
| "terminal Succeeded = True"
| "terminal Dead_letter = True"
| "terminal Cancelled = True"

lemma status_text_inj: "status_text a = status_text b \<longleftrightarrow> a = b"
  by (cases a; cases b) simp_all

lemma JOB_STATUSES_all: "set JOB_STATUSES = UNIV"
  by (auto simp: JOB_STATUSES_def intro: job_status.exhaust)

text \<open>Statuses are text columns, so \<open>ORDER BY status\<close> orders them by their text.\<close>

instantiation job_status :: linorder
begin

definition less_eq_job_status :: "job_status \<Rightarrow> job_status \<Rightarrow> bool" where
  "less_eq_job_status a b \<longleftrightarrow> status_text a \<le> status_text b"

definition less_job_status :: "job_status \<Rightarrow> job_status \<Rightarrow> bool" where
  "less_job_status a b \<longleftrightarrow> status_text a < status_text b"

instance
  by standard (auto simp: less_eq_job_status_def less_job_status_def less_le_not_le status_text_inj)

end

section \<open>Errors\<close>

text \<open>
  Every exception the modelled code raises or catches. \<open>SQLAlchemyError\<close> stands for the whole
  SQLAlchemy hierarchy, \<open>PydanticValidationError\<close> carries the name of the rejected field in place
  of pydantic's text, and \<open>HTTPException\<close> its status and its detail, an error envelope or a text.
\<close>

datatype http_detail = Envelope string string | Detail string

datatype exn =
    PgRelayError string
  | ValidationError string
  | RepositoryError string
  | DatabaseUnavailableError string
  | JobNotFoundError string
  | QueueNotFoundError string
  | JobStateConflictError string
  | PermanentJobError string
  | RetryableJobError string
  | SQLAlchemyError string
  | PydanticValidationError string
  | HTTPException int http_detail
  | ValueError string
  | KeyError string
  | OSError string
  | TimeoutError string
  | OtherException string string

fun error_code :: "exn \<Rightarrow> string option" where
  "error_code (PgRelayError _) = Some ''pgrelay_error''"
| "error_code (ValidationError _) = Some ''validation_error''"
| "error_code (RepositoryError _) = Some ''repository_error''"
| "error_code (DatabaseUnavailableError _) = Some ''database_unavailable''"
| "error_code (JobNotFoundError _) = Some ''job_not_found''"
| "error_code (QueueNotFoundError _) = Some ''queue_not_found''"
| "error_code (JobStateConflictError _) = Some ''job_state_conflict''"
| "error_code (PermanentJobError _) = Some ''permanent_job_error''"
| "error_code (RetryableJobError _) = Some ''retryable_job_error''"
| "error_code _ = None"

text \<open>\<open>type(exc).__name__\<close> and \<open>str(exc)\<close>.\<close>

fun exn_name :: "exn \<Rightarrow> string" where
  "exn_name (PgRelayError _) = ''PgRelayError''"
| "exn_name (ValidationError _) = ''ValidationError''"
| "exn_name (RepositoryError _) = ''RepositoryError''"
| "exn_name (DatabaseUnavailableError _) = ''DatabaseUnavailableError''"
| "exn_name (JobNotFoundError _) = ''JobNotFoundError''"
| "exn_name (QueueNotFoundError _) = ''QueueNotFoundError''"
| "exn_name (JobStateConflictError _) = ''JobStateConflictError''"
| "exn_name (PermanentJobError _) = ''PermanentJobError''"
| "exn_name (RetryableJobError _) = ''RetryableJobError''"
| "exn_name (SQLAlchemyError _) = ''SQLAlchemyError''"
| "exn_name (PydanticValidationError _) = ''ValidationError''"
| "exn_name (HTTPException _ _) = ''HTTPException''"
| "exn_name (ValueError _) = ''ValueError''"
| "exn_name (KeyError _) = ''KeyError''"
| "exn_name (OSError _) = ''OSError''"
| "exn_name (TimeoutError _) = ''TimeoutError''"
| "exn_name (OtherException n _) = n"

fun exn_message :: "exn \<Rightarrow> string" where
  "exn_message (PgRelayError m) = m"
| "exn_message (ValidationError m) = m"
| "exn_message (RepositoryError m) = m"
| "exn_message (DatabaseUnavailableError m) = m"
| "exn_message (JobNotFoundError m) = m"
| "exn_message (QueueNotFoundError m) = m"
| "exn_message (JobStateConflictError m) = m"
| "exn_message (PermanentJobError m) = m"
| "exn_message (RetryableJobError m) = m"
| "exn_message (SQLAlchemyError m) = m"
| "exn_message (PydanticValidationError m) = m"
| "exn_message (HTTPException _ (Envelope c m)) = m"
| "exn_message (HTTPException _ (Detail m)) = m"
| "exn_message (ValueError m) = m"
| "exn_message (KeyError m) = m"
| "exn_message (OSError m) = m"
| "exn_message (TimeoutError m) = m"
| "exn_message (OtherException _ m) = m"

definition ERROR_STATUS_CODES :: "(string \<times> int) list" where
  "ERROR_STATUS_CODES =
     [(''validation_error'', 422),
      (''database_unavailable'', 503),
      (''job_not_found'', 404),
      (''queue_not_found'', 404),
      (''job_state_conflict'', 409),
      (''permanent_job_error'', 422),
      (''retryable_job_error'', 500),
      (''repository_error'', 500),
      (''pgrelay_error'', 500)]"

section \<open>JSON values\<close>

text \<open>
  A \<open>dict\<close> keeps its insertion order, so an object is an association list; a float carries the
  text \<open>json.dumps\<close> writes for it: \<open>float.__repr__\<close>, or \<open>NaN\<close>, \<open>Infinity\<close> and \<open>-Infinity\<close>.
\<close>

datatype json =
    JNull
  | JBool bool
  | JInt int
  | JFloat string
  | JStr string
  | JArr "json list"
  | JObj "(string \<times> json) list"

type_synonym dict = "(string \<times> json) list"

section \<open>Rows\<close>

record queue_row =
  q_name :: string
  q_paused :: bool
  q_concurrency_limit :: int
  q_created_at :: time
  q_updated_at :: time

record job_row =
  j_id :: uuid
  j_queue_name :: string
  j_kind :: string
  j_name :: string
  j_payload :: dict
  j_headers :: dict
  j_metadata :: dict
  j_status :: job_status
  j_priority :: int
  j_max_attempts :: int
  j_attempt_count :: int
  j_available_at :: time
  j_timeout_seconds :: int
  j_idempotency_key :: "string option"
  j_dedupe_key :: "string option"
  j_replayed_from_job_id :: "uuid option"
  j_locked_by :: "string option"
  j_locked_until :: "time option"
  j_last_error_type :: "string option"
  j_last_error_message :: "string option"
  j_last_response_status :: "int option"
  j_trace_id :: "string option"
  j_created_at :: time
  j_updated_at :: time
  j_completed_at :: "time option"

record attempt_row =
  a_id :: uuid
  a_job_id :: uuid
  a_attempt_number :: int
  a_worker_id :: string
  a_status :: attempt_status
  a_started_at :: time
  a_finished_at :: time
  a_duration_ms :: int
  a_error_type :: "string option"
  a_error_message :: "string option"
  a_response_status :: "int option"
  a_response_body_preview :: "string option"

record worker_row =
  w_worker_id :: string
  w_queues :: "string list"
  w_hostname :: string
  w_started_at :: time
  w_last_heartbeat_at :: time

text \<open>
  The four tables. The order of a list is the order in which a scan meets the rows; no statement
  depends on it except to break ties.
\<close>

record db =
  queues :: "queue_row list"
  jobs :: "job_row list"
  attempts :: "attempt_row list"
  workers :: "worker_row list"

definition empty_db :: db where
  "empty_db = \<lparr>queues = [], jobs = [], attempts = [], workers = []\<rparr>"

section \<open>Constraints\<close>

definition queue_checks :: "queue_row \<Rightarrow> bool" where
  "queue_checks q \<longleftrightarrow> 0 < q_concurrency_limit q"

definition job_checks :: "job_row \<Rightarrow> bool" where
  "job_checks j \<longleftrightarrow> j_kind j \<in> set JOB_KINDS \<and> 0 < j_max_attempts j"

definition attempt_checks :: "attempt_row \<Rightarrow> bool" where
  "attempt_checks a \<longleftrightarrow> 0 < a_attempt_number a"

text \<open>
  The types of the columns: PostgreSQL stores no NUL character in a text and 32 bits in an \<open>Integer\<close>. A
  \<open>JSONB\<close> document is a JSON text, so it has no NUL in a string or a key and none of the three floats
  that are not numbers.
\<close>

definition storable_text :: "string option \<Rightarrow> bool" where
  "storable_text v = (case v of None \<Rightarrow> True | Some s \<Rightarrow> CHR 0x00 \<notin> set s)"

definition int4 :: "int \<Rightarrow> bool" where
  "int4 n \<longleftrightarrow> - (2 ^ 31) \<le> n \<and> n < 2 ^ 31"

definition NON_NUMBERS :: "string list" where
  "NON_NUMBERS = [''NaN'', ''Infinity'', ''-Infinity'']"

fun storable_json :: "json \<Rightarrow> bool"
  and storable_items :: "json list \<Rightarrow> bool"
  and storable_members :: "dict \<Rightarrow> bool" where
  "storable_json (JFloat r) = (r \<notin> set NON_NUMBERS)"
| "storable_json (JStr v) = storable_text (Some v)"
| "storable_json (JArr vs) = storable_items vs"
| "storable_json (JObj kvs) = storable_members kvs"
| "storable_json _ = True"
| "storable_items [] = True"
| "storable_items (v # vs) = (storable_json v \<and> storable_items vs)"
| "storable_members [] = True"
| "storable_members ((k, v) # kvs) =
     (storable_text (Some k) \<and> storable_json v \<and> storable_members kvs)"

text \<open>What the columns of a job can hold: what an \<open>INSERT\<close> of it needs before any check.\<close>

definition job_columns :: "job_row \<Rightarrow> bool" where
  "job_columns j \<longleftrightarrow>
     storable_text (Some (j_queue_name j)) \<and> storable_text (Some (j_kind j)) \<and>
     storable_text (Some (j_name j)) \<and> storable_json (JObj (j_payload j)) \<and>
     storable_json (JObj (j_headers j)) \<and> storable_json (JObj (j_metadata j)) \<and>
     int4 (j_priority j) \<and> int4 (j_max_attempts j) \<and> int4 (j_attempt_count j) \<and>
     int4 (j_timeout_seconds j) \<and> storable_text (j_idempotency_key j) \<and>
     storable_text (j_dedupe_key j) \<and> storable_text (j_locked_by j) \<and>
     storable_text (j_last_error_type j) \<and> storable_text (j_last_error_message j) \<and>
     (case j_last_response_status j of None \<Rightarrow> True | Some st \<Rightarrow> int4 st) \<and>
     storable_text (j_trace_id j)"

text \<open>
  The columns of an attempt, with at most 2000 characters in the preview. The texts of an attempt come
  from outside: responses and exceptions.
\<close>

definition attempt_columns :: "attempt_row \<Rightarrow> bool" where
  "attempt_columns a \<longleftrightarrow>
     int4 (a_attempt_number a) \<and> int4 (a_duration_ms a) \<and>
     (case a_response_status a of None \<Rightarrow> True | Some st \<Rightarrow> int4 st) \<and>
     storable_text (Some (a_worker_id a)) \<and> storable_text (a_error_type a) \<and>
     storable_text (a_error_message a) \<and> storable_text (a_response_body_preview a) \<and>
     (case a_response_body_preview a of None \<Rightarrow> True | Some s \<Rightarrow> length s \<le> 2000)"

text \<open>The entry a row has in the partial unique index on queue and idempotency key.\<close>

definition idem_entry :: "job_row \<Rightarrow> (string \<times> string) option" where
  "idem_entry j = map_option (Pair (j_queue_name j)) (j_idempotency_key j)"

definition idem_entries :: "job_row list \<Rightarrow> (string \<times> string) list" where
  "idem_entries js = List.map_filter idem_entry js"

text \<open>
  What the schema enforces: primary keys, foreign keys, the partial unique index and the checks.
\<close>

definition schema_ok :: "db \<Rightarrow> bool" where
  "schema_ok d \<longleftrightarrow>
     distinct (map q_name (queues d)) \<and> (\<forall>q \<in> set (queues d). queue_checks q) \<and>
     distinct (map j_id (jobs d)) \<and> (\<forall>j \<in> set (jobs d). job_checks j) \<and>
     (\<forall>j \<in> set (jobs d). j_queue_name j \<in> q_name ` set (queues d)) \<and>
     (\<forall>j \<in> set (jobs d). \<forall>r. j_replayed_from_job_id j = Some r \<longrightarrow> r \<in> j_id ` set (jobs d)) \<and>
     distinct (idem_entries (jobs d)) \<and>
     distinct (map a_id (attempts d)) \<and> (\<forall>a \<in> set (attempts d). attempt_checks a \<and> attempt_columns a) \<and>
     (\<forall>a \<in> set (attempts d). a_job_id a \<in> j_id ` set (jobs d)) \<and>
     distinct (map w_worker_id (workers d))"

text \<open>
  What the repository keeps true of a job beyond the schema: a job holds a lease exactly while it
  is leased, it has a completion time exactly in the terminal statuses, and it never counts more
  attempts than it may make.
\<close>

definition job_ok :: "job_row \<Rightarrow> bool" where
  "job_ok j \<longleftrightarrow>
     (j_status j = Leased \<longleftrightarrow> j_locked_by j \<noteq> None) \<and>
     (j_locked_by j = None \<longleftrightarrow> j_locked_until j = None) \<and>
     (j_completed_at j \<noteq> None \<longleftrightarrow> terminal (j_status j)) \<and>
     0 \<le> j_attempt_count j \<and> j_attempt_count j \<le> j_max_attempts j \<and>
     (j_status j = Leased \<longrightarrow> 0 < j_attempt_count j)"

definition wf_db :: "db \<Rightarrow> bool" where
  "wf_db d \<longleftrightarrow> schema_ok d \<and> (\<forall>j \<in> set (jobs d). job_ok j)"

text \<open>The rows a worker holds and those of a queue that are leased.\<close>

definition leased_count :: "string \<Rightarrow> job_row list \<Rightarrow> nat" where
  "leased_count q js = count_where (\<lambda>j. j_status j = Leased \<and> j_queue_name j = q) js"

definition job_by_id :: "uuid \<Rightarrow> db \<Rightarrow> job_row option" where
  "job_by_id i d = find (\<lambda>j. j_id j = i) (jobs d)"

section \<open>Facts on well-formed databases\<close>

lemma wf_empty_db [wf_intros]: "wf_db empty_db"
  by (simp add: wf_db_def schema_ok_def empty_db_def idem_entries_def List.map_filter_def)

lemma wf_db_job_ok: "wf_db d \<Longrightarrow> j \<in> set (jobs d) \<Longrightarrow> job_ok j"
  by (simp add: wf_db_def)

lemma wf_db_distinct_ids: "wf_db d \<Longrightarrow> distinct (map j_id (jobs d))"
  by (simp add: wf_db_def schema_ok_def)

lemma wf_db_distinct_queues: "wf_db d \<Longrightarrow> distinct (map q_name (queues d))"
  by (simp add: wf_db_def schema_ok_def)

lemma job_by_id_iff:
  "wf_db d \<Longrightarrow> job_by_id i d = Some j \<longleftrightarrow> j \<in> set (jobs d) \<and> j_id j = i"
  unfolding job_by_id_def by (rule find_key_iff) (rule wf_db_distinct_ids)

lemma job_by_id_None: "job_by_id i d = None \<longleftrightarrow> i \<notin> j_id ` set (jobs d)"
  by (simp add: job_by_id_def find_key_None)

lemma job_by_id_SomeD: "job_by_id i d = Some j \<Longrightarrow> j \<in> set (jobs d) \<and> j_id j = i"
  by (auto simp: job_by_id_def dest: find_SomeD)

lemma idem_entries_simps [simp]:
  "idem_entries [] = []"
  "idem_entries (j # js) =
     (case idem_entry j of None \<Rightarrow> idem_entries js | Some e \<Rightarrow> e # idem_entries js)"
  by (simp_all add: idem_entries_def List.map_filter_def split: option.splits)

lemma idem_entries_append [simp]: "idem_entries (js @ ks) = idem_entries js @ idem_entries ks"
  by (induction js) (simp_all split: option.splits)

lemma set_idem_entries: "e \<in> set (idem_entries js) \<longleftrightarrow> (\<exists>j \<in> set js. idem_entry j = Some e)"
  by (induction js) (auto split: option.splits)

lemma idem_entry_Some:
  "idem_entry j = Some (q, k) \<longleftrightarrow> j_queue_name j = q \<and> j_idempotency_key j = Some k"
  by (auto simp: idem_entry_def)

lemma distinct_idem_entries_filter:
  "distinct (idem_entries js) \<Longrightarrow> distinct (idem_entries (filter p js))"
  by (induction js) (auto simp: set_idem_entries split: option.splits)

lemma idem_entries_map:
  "(\<And>j. j \<in> set js \<Longrightarrow> idem_entry (f j) = idem_entry j) \<Longrightarrow> idem_entries (map f js) = idem_entries js"
  by (induction js) (simp_all split: option.splits)

lemma idem_entries_unique:
  "distinct (idem_entries js) \<Longrightarrow> j \<in> set js \<Longrightarrow> k \<in> set js \<Longrightarrow>
    idem_entry j = Some e \<Longrightarrow> idem_entry k = Some e \<Longrightarrow> j = k"
  by (induction js) (auto simp: set_idem_entries split: option.splits)

text \<open>
  An update that keeps the keys of every row, and the local invariant of the rows, keeps the
  database well formed. Every \<open>UPDATE pgrelay_job\<close> goes through this lemma.
\<close>

definition same_keys :: "job_row \<Rightarrow> job_row \<Rightarrow> bool" where
  "same_keys j k \<longleftrightarrow>
     j_id k = j_id j \<and> j_queue_name k = j_queue_name j \<and> j_kind k = j_kind j \<and>
     j_max_attempts k = j_max_attempts j \<and> j_idempotency_key k = j_idempotency_key j \<and>
     j_replayed_from_job_id k = j_replayed_from_job_id j"

lemma same_keys_refl [simp]: "same_keys j j"
  by (simp add: same_keys_def)

lemma same_keys_idem_entry: "same_keys j k \<Longrightarrow> idem_entry k = idem_entry j"
  by (simp add: same_keys_def idem_entry_def)

lemma schema_ok_map_jobs:
  assumes "schema_ok d" and keys: "\<And>j. j \<in> set (jobs d) \<Longrightarrow> same_keys j (f j)"
  shows "schema_ok (d\<lparr>jobs := map f (jobs d)\<rparr>)"
proof -
  have ids: "map j_id (map f (jobs d)) = map j_id (jobs d)"
    using keys by (simp add: same_keys_def)
  then have set_ids: "j_id ` f ` set (jobs d) = j_id ` set (jobs d)"
    by (metis list.set_map)
  have idem: "idem_entries (map f (jobs d)) = idem_entries (jobs d)"
    using keys by (intro idem_entries_map) (simp add: same_keys_idem_entry)
  have checks: "job_checks (f j) = job_checks j" "j_queue_name (f j) = j_queue_name j"
    "j_replayed_from_job_id (f j) = j_replayed_from_job_id j" if "j \<in> set (jobs d)" for j
    using keys [OF that] by (simp_all add: same_keys_def job_checks_def)
  have "distinct (map j_id (map f (jobs d)))" "distinct (idem_entries (map f (jobs d)))"
    using assms(1) unfolding ids idem schema_ok_def by blast+
  moreover have "\<forall>j \<in> set (map f (jobs d)). job_checks j \<and> j_queue_name j \<in> q_name ` set (queues d) \<and>
      (\<forall>r. j_replayed_from_job_id j = Some r \<longrightarrow> r \<in> j_id ` f ` set (jobs d))"
    using assms(1) checks unfolding schema_ok_def set_ids by auto
  moreover have "\<forall>a \<in> set (attempts d). a_job_id a \<in> j_id ` f ` set (jobs d)"
    using assms(1) unfolding schema_ok_def set_ids by blast
  ultimately show ?thesis
    using assms(1) unfolding schema_ok_def by simp
qed

lemma wf_db_map_jobs:
  assumes "wf_db d" and "\<And>j. j \<in> set (jobs d) \<Longrightarrow> same_keys j (f j)"
    and "\<And>j. j \<in> set (jobs d) \<Longrightarrow> job_ok j \<Longrightarrow> job_ok (f j)"
  shows "wf_db (d\<lparr>jobs := map f (jobs d)\<rparr>)"
proof -
  have "schema_ok (d\<lparr>jobs := map f (jobs d)\<rparr>)"
    using assms(1) by (intro schema_ok_map_jobs assms(2)) (simp_all add: wf_db_def)
  moreover have "\<forall>j \<in> set (jobs d). job_ok (f j)"
    using assms(1) by (blast intro: assms(3) wf_db_job_ok)
  ultimately show ?thesis by (simp add: wf_db_def)
qed

lemma wf_db_upd_where:
  assumes "wf_db d" and "\<And>j. j \<in> set (jobs d) \<Longrightarrow> p j \<Longrightarrow> same_keys j (f j)"
    and "\<And>j. j \<in> set (jobs d) \<Longrightarrow> p j \<Longrightarrow> job_ok j \<Longrightarrow> job_ok (f j)"
  shows "wf_db (d\<lparr>jobs := upd_where p f (jobs d)\<rparr>)"
  unfolding upd_where_def using assms by (intro wf_db_map_jobs) auto

text \<open>The order of the table never matters for well-formedness.\<close>

lemma distinct_idem_entries_perm:
  assumes "mset js = mset ks" and "distinct (idem_entries ks)"
  shows "distinct (idem_entries js)"
proof -
  have "mset (idem_entries js) = mset (idem_entries ks)"
    using assms(1) by (simp add: idem_entries_def List.map_filter_def)
  with assms(2) show ?thesis
    by (metis mset_eq_imp_distinct_iff)
qed

end
