(* ===== verification/Session.thy ===== *)
theory Session imports Domain begin

text \<open>
  A database session (\<open>AsyncSession\<close>, \<open>db/session.py\<close>): one transaction on a database, with the
  exceptions of Python. A statement reads and rewrites the transaction's view; \<open>commit\<close> publishes the
  view and \<open>rollback\<close> drops it. What the environment decides is in the session: the timestamp
  \<open>now()\<close> gives throughout the transaction, the values \<open>gen_random_uuid()\<close> returns, which
  statements the server fails, and which job rows other transactions have locked.
\<close>

section \<open>Sessions and statements\<close>

record session =
  committed :: db
  working :: db
  now :: time
  ids :: "nat \<Rightarrow> nat \<Rightarrow> uuid"
  faults :: "nat \<Rightarrow> bool"
  locked_rows :: "uuid \<Rightarrow> bool"
  stmt_no :: nat

text \<open>
  A statement is given \<open>now()\<close> and the identifiers it may draw. It fails with a message when it
  violates a constraint; \<open>execute\<close> turns that, or a failure of the server, into an
  \<open>SQLAlchemyError\<close>.
\<close>

type_synonym 'a stmt = "time \<Rightarrow> (nat \<Rightarrow> uuid) \<Rightarrow> db \<Rightarrow> string + ('a \<times> db)"

type_synonym 'a tx = "session \<Rightarrow> (exn + 'a) \<times> session"

definition return_tx :: "'a \<Rightarrow> 'a tx" where
  "return_tx x s = (Inr x, s)"

definition raise_tx :: "exn \<Rightarrow> 'a tx" where
  "raise_tx e s = (Inl e, s)"

definition bind_tx :: "'a tx \<Rightarrow> ('a \<Rightarrow> 'b tx) \<Rightarrow> 'b tx" where
  "bind_tx m f s = (case m s of (Inl e, s') \<Rightarrow> (Inl e, s') | (Inr x, s') \<Rightarrow> f x s')"

definition execute :: "'a stmt \<Rightarrow> 'a tx" where
  "execute st s =
     (let n = stmt_no s; s' = s\<lparr>stmt_no := Suc n\<rparr>
      in if faults s n then (Inl (SQLAlchemyError ''OperationalError''), s')
         else case st (now s) (ids s n) (working s) of
                Inl msg \<Rightarrow> (Inl (SQLAlchemyError msg), s')
              | Inr (x, d) \<Rightarrow> (Inr x, s'\<lparr>working := d\<rparr>))"

text \<open>A statement with \<open>SKIP LOCKED\<close> is told the rows other transactions have locked.\<close>

definition execute_skip_locked :: "((uuid \<Rightarrow> bool) \<Rightarrow> 'a stmt) \<Rightarrow> 'a tx" where
  "execute_skip_locked st s = execute (st (locked_rows s)) s"

definition commit :: "session \<Rightarrow> session" where
  "commit s = s\<lparr>committed := working s\<rparr>"

definition rollback :: "session \<Rightarrow> session" where
  "rollback s = s\<lparr>working := committed s\<rparr>"

text \<open>\<open>except SQLAlchemyError as exc: await session.rollback(); raise RepositoryError(msg)\<close>\<close>

definition catch_sql :: "string \<Rightarrow> 'a tx \<Rightarrow> 'a tx" where
  "catch_sql msg m s =
     (case m s of
        (Inl (SQLAlchemyError _), s') \<Rightarrow> (Inl (RepositoryError msg), rollback s')
      | r \<Rightarrow> r)"

text \<open>A statement that only reads.\<close>

definition query :: "(time \<Rightarrow> db \<Rightarrow> 'a) \<Rightarrow> 'a stmt" where
  "query f t i d = Inr (f t d, d)"

text \<open>A statement whose parameters may be values the server refuses to read.\<close>

definition with_values :: "bool \<Rightarrow> 'a stmt \<Rightarrow> 'a stmt" where
  "with_values readable st t i d = (if readable then st t i d else Inl ''invalid input value'')"

text \<open>
  \<open>get_session\<close>: commit when the body returns, roll back when it raises an \<open>Exception\<close>. The same
  shape closes every \<open>async with session_factory() as session\<close> of the workers, where the body's
  last step is the commit and leaving the block without it drops the transaction.
\<close>

definition get_session :: "'a tx \<Rightarrow> 'a tx" where
  "get_session body s =
     (case body s of (Inl e, s') \<Rightarrow> (Inl e, rollback s') | (Inr x, s') \<Rightarrow> (Inr x, commit s'))"

text \<open>What the environment brings to one transaction, and the session it opens on a database.\<close>

record env =
  e_now :: time
  e_ids :: "nat \<Rightarrow> nat \<Rightarrow> uuid"
  e_faults :: "nat \<Rightarrow> bool"
  e_locked :: "uuid \<Rightarrow> bool"

definition open_session :: "env \<Rightarrow> db \<Rightarrow> session" where
  "open_session e d =
     \<lparr>committed = d, working = d, now = e_now e, ids = e_ids e, faults = e_faults e,
      locked_rows = e_locked e, stmt_no = 0\<rparr>"

text \<open>The database and the result after one transaction.\<close>

definition transact :: "env \<Rightarrow> 'a tx \<Rightarrow> db \<Rightarrow> (exn + 'a) \<times> db" where
  "transact e m d = map_prod id committed (get_session m (open_session e d))"

text \<open>\<open>result.one_or_none()\<close>: more than one row is \<open>MultipleResultsFound\<close>.\<close>

definition one_or_none :: "'a list \<Rightarrow> 'a option tx" where
  "one_or_none rows =
     (case rows of
        [] \<Rightarrow> return_tx None
      | [r] \<Rightarrow> return_tx (Some r)
      | _ \<Rightarrow> raise_tx (SQLAlchemyError ''MultipleResultsFound''))"

section \<open>Equations\<close>

lemma return_tx_simps [simp, tx_simps]: "return_tx x s = (Inr x, s)"
  by (simp add: return_tx_def)

lemma raise_tx_simps [simp, tx_simps]: "raise_tx e s = (Inl e, s)"
  by (simp add: raise_tx_def)

lemma bind_return_tx [simp]: "bind_tx (return_tx x) f = f x"
  by (rule ext) (simp add: bind_tx_def)

lemma bind_raise_tx [simp]: "bind_tx (raise_tx e) f = raise_tx e"
  by (rule ext) (simp add: bind_tx_def)

lemma bind_tx_assoc: "bind_tx (bind_tx m f) g = bind_tx m (\<lambda>x. bind_tx (f x) g)"
  by (rule ext) (simp add: bind_tx_def split: prod.split sum.split)

lemma bind_tx_Inr: "m s = (Inr x, s') \<Longrightarrow> bind_tx m f s = f x s'"
  by (simp add: bind_tx_def)

lemma bind_tx_Inl: "m s = (Inl e, s') \<Longrightarrow> bind_tx m f s = (Inl e, s')"
  by (simp add: bind_tx_def)

lemma bind_tx_Inr_iff:
  "bind_tx m f s = (Inr y, s'') \<longleftrightarrow> (\<exists>x s'. m s = (Inr x, s') \<and> f x s' = (Inr y, s''))"
  by (auto simp: bind_tx_def split: prod.split sum.split)

lemma execute_ok:
  "\<not> faults s (stmt_no s) \<Longrightarrow> st (now s) (ids s (stmt_no s)) (working s) = Inr (x, d) \<Longrightarrow>
    execute st s = (Inr x, s\<lparr>stmt_no := Suc (stmt_no s), working := d\<rparr>)"
  by (simp add: execute_def Let_def)

lemma execute_Inr_iff:
  "execute st s = (Inr x, s') \<longleftrightarrow>
     \<not> faults s (stmt_no s) \<and>
     (\<exists>d. st (now s) (ids s (stmt_no s)) (working s) = Inr (x, d) \<and>
          s' = s\<lparr>stmt_no := Suc (stmt_no s), working := d\<rparr>)"
  by (auto simp: execute_def Let_def split: sum.split)

lemma execute_skip_locked_Inr_iff:
  "execute_skip_locked st s = (Inr x, s') \<longleftrightarrow>
     \<not> faults s (stmt_no s) \<and>
     (\<exists>d. st (locked_rows s) (now s) (ids s (stmt_no s)) (working s) = Inr (x, d) \<and>
          s' = s\<lparr>stmt_no := Suc (stmt_no s), working := d\<rparr>)"
  by (simp add: execute_skip_locked_def execute_Inr_iff)

lemma catch_sql_Inr_iff [simp]: "catch_sql msg m s = (Inr x, s') \<longleftrightarrow> m s = (Inr x, s')"
  by (auto simp: catch_sql_def split: prod.split sum.split exn.split)

lemma catch_sql_no_sql_error: "fst (catch_sql msg m s) \<noteq> Inl (SQLAlchemyError e)"
  by (auto simp: catch_sql_def split: prod.split sum.split exn.split)

lemma commit_simps [simp]:
  "working (commit s) = working s" "committed (commit s) = working s" "now (commit s) = now s"
  by (simp_all add: commit_def)

lemma rollback_simps [simp]:
  "working (rollback s) = committed s" "committed (rollback s) = committed s"
  "now (rollback s) = now s"
  by (simp_all add: rollback_def)

lemma open_session_simps [simp]:
  "working (open_session e d) = d" "committed (open_session e d) = d"
  "now (open_session e d) = e_now e" "ids (open_session e d) = e_ids e"
  "faults (open_session e d) = e_faults e" "locked_rows (open_session e d) = e_locked e"
  "stmt_no (open_session e d) = 0"
  by (simp_all add: open_session_def)

lemma transact_Inl: "m (open_session e d) = (Inl x, s) \<Longrightarrow> transact e m d = (Inl x, committed s)"
  by (simp add: transact_def get_session_def)

lemma transact_Inr: "m (open_session e d) = (Inr x, s) \<Longrightarrow> transact e m d = (Inr x, working s)"
  by (simp add: transact_def get_session_def)

section \<open>Transactions that keep an invariant and never commit\<close>

text \<open>
  \<open>stmt_keeps I st\<close>: the statement keeps \<open>I\<close> of the database. \<open>keeps I m\<close>: the transaction body
  keeps \<open>I\<close> of its view, whatever fails, and leaves the committed database alone.
\<close>

definition stmt_keeps :: "(db \<Rightarrow> bool) \<Rightarrow> 'a stmt \<Rightarrow> bool" where
  "stmt_keeps I st \<longleftrightarrow> (\<forall>t i d x d'. I d \<longrightarrow> st t i d = Inr (x, d') \<longrightarrow> I d')"

definition keeps :: "(db \<Rightarrow> bool) \<Rightarrow> 'a tx \<Rightarrow> bool" where
  "keeps I m \<longleftrightarrow>
     (\<forall>s. I (committed s) \<longrightarrow> I (working s) \<longrightarrow>
        I (working (snd (m s))) \<and> committed (snd (m s)) = committed s)"

definition uncommitted :: "'a tx \<Rightarrow> bool" where
  "uncommitted m \<longleftrightarrow> keeps (\<lambda>_. True) m"

lemma stmt_keepsI:
  "(\<And>t i d x d'. I d \<Longrightarrow> st t i d = Inr (x, d') \<Longrightarrow> I d') \<Longrightarrow> stmt_keeps I st"
  by (auto simp: stmt_keeps_def)

lemma stmt_keeps_True [keeps_intros]: "stmt_keeps (\<lambda>_. True) st"
  by (simp add: stmt_keeps_def)

lemma with_values_Inr [simp]: "with_values readable st t i d = Inr (x, d') \<longleftrightarrow> readable \<and> st t i d = Inr (x, d')"
  by (simp add: with_values_def)

lemma stmt_keeps_with_values [keeps_intros]: "stmt_keeps I st \<Longrightarrow> stmt_keeps I (with_values readable st)"
  unfolding stmt_keeps_def with_values_Inr by blast

lemma stmt_keeps_query [keeps_intros]: "stmt_keeps I (query f)"
  by (simp add: stmt_keeps_def query_def)

lemma keepsD_working:
  "keeps I m \<Longrightarrow> I (committed s) \<Longrightarrow> I (working s) \<Longrightarrow> m s = (r, s') \<Longrightarrow> I (working s')"
  by (auto simp: keeps_def dest!: spec [of _ s])

lemma keepsD_committed:
  "keeps I m \<Longrightarrow> I (committed s) \<Longrightarrow> I (working s) \<Longrightarrow> m s = (r, s') \<Longrightarrow> committed s' = committed s"
  by (auto simp: keeps_def dest!: spec [of _ s])

lemma uncommittedD: "uncommitted m \<Longrightarrow> committed (snd (m s)) = committed s"
  by (simp add: uncommitted_def keeps_def)

lemma keeps_return [keeps_intros]: "keeps I (return_tx x)"
  by (simp add: keeps_def)

lemma keeps_raise [keeps_intros]: "keeps I (raise_tx e)"
  by (simp add: keeps_def)

lemma keeps_execute [keeps_intros]: "stmt_keeps I st \<Longrightarrow> keeps I (execute st)"
  by (auto simp: keeps_def stmt_keeps_def execute_def Let_def split: sum.split)

lemma keeps_execute_skip_locked [keeps_intros]:
  "(\<And>l. stmt_keeps I (st l)) \<Longrightarrow> keeps I (execute_skip_locked st)"
  unfolding keeps_def execute_skip_locked_def by (blast dest: keeps_execute [unfolded keeps_def])

lemma keeps_bind [keeps_intros]:
  assumes "keeps I m" and "\<And>x. keeps I (f x)"
  shows "keeps I (bind_tx m f)"
  unfolding keeps_def
proof (intro allI impI)
  fix s :: session assume s: "I (committed s)" "I (working s)"
  obtain r s' where m: "m s = (r, s')" by (cases "m s")
  with assms(1) s have s': "I (working s')" "committed s' = committed s"
    by (blast dest: keepsD_working keepsD_committed)+
  show "I (working (snd (bind_tx m f s))) \<and> committed (snd (bind_tx m f s)) = committed s"
  proof (cases r)
    case (Inl e)
    with m s' show ?thesis by (simp add: bind_tx_def)
  next
    case (Inr x)
    from assms(2) [of x] s s' have "I (working (snd (f x s'))) \<and> committed (snd (f x s')) = committed s'"
      by (simp add: keeps_def)
    with m Inr s' show ?thesis by (simp add: bind_tx_def)
  qed
qed

lemma keeps_catch_sql [keeps_intros]:
  assumes "keeps I m"
  shows "keeps I (catch_sql msg m)"
  unfolding keeps_def
proof (intro allI impI)
  fix s :: session assume s: "I (committed s)" "I (working s)"
  obtain r s' where m: "m s = (r, s')" by (cases "m s")
  with assms s have "I (working s')" "committed s' = committed s"
    by (blast dest: keepsD_working keepsD_committed)+
  with m s show "I (working (snd (catch_sql msg m s))) \<and>
      committed (snd (catch_sql msg m s)) = committed s"
    by (simp add: catch_sql_def split: sum.split exn.split)
qed

lemma keeps_if [keeps_intros]: "keeps I m \<Longrightarrow> keeps I n \<Longrightarrow> keeps I (if b then m else n)"
  by simp

lemma keeps_case_option [keeps_intros]:
  "keeps I m \<Longrightarrow> (\<And>x. keeps I (f x)) \<Longrightarrow> keeps I (case v of None \<Rightarrow> m | Some x \<Rightarrow> f x)"
  by (simp split: option.split)

lemma keeps_case_sum [keeps_intros]:
  "(\<And>e. keeps I (g e)) \<Longrightarrow> (\<And>x. keeps I (f x)) \<Longrightarrow> keeps I (case v of Inl e \<Rightarrow> g e | Inr x \<Rightarrow> f x)"
  by (simp split: sum.split)

lemma keeps_case_prod [keeps_intros]:
  "(\<And>x y. keeps I (f x y)) \<Longrightarrow> keeps I (case v of (x, y) \<Rightarrow> f x y)"
  by (simp split: prod.split)

lemma keeps_Let [keeps_intros]: "(\<And>x. keeps I (f x)) \<Longrightarrow> keeps I (let x = v in f x)"
  by (simp add: Let_def)

lemma keeps_one_or_none [keeps_intros]: "keeps I (one_or_none rows)"
  unfolding one_or_none_def by (cases rows rule: remdups_adj.cases) (simp_all add: keeps_def)

lemma one_or_none_Inr:
  "one_or_none rows s = (Inr r, s') \<longleftrightarrow> s' = s \<and> rows = (case r of None \<Rightarrow> [] | Some x \<Rightarrow> [x])"
  by (cases rows rule: remdups_adj.cases) (auto simp: one_or_none_def split: option.split)

text \<open>One transaction on a database that satisfies the invariant ends in one that does.\<close>

lemma transact_keeps:
  assumes "keeps I m" and "I d"
  shows "I (snd (transact e m d))"
proof -
  obtain r s where m: "m (open_session e d) = (r, s)" by (cases "m (open_session e d)")
  with assms have "I (working s)" "committed s = d"
    using keepsD_working [OF assms(1) _ _ m] keepsD_committed [OF assms(1) _ _ m] by simp_all
  with m assms(2) show ?thesis
    by (cases r) (simp_all add: transact_Inl transact_Inr)
qed

section \<open>How a body fails\<close>

text \<open>
  \<open>aborts m s\<close>: from \<open>s\<close>, the body fails only by an error of the server, which the \<open>except\<close> around it turns
  into a rollback, or after such a rollback.
\<close>

definition aborts :: "'a tx \<Rightarrow> session \<Rightarrow> bool" where
  "aborts m s \<longleftrightarrow>
     (\<forall>e s'. m s = (Inl e, s') \<longrightarrow>
        (\<exists>x. e = SQLAlchemyError x) \<or> (\<exists>x. e = RepositoryError x) \<and> working s' = committed s')"

lemma aborts_return [aborts_intros]: "aborts (return_tx x) s"
  by (simp add: aborts_def)

lemma aborts_execute [aborts_intros]: "aborts (execute st) s"
  by (auto simp: aborts_def execute_def Let_def split: if_splits sum.splits)

lemma aborts_one_or_none [aborts_intros]: "aborts (one_or_none rows) s"
  by (cases rows rule: remdups_adj.cases) (auto simp: aborts_def one_or_none_def)

lemma aborts_bind [aborts_intros]:
  "aborts m s \<Longrightarrow> (\<And>x s'. m s = (Inr x, s') \<Longrightarrow> aborts (f x) s') \<Longrightarrow> aborts (bind_tx m f) s"
  by (auto simp: aborts_def bind_tx_def split: prod.splits sum.splits)

lemma aborts_catch_sql [aborts_intros]: "aborts m s \<Longrightarrow> aborts (catch_sql msg m) s"
  unfolding aborts_def catch_sql_def
  by (cases "m s", cases "fst (m s)") (auto split: exn.splits)

lemma aborts_catch_sqlD:
  assumes "aborts m s" and "catch_sql msg m s = (Inl e, s')"
  shows "\<exists>x. e = RepositoryError x" and "working s' = committed s'"
  using aborts_catch_sql [OF assms(1), of msg] assms(2) catch_sql_no_sql_error [of msg m s]
  by (auto simp: aborts_def)

text \<open>A body that raises changes nothing.\<close>

lemma transact_raise:
  assumes "uncommitted m" and "fst (transact e m d) = Inl x"
  shows "snd (transact e m d) = d"
proof -
  obtain r s where m: "m (open_session e d) = (r, s)" by (cases "m (open_session e d)")
  from uncommittedD [OF assms(1), of "open_session e d"] m have "committed s = d" by simp
  with m assms(2) show ?thesis by (cases r) (simp_all add: transact_Inl transact_Inr)
qed

lemma transact_InrD:
  assumes "transact e m d = (Inr x, d')"
  obtains s where "m (open_session e d) = (Inr x, s)" and "d' = working s"
proof -
  obtain r s where m: "m (open_session e d) = (r, s)" by (cases "m (open_session e d)")
  with assms that show thesis
    by (cases r) (simp_all add: transact_Inl transact_Inr)
qed

lemma transact_evalE:
  assumes "map_sum id f (fst (transact e m d)) = Inr y"
  obtains x d' where "transact e m d = (Inr x, d')" and "f x = y"
proof -
  obtain r d' where t: "transact e m d = (r, d')" by (cases "transact e m d")
  with assms that show thesis by (cases r) auto
qed

lemma transact_Inl_same: "uncommitted m \<Longrightarrow> transact e m d = (Inl x, d') \<Longrightarrow> d' = d"
  using transact_raise [of m e d x] by simp

end
