(* ===== verification/Queue_Repository.thy ===== *)
theory Queue_Repository imports Session begin

text \<open>
  The queue repository (\<open>repositories/queues.py\<close>): its SQL statements, its operations, the contract
  \<open>queue_store\<close> of \<open>QueueRepositoryProtocol\<close> that job insertion and the queue service rely on, and
  the proof that the repository meets it.
\<close>

section \<open>Statements\<close>

text \<open>The defaults the schema gives a queue.\<close>

definition new_queue :: "time \<Rightarrow> string \<Rightarrow> queue_row" where
  "new_queue t n =
     \<lparr>q_name = n, q_paused = False, q_concurrency_limit = 8, q_created_at = t, q_updated_at = t\<rparr>"

definition insert_queue_sql :: "string \<Rightarrow> unit stmt" where
  "insert_queue_sql n t i d =
     (if \<not> storable_text (Some n) then Inl ''invalid input value''
      else if n \<in> q_name ` set (queues d) then Inr ((), d)
      else Inr ((), d\<lparr>queues := queues d @ [new_queue t n]\<rparr>))"

definition set_queue :: "time \<Rightarrow> bool option \<Rightarrow> int option \<Rightarrow> queue_row \<Rightarrow> queue_row" where
  "set_queue t paused limit q =
     q\<lparr>q_paused := (case paused of None \<Rightarrow> q_paused q | Some b \<Rightarrow> b),
       q_concurrency_limit := (case limit of None \<Rightarrow> q_concurrency_limit q | Some n \<Rightarrow> n),
       q_updated_at := t\<rparr>"

definition update_queue_sql :: "string \<Rightarrow> bool option \<Rightarrow> int option \<Rightarrow> unit stmt" where
  "update_queue_sql n paused limit t i d =
     (let qs = upd_where (\<lambda>q. q_name q = n) (set_queue t paused limit) (queues d)
      in if \<forall>q \<in> set qs. queue_checks q then Inr ((), d\<lparr>queues := qs\<rparr>)
         else Inl ''ck_pgrelay_queue_concurrency_limit'')"

section \<open>Operations\<close>

definition to_queue_row :: "queue_row \<Rightarrow> queue_row" where
  "to_queue_row m =
     \<lparr>q_name = q_name m, q_paused = q_paused m, q_concurrency_limit = q_concurrency_limit m,
      q_created_at = q_created_at m, q_updated_at = q_updated_at m\<rparr>"

definition get_queue :: "string \<Rightarrow> queue_row option tx" where
  "get_queue n =
     catch_sql ''Queue lookup failed''
       (bind_tx (execute (with_values (storable_text (Some n)) (query (\<lambda>t d. find (\<lambda>q. q_name q = n) (queues d)))))
         (\<lambda>m. return_tx (map_option to_queue_row m)))"

definition upsert_queue :: "string \<Rightarrow> queue_row tx" where
  "upsert_queue n =
     catch_sql ''Queue upsert failed''
       (bind_tx (execute (insert_queue_sql n)) (\<lambda>_.
        bind_tx (get_queue n) (\<lambda>row.
        case row of
          None \<Rightarrow> raise_tx (RepositoryError ''Queue upsert did not return a row'')
        | Some q \<Rightarrow> return_tx q)))"

definition list_queues :: "queue_row list tx" where
  "list_queues =
     catch_sql ''Queue list failed''
       (bind_tx (execute (query (\<lambda>t d. sort_key q_name (queues d))))
         (\<lambda>ms. return_tx (map to_queue_row ms)))"

definition update_queue :: "string \<Rightarrow> bool option \<Rightarrow> int option \<Rightarrow> queue_row tx" where
  "update_queue n paused limit =
     catch_sql ''Queue update failed''
       (bind_tx (upsert_queue n) (\<lambda>_.
        bind_tx (if paused \<noteq> None \<or> limit \<noteq> None then execute (update_queue_sql n paused limit)
                 else return_tx ()) (\<lambda>_.
        bind_tx (get_queue n) (\<lambda>row.
        case row of
          None \<Rightarrow> raise_tx (QueueNotFoundError ''Queue not found'')
        | Some q \<Rightarrow> return_tx q))))"

definition pause_queue :: "string \<Rightarrow> queue_row tx" where
  "pause_queue n = update_queue n (Some True) None"

definition resume_queue :: "string \<Rightarrow> queue_row tx" where
  "resume_queue n = update_queue n (Some False) None"

section \<open>The contract of the queue repository\<close>

text \<open>The operations of \<open>QueueRepositoryProtocol\<close> (\<open>repositories/protocols.py\<close>).\<close>

record queue_repository =
  qr_upsert_queue :: "string \<Rightarrow> queue_row tx"
  qr_get_queue :: "string \<Rightarrow> queue_row option tx"
  qr_list_queues :: "queue_row list tx"
  qr_update_queue :: "string \<Rightarrow> bool option \<Rightarrow> int option \<Rightarrow> queue_row tx"

definition QueueRepository :: queue_repository where
  "QueueRepository =
     \<lparr>qr_upsert_queue = upsert_queue, qr_get_queue = get_queue, qr_list_queues = list_queues,
      qr_update_queue = update_queue\<rparr>"

lemma QueueRepository_simps [simp]:
  "qr_upsert_queue QueueRepository = upsert_queue" "qr_get_queue QueueRepository = get_queue"
  "qr_list_queues QueueRepository = list_queues" "qr_update_queue QueueRepository = update_queue"
  by (simp_all add: QueueRepository_def)

text \<open>
  What the clients of \<open>QueueRepositoryProtocol\<close> rely on: an upsert returns the row of that name,
  which is in the table afterwards, and keeps every row that was there; it touches no other table;
  an update returns a row carrying the requested settings.
\<close>

locale queue_store =
  fixes Q :: queue_repository
  assumes upsert_row: "qr_upsert_queue Q n s = (Inr q, s') \<Longrightarrow> q_name q = n \<and> q \<in> set (queues (working s'))"
    and upsert_keeps_rows: "qr_upsert_queue Q n s = (Inr q, s') \<Longrightarrow> set (queues (working s)) \<subseteq> set (queues (working s'))"
    and upsert_frame: "qr_upsert_queue Q n s = (Inr q, s') \<Longrightarrow>
      jobs (working s') = jobs (working s) \<and> attempts (working s') = attempts (working s) \<and>
      workers (working s') = workers (working s) \<and> now s' = now s"
    and upsert_wf: "keeps wf_db (qr_upsert_queue Q n)"
    and update_settings: "qr_update_queue Q n paused limit s = (Inr q, s') \<Longrightarrow>
      q_name q = n \<and> q \<in> set (queues (working s')) \<and>
      the_default (q_paused q) paused = q_paused q \<and>
      the_default (q_concurrency_limit q) limit = q_concurrency_limit q"
    and update_frame: "qr_update_queue Q n paused limit s = (Inr q, s') \<Longrightarrow>
      jobs (working s') = jobs (working s) \<and> attempts (working s') = attempts (working s)"
    and get_row: "qr_get_queue Q n s = (Inr r, s') \<Longrightarrow>
      r = find (\<lambda>q. q_name q = n) (queues (working s)) \<and> working s' = working s"
    and list_reads: "keeps I (qr_list_queues Q)"
    and update_wf: "keeps wf_db (qr_update_queue Q n paused limit)"
begin

lemma upsert_present: "qr_upsert_queue Q n s = (Inr q, s') \<Longrightarrow> n \<in> q_name ` set (queues (working s'))"
  by (auto dest: upsert_row)

lemma pause_then_resume:
  assumes "bind_tx (qr_update_queue Q n (Some True) None) (\<lambda>_. qr_update_queue Q n (Some False) None) s = (Inr q, s')"
  shows "\<not> q_paused q \<and> jobs (working s') = jobs (working s)"
proof -
  from assms obtain r s1 where "qr_update_queue Q n (Some True) None s = (Inr r, s1)"
    and "qr_update_queue Q n (Some False) None s1 = (Inr q, s')"
    by (auto simp: bind_tx_Inr_iff)
  then show ?thesis
    using update_frame [of n "Some True" None s r s1] update_frame [of n "Some False" None s1 q s']
      update_settings [of n "Some False" None s1 q s'] by simp
qed

end

section \<open>The repository meets its contract\<close>

lemma to_queue_row_id [simp]: "to_queue_row m = m"
  by (simp add: to_queue_row_def)

lemma map_option_to_queue_row [simp]: "map_option to_queue_row m = m"
  by (cases m) simp_all

lemma set_queue_name [simp]: "q_name (set_queue t p l q) = q_name q"
  by (simp add: set_queue_def)

lemma schema_ok_queues:
  assumes "schema_ok d" and "distinct (map q_name qs)" and "\<forall>q \<in> set qs. queue_checks q"
    and "q_name ` set (queues d) \<subseteq> q_name ` set qs"
  shows "schema_ok (d\<lparr>queues := qs\<rparr>)"
  using assms unfolding schema_ok_def by simp blast

lemma wf_db_queues:
  "wf_db d \<Longrightarrow> distinct (map q_name qs) \<Longrightarrow> \<forall>q \<in> set qs. queue_checks q \<Longrightarrow>
    q_name ` set (queues d) \<subseteq> q_name ` set qs \<Longrightarrow> wf_db (d\<lparr>queues := qs\<rparr>)"
  by (simp add: wf_db_def schema_ok_queues)

lemma stmt_keeps_insert_queue [wf_intros]: "stmt_keeps wf_db (insert_queue_sql n)"
proof (rule stmt_keepsI)
  fix t i d x d' assume d: "wf_db d" and ins: "insert_queue_sql n t i d = Inr (x, d')"
  show "wf_db d'"
  proof (cases "n \<in> q_name ` set (queues d)")
    case True
    with d ins show ?thesis by (auto simp: insert_queue_sql_def split: if_splits)
  next
    case False
    with ins have d': "d' = d\<lparr>queues := queues d @ [new_queue t n]\<rparr>"
      by (auto simp: insert_queue_sql_def split: if_splits)
    have "\<forall>q \<in> set (queues d). queue_checks q"
      using d by (simp add: wf_db_def schema_ok_def)
    then show ?thesis
      unfolding d' using d False wf_db_distinct_queues [OF d]
      by (intro wf_db_queues) (auto simp: new_queue_def queue_checks_def)
  qed
qed

lemma stmt_keeps_update_queue [wf_intros]: "stmt_keeps wf_db (update_queue_sql n p l)"
proof (rule stmt_keepsI)
  fix t i d x d' assume d: "wf_db d" and upd: "update_queue_sql n p l t i d = Inr (x, d')"
  let ?qs = "upd_where (\<lambda>q. q_name q = n) (set_queue t p l) (queues d)"
  from upd have ok: "\<forall>q \<in> set ?qs. queue_checks q" and d': "d' = d\<lparr>queues := ?qs\<rparr>"
    by (auto simp: update_queue_sql_def Let_def split: if_splits)
  have names: "map q_name ?qs = map q_name (queues d)"
    by (simp add: map_upd_where_same)
  then have "q_name ` set ?qs = q_name ` set (queues d)"
    by (metis set_map)
  then show "wf_db d'"
    unfolding d' using d ok wf_db_distinct_queues [OF d] by (intro wf_db_queues) (simp_all add: names)
qed

lemma keeps_get_queue [wf_intros]: "keeps I (get_queue n)"
  unfolding get_queue_def by (intro keeps_intros)

lemma keeps_upsert_queue [wf_intros]: "keeps wf_db (upsert_queue n)"
  unfolding upsert_queue_def by (intro keeps_intros wf_intros)

lemma keeps_list_queues [wf_intros]: "keeps I list_queues"
  unfolding list_queues_def by (intro keeps_intros)

lemma keeps_update_queue [wf_intros]: "keeps wf_db (update_queue n p l)"
  unfolding update_queue_def by (intro keeps_intros wf_intros)

lemma uncommitted_queue_ops:
  "uncommitted (get_queue n)" "uncommitted (upsert_queue n)" "uncommitted (update_queue n p l)"
  "uncommitted list_queues"
  unfolding uncommitted_def get_queue_def upsert_queue_def update_queue_def list_queues_def
  by (intro keeps_intros)+

lemma get_queue_Inr:
  "get_queue n s = (Inr r, s') \<longleftrightarrow>
     storable_text (Some n) \<and> \<not> faults s (stmt_no s) \<and> r = find (\<lambda>q. q_name q = n) (queues (working s)) \<and>
     s' = s\<lparr>stmt_no := Suc (stmt_no s)\<rparr>"
  by (auto simp: get_queue_def bind_tx_Inr_iff execute_Inr_iff query_def)

lemma upsert_queue_Inr:
  assumes "upsert_queue n s = (Inr q, s')"
  shows "q_name q = n" and "q \<in> set (queues (working s'))"
    and "working s' = (if n \<in> q_name ` set (queues (working s)) then working s
           else (working s)\<lparr>queues := queues (working s) @ [new_queue (now s) n]\<rparr>)"
    and "now s' = now s" and "committed s' = committed s"
proof -
  from assms obtain s1 where
    ins: "execute (insert_queue_sql n) s = (Inr (), s1)" and get: "get_queue n s1 = (Inr (Some q), s')"
    unfolding upsert_queue_def
    by (auto simp: bind_tx_Inr_iff return_tx_def raise_tx_def split: option.splits)
  from get have q: "find (\<lambda>q. q_name q = n) (queues (working s1)) = Some q"
    and s': "s' = s1\<lparr>stmt_no := Suc (stmt_no s1)\<rparr>"
    by (simp_all add: get_queue_Inr)
  from find_SomeD [OF q] s' show "q_name q = n" "q \<in> set (queues (working s'))"
    by simp_all
  from ins s' show "working s' = (if n \<in> q_name ` set (queues (working s)) then working s
           else (working s)\<lparr>queues := queues (working s) @ [new_queue (now s) n]\<rparr>)"
    and "now s' = now s" and "committed s' = committed s"
    by (auto simp: execute_Inr_iff insert_queue_sql_def split: if_splits)
qed

lemma aborts_get_queue [aborts_intros]: "aborts (get_queue n) s"
  unfolding get_queue_def by (intro aborts_intros)

lemma aborts_upsert_queue [aborts_intros]: "aborts (upsert_queue n) s"
  unfolding upsert_queue_def
proof (intro aborts_intros)
  fix u s1 row s2
  assume ins: "execute (insert_queue_sql n) s = (Inr u, s1)" and get: "get_queue n s1 = (Inr row, s2)"
  from ins have "n \<in> q_name ` set (queues (working s1))"
    by (auto simp: execute_Inr_iff insert_queue_sql_def new_queue_def split: if_splits)
  then obtain q where "row = Some q"
    using get find_key_None [of q_name n "queues (working s1)"] by (cases row) (auto simp: get_queue_Inr)
  then show "aborts (case row of None \<Rightarrow> raise_tx (RepositoryError ''Queue upsert did not return a row'')
      | Some q \<Rightarrow> return_tx q) s2"
    by (simp add: aborts_return)
qed

lemma upsert_queue_frame:
  assumes "upsert_queue n s = (Inr q, s')"
  shows "jobs (working s') = jobs (working s)" "attempts (working s') = attempts (working s)"
    "workers (working s') = workers (working s)" "now s' = now s"
    "set (queues (working s)) \<subseteq> set (queues (working s'))"
  using upsert_queue_Inr(3,4) [OF assms] by auto

lemma update_queue_Inr:
  assumes "update_queue n p l s = (Inr q, s')"
  shows "q_name q = n" and "q \<in> set (queues (working s'))"
    and "the_default (q_paused q) p = q_paused q"
    and "the_default (q_concurrency_limit q) l = q_concurrency_limit q"
    and "jobs (working s') = jobs (working s)" and "attempts (working s') = attempts (working s)"
proof -
  from assms obtain r s1 s2 where ups: "upsert_queue n s = (Inr r, s1)"
    and upd: "(if p \<noteq> None \<or> l \<noteq> None then execute (update_queue_sql n p l) else return_tx ()) s1 = (Inr (), s2)"
    and get: "get_queue n s2 = (Inr (Some q), s')"
    unfolding update_queue_def
    by (auto simp: bind_tx_Inr_iff return_tx_def raise_tx_def split: option.splits)
  from get have q: "find (\<lambda>q. q_name q = n) (queues (working s2)) = Some q"
    and s': "s' = s2\<lparr>stmt_no := Suc (stmt_no s2)\<rparr>"
    by (simp_all add: get_queue_Inr)
  have s2: "working s2 = (if p \<noteq> None \<or> l \<noteq> None
      then (working s1)\<lparr>queues := upd_where (\<lambda>q. q_name q = n) (set_queue (now s1) p l) (queues (working s1))\<rparr>
      else working s1)"
    using upd by (auto simp: execute_Inr_iff update_queue_sql_def Let_def split: if_splits)
  from find_SomeD [OF q] s' show name: "q_name q = n" and mem: "q \<in> set (queues (working s'))"
    by simp_all
  from s' s2 show "jobs (working s') = jobs (working s)" "attempts (working s') = attempts (working s)"
    by (simp_all add: upsert_queue_frame [OF ups] split: if_splits)
  from mem s' s2 name have set: "p \<noteq> None \<or> l \<noteq> None \<Longrightarrow> \<exists>r. q = set_queue (now s1) p l r"
    by (auto simp: set_upd_where)
  then show "the_default (q_paused q) p = q_paused q"
    and "the_default (q_concurrency_limit q) l = q_concurrency_limit q"
    by (cases p; cases l; auto simp: set_queue_def)+
qed

interpretation queue_repo: queue_store QueueRepository
  by unfold_locales
    (simp_all add: upsert_queue_Inr(1,2) upsert_queue_frame update_queue_Inr get_queue_Inr keeps_upsert_queue
      keeps_update_queue keeps_list_queues)

end
