(* ===== verification/Job_Sql.thy ===== *)
theory Job_Sql imports Session begin

text \<open>
  The SQL statements of the job repository (\<open>repositories/job_sql.py\<close>) as functions on the database,
  one per statement, and what each does to the rows: which rows it changes, that it keeps the
  database well formed, and how many rows it reports.
\<close>

section \<open>Inserting a job\<close>

text \<open>The parameters of the \<open>INSERT\<close>; \<open>now()\<close> and \<open>gen_random_uuid()\<close> fill the rest.\<close>

record job_params =
  p_queue_name :: string
  p_kind :: string
  p_name :: string
  p_payload :: dict
  p_headers :: dict
  p_metadata :: dict
  p_priority :: int
  p_max_attempts :: int
  p_timeout_seconds :: int
  p_available_at :: "time option"
  p_idempotency_key :: "string option"
  p_dedupe_key :: "string option"
  p_trace_id :: "string option"
  p_replayed_from_job_id :: "uuid option"

definition new_job :: "time \<Rightarrow> uuid \<Rightarrow> job_params \<Rightarrow> job_row" where
  "new_job t i p =
     \<lparr>j_id = i, j_queue_name = p_queue_name p, j_kind = p_kind p, j_name = p_name p,
      j_payload = p_payload p, j_headers = p_headers p, j_metadata = p_metadata p,
      j_status = Pending, j_priority = p_priority p, j_max_attempts = p_max_attempts p,
      j_attempt_count = 0,
      j_available_at = (case p_available_at p of None \<Rightarrow> t | Some a \<Rightarrow> a),
      j_timeout_seconds = p_timeout_seconds p, j_idempotency_key = p_idempotency_key p,
      j_dedupe_key = p_dedupe_key p, j_replayed_from_job_id = p_replayed_from_job_id p,
      j_locked_by = None, j_locked_until = None, j_last_error_type = None,
      j_last_error_message = None, j_last_response_status = None, j_trace_id = p_trace_id p,
      j_created_at = t, j_updated_at = t, j_completed_at = None\<rparr>"

text \<open>
  \<open>ON CONFLICT (queue_name, idempotency_key) WHERE idempotency_key IS NOT NULL DO NOTHING RETURNING *\<close>:
  a clash on the index returns no row. The values are converted to the types of their columns first,
  then the checks of the row are made, and only then is the index consulted; a clash on the primary
  key or a missing parent row is an error.
\<close>

definition insert_job_statement :: "job_params \<Rightarrow> job_row option stmt" where
  "insert_job_statement p t i d =
     (let j = new_job t (i 0) p
      in if \<not> job_columns j then Inl ''invalid input value''
         else if \<not> job_checks j then Inl ''ck_pgrelay_job''
         else if (case idem_entry j of None \<Rightarrow> False | Some e \<Rightarrow> e \<in> set (idem_entries (jobs d)))
           then Inr (None, d)
         else if j_id j \<in> j_id ` set (jobs d) then Inl ''pgrelay_job_pkey''
         else if j_queue_name j \<notin> q_name ` set (queues d) then Inl ''pgrelay_job_queue_name_fkey''
         else if (case j_replayed_from_job_id j of None \<Rightarrow> False | Some r \<Rightarrow> r \<notin> j_id ` set (jobs d))
           then Inl ''pgrelay_job_replayed_from_job_id_fkey''
         else Inr (Some j, d\<lparr>jobs := jobs d @ [j]\<rparr>))"

section \<open>Claiming jobs\<close>

text \<open>
  Queue rows are locked in name order. The transaction waits for a queue row another transaction
  holds, so the statement is modelled at the point where it has them.
\<close>

definition locked_queues :: "string list \<Rightarrow> db \<Rightarrow> queue_row list" where
  "locked_queues names d =
     sort_key q_name (filter (\<lambda>q. \<not> q_paused q \<and> q_name q \<in> set names) (queues d))"

definition lock_claim_queues_statement :: "string list \<Rightarrow> string list stmt" where
  "lock_claim_queues_statement names = query (\<lambda>t d. map q_name (locked_queues names d))"

definition slots :: "db \<Rightarrow> queue_row \<Rightarrow> nat" where
  "slots d q = nat (max (q_concurrency_limit q - int (leased_count (q_name q) (jobs d))) 0)"

definition claimable :: "time \<Rightarrow> string \<Rightarrow> job_row \<Rightarrow> bool" where
  "claimable t q j \<longleftrightarrow>
     j_queue_name j = q \<and> j_status j = Pending \<and> j_available_at j \<le> t \<and>
     j_attempt_count j < j_max_attempts j"

text \<open>\<open>ORDER BY priority DESC, available_at ASC, created_at ASC\<close>\<close>

definition claim_key :: "job_row \<Rightarrow> int \<times> int \<times> int" where
  "claim_key j = (- j_priority j, j_available_at j, j_created_at j)"

text \<open>
  The candidates of one queue: the first \<open>slots\<close> rows of the claim order that no other
  transaction has locked (\<open>SKIP LOCKED\<close>; \<open>locked\<close> is the set of rows locked elsewhere).
\<close>

definition queue_candidates :: "(uuid \<Rightarrow> bool) \<Rightarrow> time \<Rightarrow> db \<Rightarrow> queue_row \<Rightarrow> job_row list" where
  "queue_candidates locked t d q =
     take (slots d q)
       (filter (\<lambda>j. \<not> locked (j_id j)) (sort_key claim_key (filter (claimable t (q_name q)) (jobs d))))"

definition picked_jobs :: "(uuid \<Rightarrow> bool) \<Rightarrow> string list \<Rightarrow> nat \<Rightarrow> time \<Rightarrow> db \<Rightarrow> job_row list" where
  "picked_jobs locked names batch_size t d =
     take batch_size (sort_key claim_key
       (concat (map (queue_candidates locked t d) (locked_queues names d))))"

definition lease_job :: "time \<Rightarrow> string \<Rightarrow> int \<Rightarrow> job_row \<Rightarrow> job_row" where
  "lease_job t w lease_seconds j =
     j\<lparr>j_status := Leased, j_locked_by := Some w, j_locked_until := Some (t + seconds lease_seconds),
       j_attempt_count := j_attempt_count j + 1, j_updated_at := t\<rparr>"

definition claim_jobs_statement ::
  "(uuid \<Rightarrow> bool) \<Rightarrow> string \<Rightarrow> string list \<Rightarrow> nat \<Rightarrow> int \<Rightarrow> job_row list stmt" where
  "claim_jobs_statement locked w names batch_size lease_seconds t i d =
     (let picked = j_id ` set (picked_jobs locked names batch_size t d);
          js = upd_where (\<lambda>j. j_id j \<in> picked) (lease_job t w lease_seconds) (jobs d)
      in Inr (filter (\<lambda>j. j_id j \<in> picked) js, d\<lparr>jobs := js\<rparr>))"

section \<open>Statements on a leased job\<close>

text \<open>\<open>WHERE id = :job_id AND locked_by = :worker_id AND status = 'leased'\<close>\<close>

definition owned :: "uuid \<Rightarrow> string \<Rightarrow> job_row \<Rightarrow> bool" where
  "owned i w j \<longleftrightarrow> j_id j = i \<and> j_locked_by j = Some w \<and> j_status j = Leased"

text \<open>The row count of an \<open>UPDATE\<close> and the table it leaves.\<close>

definition update_jobs :: "(job_row \<Rightarrow> bool) \<Rightarrow> (job_row \<Rightarrow> job_row) \<Rightarrow> db \<Rightarrow> string + (nat \<times> db)" where
  "update_jobs p f d = Inr (count_where p (jobs d), d\<lparr>jobs := upd_where p f (jobs d)\<rparr>)"

definition EXTEND_LEASE_SQL :: "uuid \<Rightarrow> string \<Rightarrow> int \<Rightarrow> nat stmt" where
  "EXTEND_LEASE_SQL jid w lease_seconds t i =
     update_jobs (owned jid w)
       (\<lambda>j. j\<lparr>j_locked_until := Some (t + seconds lease_seconds), j_updated_at := t\<rparr>)"

definition RETURN_TO_PENDING_SQL :: "uuid \<Rightarrow> string \<Rightarrow> nat stmt" where
  "RETURN_TO_PENDING_SQL jid w t i =
     update_jobs (owned jid w)
       (\<lambda>j. j\<lparr>j_status := Pending, j_attempt_count := max (j_attempt_count j - 1) 0,
               j_locked_by := None, j_locked_until := None, j_updated_at := t\<rparr>)"

definition COMPLETE_JOB_SQL :: "uuid \<Rightarrow> string \<Rightarrow> int option \<Rightarrow> nat stmt" where
  "COMPLETE_JOB_SQL jid w response_status t i =
     update_jobs (owned jid w)
       (\<lambda>j. j\<lparr>j_status := Succeeded, j_locked_by := None, j_locked_until := None,
               j_last_response_status := response_status, j_completed_at := Some t,
               j_updated_at := t\<rparr>)"

definition FAIL_JOB_SQL ::
  "uuid \<Rightarrow> string \<Rightarrow> bool \<Rightarrow> int \<Rightarrow> string option \<Rightarrow> string option \<Rightarrow> int option \<Rightarrow> nat stmt" where
  "FAIL_JOB_SQL jid w should_retry retry_delay_seconds error_type error_message response_status t i =
     update_jobs (owned jid w)
       (\<lambda>j. j\<lparr>j_status := (if should_retry then Pending else Dead_letter),
               j_available_at := (if should_retry then t + seconds retry_delay_seconds
                                  else j_available_at j),
               j_locked_by := None, j_locked_until := None,
               j_last_error_type := error_type, j_last_error_message := error_message,
               j_last_response_status := response_status,
               j_completed_at := (if should_retry then j_completed_at j else Some t),
               j_updated_at := t\<rparr>)"

definition CANCEL_PENDING_JOB_SQL :: "uuid \<Rightarrow> job_row list stmt" where
  "CANCEL_PENDING_JOB_SQL jid t i d =
     (let p = (\<lambda>j. j_id j = jid \<and> j_status j = Pending);
          f = (\<lambda>j. j\<lparr>j_status := Cancelled, j_completed_at := Some t, j_updated_at := t\<rparr>)
      in Inr (map f (filter p (jobs d)), d\<lparr>jobs := upd_where p f (jobs d)\<rparr>))"

section \<open>Attempts\<close>

text \<open>An attempt row must fit its columns, is checked, and needs its job and a fresh primary key.\<close>

definition insert_attempt_row :: "attempt_row \<Rightarrow> db \<Rightarrow> string + db" where
  "insert_attempt_row a d =
     (if \<not> attempt_columns a then Inl ''invalid input value''
      else if \<not> attempt_checks a then Inl ''ck_pgrelay_attempt_number''
      else if a_id a \<in> a_id ` set (attempts d) then Inl ''pgrelay_attempt_pkey''
      else if a_job_id a \<notin> j_id ` set (jobs d) then Inl ''pgrelay_attempt_job_id_fkey''
      else Inr (d\<lparr>attempts := attempts d @ [a]\<rparr>))"

definition INSERT_ATTEMPT_SQL ::
  "uuid \<Rightarrow> int \<Rightarrow> string \<Rightarrow> attempt_status \<Rightarrow> int \<Rightarrow> string option \<Rightarrow> string option \<Rightarrow> int option \<Rightarrow>
    string option \<Rightarrow> unit stmt" where
  "INSERT_ATTEMPT_SQL jid attempt_number w st duration_ms error_type error_message response_status
     response_body_preview t i d =
     map_sum id (Pair ()) (insert_attempt_row
       \<lparr>a_id = i 0, a_job_id = jid, a_attempt_number = attempt_number, a_worker_id = w, a_status = st,
        a_started_at = t - milliseconds duration_ms, a_finished_at = t, a_duration_ms = duration_ms,
        a_error_type = error_type, a_error_message = error_message,
        a_response_status = response_status, a_response_body_preview = response_body_preview\<rparr> d)"

section \<open>Recovering expired leases\<close>

definition lease_expired_text :: string where
  "lease_expired_text = ''lease_expired''"

definition lease_expired_message :: string where
  "lease_expired_message = ''Worker lease expired before completion''"

definition lease_is_expired :: "time \<Rightarrow> job_row \<Rightarrow> bool" where
  "lease_is_expired t j \<longleftrightarrow>
     j_status j = Leased \<and> (case j_locked_until j of None \<Rightarrow> False | Some u \<Rightarrow> u < t)"

definition expired_jobs :: "(uuid \<Rightarrow> bool) \<Rightarrow> nat \<Rightarrow> time \<Rightarrow> db \<Rightarrow> job_row list" where
  "expired_jobs locked batch_size t d =
     take batch_size (filter (\<lambda>j. \<not> locked (j_id j))
       (sort_key (\<lambda>j. the_default t (j_locked_until j)) (filter (lease_is_expired t) (jobs d))))"

definition recover_job :: "time \<Rightarrow> job_row \<Rightarrow> job_row" where
  "recover_job t j =
     (let exhausted = j_max_attempts j \<le> j_attempt_count j
      in j\<lparr>j_status := (if exhausted then Dead_letter else Pending),
           j_locked_by := None, j_locked_until := None,
           j_last_error_type := Some lease_expired_text,
           j_last_error_message := Some lease_expired_message,
           j_completed_at := (if exhausted then Some t else j_completed_at j),
           j_updated_at := t\<rparr>)"

definition expired_attempt :: "time \<Rightarrow> uuid \<Rightarrow> job_row \<Rightarrow> attempt_row" where
  "expired_attempt t i j =
     \<lparr>a_id = i, a_job_id = j_id j, a_attempt_number = j_attempt_count j,
      a_worker_id = (case j_locked_by j of None \<Rightarrow> ''unknown'' | Some w \<Rightarrow> w),
      a_status = Attempt_lease_expired,
      a_started_at = (case j_locked_until j of None \<Rightarrow> t | Some u \<Rightarrow> u), a_finished_at = t,
      a_duration_ms = 0, a_error_type = Some lease_expired_text,
      a_error_message = Some lease_expired_message, a_response_status = None,
      a_response_body_preview = None\<rparr>"

fun insert_attempt_rows :: "attempt_row list \<Rightarrow> db \<Rightarrow> string + db" where
  "insert_attempt_rows [] d = Inr d"
| "insert_attempt_rows (a # as) d =
     (case insert_attempt_row a d of Inl msg \<Rightarrow> Inl msg | Inr d' \<Rightarrow> insert_attempt_rows as d')"

definition RECOVER_EXPIRED_LEASES_SQL :: "(uuid \<Rightarrow> bool) \<Rightarrow> nat \<Rightarrow> uuid list stmt" where
  "RECOVER_EXPIRED_LEASES_SQL locked batch_size t i d =
     (let picked = expired_jobs locked batch_size t d;
          js = upd_where (\<lambda>j. j_id j \<in> j_id ` set picked) (recover_job t) (jobs d);
          as = map (\<lambda>(n, j). expired_attempt t (i n) j) (enumerate 0 picked)
      in map_sum id (Pair (map j_id picked)) (insert_attempt_rows as (d\<lparr>jobs := js\<rparr>)))"

section \<open>Purging final jobs\<close>

definition completed_before :: "time \<Rightarrow> job_row \<Rightarrow> bool" where
  "completed_before t j = (case j_completed_at j of None \<Rightarrow> False | Some c \<Rightarrow> c < t)"

definition purgeable :: "time \<Rightarrow> int \<Rightarrow> int \<Rightarrow> job_row \<Rightarrow> bool" where
  "purgeable t succeeded_days dead_letter_days j \<longleftrightarrow>
     (j_status j = Succeeded \<and> completed_before (t - days succeeded_days) j) \<or>
     (j_status j = Dead_letter \<and> completed_before (t - days dead_letter_days) j) \<or>
     (j_status j = Cancelled \<and> completed_before (t - days dead_letter_days) j)"

text \<open>
  Deleting jobs deletes their attempts (\<open>ON DELETE CASCADE\<close>) and clears the lineage of their
  replays (\<open>ON DELETE SET NULL\<close>).
\<close>

definition forget_source :: "uuid set \<Rightarrow> job_row \<Rightarrow> job_row" where
  "forget_source gone j =
     (case j_replayed_from_job_id j of
        None \<Rightarrow> j
      | Some r \<Rightarrow> if r \<in> gone then j\<lparr>j_replayed_from_job_id := None\<rparr> else j)"

definition delete_jobs :: "uuid set \<Rightarrow> db \<Rightarrow> db" where
  "delete_jobs gone d =
     d\<lparr>jobs := map (forget_source gone) (filter (\<lambda>j. j_id j \<notin> gone) (jobs d)),
        attempts := filter (\<lambda>a. a_job_id a \<notin> gone) (attempts d)\<rparr>"

definition purge_picked :: "int \<Rightarrow> int \<Rightarrow> nat \<Rightarrow> time \<Rightarrow> db \<Rightarrow> job_row list" where
  "purge_picked succeeded_days dead_letter_days batch_size t d =
     take batch_size (sort_key (\<lambda>j. the_default t (j_completed_at j))
       (filter (purgeable t succeeded_days dead_letter_days) (jobs d)))"

definition PURGE_JOBS_SQL :: "int \<Rightarrow> int \<Rightarrow> nat \<Rightarrow> job_status list stmt" where
  "PURGE_JOBS_SQL succeeded_days dead_letter_days batch_size t i d =
     (let picked = purge_picked succeeded_days dead_letter_days batch_size t d
      in Inr (map j_status picked, delete_jobs (j_id ` set picked) d))"

end
