(* ===== verification/Job_Sql_Facts.thy ===== *)
theory Job_Sql_Facts imports Job_Sql begin

text \<open>
  Every statement of the job repository keeps a well-formed database well formed, and what each
  statement leaves of a row.
\<close>

section \<open>Single-row updates\<close>

lemma update_jobs_Inr [simp]:
  "update_jobs p f d = Inr (n, d') \<longleftrightarrow>
     n = count_where p (jobs d) \<and> d' = d\<lparr>jobs := upd_where p f (jobs d)\<rparr>"
  by (auto simp: update_jobs_def)

lemmas owned_sql_defs =
  EXTEND_LEASE_SQL_def RETURN_TO_PENDING_SQL_def COMPLETE_JOB_SQL_def FAIL_JOB_SQL_def

lemmas row_ok_defs = same_keys_def job_ok_def owned_def

lemma stmt_keeps_extend_lease [wf_intros]: "stmt_keeps wf_db (EXTEND_LEASE_SQL i w n)"
  by (rule stmt_keepsI) (auto simp: EXTEND_LEASE_SQL_def row_ok_defs intro!: wf_db_upd_where)

lemma stmt_keeps_return_to_pending [wf_intros]: "stmt_keeps wf_db (RETURN_TO_PENDING_SQL i w)"
  by (rule stmt_keepsI) (auto simp: RETURN_TO_PENDING_SQL_def row_ok_defs intro!: wf_db_upd_where)

lemma stmt_keeps_complete_job [wf_intros]: "stmt_keeps wf_db (COMPLETE_JOB_SQL i w r)"
  by (rule stmt_keepsI) (auto simp: COMPLETE_JOB_SQL_def row_ok_defs intro!: wf_db_upd_where)

lemma stmt_keeps_fail_job [wf_intros]: "stmt_keeps wf_db (FAIL_JOB_SQL i w b n et em r)"
  by (rule stmt_keepsI) (auto simp: FAIL_JOB_SQL_def row_ok_defs intro!: wf_db_upd_where)

lemma stmt_keeps_cancel [wf_intros]: "stmt_keeps wf_db (CANCEL_PENDING_JOB_SQL i)"
  by (rule stmt_keepsI)
    (auto simp: CANCEL_PENDING_JOB_SQL_def Let_def row_ok_defs intro!: wf_db_upd_where)

section \<open>Inserts\<close>

lemma new_job_simps [simp]:
  "j_id (new_job t i p) = i" "j_queue_name (new_job t i p) = p_queue_name p"
  "j_status (new_job t i p) = Pending" "j_attempt_count (new_job t i p) = 0"
  "j_idempotency_key (new_job t i p) = p_idempotency_key p"
  "j_replayed_from_job_id (new_job t i p) = p_replayed_from_job_id p"
  "j_max_attempts (new_job t i p) = p_max_attempts p" "j_kind (new_job t i p) = p_kind p"
  "j_created_at (new_job t i p) = t" "j_completed_at (new_job t i p) = None"
  "j_locked_by (new_job t i p) = None"
  by (simp_all add: new_job_def)

lemma new_job_ok: "job_checks (new_job t i p) \<Longrightarrow> job_ok (new_job t i p)"
  by (simp add: job_ok_def job_checks_def new_job_def)

lemma idem_entry_new_job: "idem_entry (new_job t i p) = map_option (Pair (p_queue_name p)) (p_idempotency_key p)"
  by (simp add: idem_entry_def)

lemma insert_job_statement_Some:
  assumes "insert_job_statement p t i d = Inr (Some j, d')"
  shows "j = new_job t (i 0) p" and "d' = d\<lparr>jobs := jobs d @ [j]\<rparr>" and "job_checks j"
    and "i 0 \<notin> j_id ` set (jobs d)" and "p_queue_name p \<in> q_name ` set (queues d)"
    and "\<And>e. idem_entry j = Some e \<Longrightarrow> e \<notin> set (idem_entries (jobs d))"
    and "\<And>r. j_replayed_from_job_id j = Some r \<Longrightarrow> r \<in> j_id ` set (jobs d)"
  using assms
  by (auto simp: insert_job_statement_def Let_def idem_entry_new_job split: if_splits option.splits)

lemma insert_job_statement_None:
  assumes "insert_job_statement p t i d = Inr (None, d')"
  shows "d' = d" and "\<exists>k j. p_idempotency_key p = Some k \<and> j \<in> set (jobs d) \<and>
      j_queue_name j = p_queue_name p \<and> j_idempotency_key j = Some k"
  using assms
  by (auto simp: insert_job_statement_def Let_def idem_entry_new_job set_idem_entries idem_entry_Some
      split: if_splits option.splits)

text \<open>Whether a row can be stored is a matter of the parameters.\<close>

definition storable_params :: "job_params \<Rightarrow> bool" where
  "storable_params p \<longleftrightarrow> job_columns (new_job 0 0 p)"

lemma job_columns_new_job [simp]: "job_columns (new_job t i p) = storable_params p"
  by (simp add: storable_params_def job_columns_def new_job_def)

lemma insert_job_statement_storable: "insert_job_statement p t i d = Inr (x, d') \<Longrightarrow> storable_params p"
  by (auto simp: insert_job_statement_def Let_def split: if_splits)

lemma schema_ok_add_job:
  assumes "schema_ok d" and "job_checks j" and "j_id j \<notin> j_id ` set (jobs d)"
    and "j_queue_name j \<in> q_name ` set (queues d)"
    and "\<And>e. idem_entry j = Some e \<Longrightarrow> e \<notin> set (idem_entries (jobs d))"
    and "\<And>r. j_replayed_from_job_id j = Some r \<Longrightarrow> r \<in> j_id ` set (jobs d)"
  shows "schema_ok (d\<lparr>jobs := jobs d @ [j]\<rparr>)"
proof -
  have "distinct (idem_entries (jobs d @ [j]))"
    using assms(1,5) by (auto simp: schema_ok_def split: option.splits)
  moreover have "distinct (map j_id (jobs d @ [j]))"
    using assms(1,3) by (auto simp: schema_ok_def)
  ultimately show ?thesis
    using assms(1,2,4,6) unfolding schema_ok_def by auto
qed

lemma stmt_keeps_insert_job [wf_intros]: "stmt_keeps wf_db (insert_job_statement p)"
proof (rule stmt_keepsI)
  fix t i d x d' assume d: "wf_db d" and ins: "insert_job_statement p t i d = Inr (x, d')"
  show "wf_db d'"
  proof (cases x)
    case None
    with ins d show ?thesis by (auto dest: insert_job_statement_None)
  next
    case (Some j)
    note new = insert_job_statement_Some [OF ins [unfolded Some]]
    have "schema_ok d'"
      unfolding new(2) using d new by (intro schema_ok_add_job) (simp_all add: wf_db_def)
    moreover have "job_ok j"
      using new(1,3) by (simp add: new_job_ok)
    ultimately show ?thesis
      using d new(2) by (simp add: wf_db_def)
  qed
qed

lemma insert_attempt_row_Inr:
  "insert_attempt_row a d = Inr d' \<longleftrightarrow>
     attempt_columns a \<and> attempt_checks a \<and> a_id a \<notin> a_id ` set (attempts d) \<and> a_job_id a \<in> j_id ` set (jobs d) \<and>
     d' = d\<lparr>attempts := attempts d @ [a]\<rparr>"
  by (auto simp: insert_attempt_row_def)

lemma wf_insert_attempt_row: "wf_db d \<Longrightarrow> insert_attempt_row a d = Inr d' \<Longrightarrow> wf_db d'"
  by (auto simp: insert_attempt_row_Inr wf_db_def schema_ok_def)

lemma stmt_keeps_insert_attempt [wf_intros]:
  "stmt_keeps wf_db (INSERT_ATTEMPT_SQL j n w st ms et em r b)"
  by (rule stmt_keepsI)
    (auto simp: INSERT_ATTEMPT_SQL_def map_sum_def split: sum.splits dest: wf_insert_attempt_row)

lemma insert_attempt_rows_Inr:
  "insert_attempt_rows as d = Inr d' \<Longrightarrow> d' = d\<lparr>attempts := attempts d @ as\<rparr>"
  by (induction as d rule: insert_attempt_rows.induct)
    (auto simp: insert_attempt_row_Inr split: sum.splits)

lemma wf_insert_attempt_rows: "wf_db d \<Longrightarrow> insert_attempt_rows as d = Inr d' \<Longrightarrow> wf_db d'"
  by (induction as d rule: insert_attempt_rows.induct)
    (auto split: sum.splits dest: wf_insert_attempt_row)

section \<open>Claiming\<close>

lemma lease_job_simps [simp]:
  "j_id (lease_job t w n j) = j_id j" "j_status (lease_job t w n j) = Leased"
  "j_queue_name (lease_job t w n j) = j_queue_name j"
  "j_locked_by (lease_job t w n j) = Some w"
  "j_locked_until (lease_job t w n j) = Some (t + seconds n)"
  "j_attempt_count (lease_job t w n j) = j_attempt_count j + 1"
  "j_max_attempts (lease_job t w n j) = j_max_attempts j"
  by (simp_all add: lease_job_def)

lemma queue_candidates_claimable:
  "j \<in> set (queue_candidates locked t d q) \<Longrightarrow>
    j \<in> set (jobs d) \<and> claimable t (q_name q) j \<and> \<not> locked (j_id j)"
  by (auto simp: queue_candidates_def dest: in_set_takeD)

lemma locked_queues_set:
  "q \<in> set (locked_queues names d) \<longleftrightarrow> q \<in> set (queues d) \<and> \<not> q_paused q \<and> q_name q \<in> set names"
  by (auto simp: locked_queues_def)

lemma picked_jobs_candidate:
  "j \<in> set (picked_jobs locked names n t d) \<Longrightarrow>
    \<exists>q \<in> set (locked_queues names d). j \<in> set (queue_candidates locked t d q)"
  by (auto simp: picked_jobs_def dest: in_set_takeD)

lemma picked_jobs_claimable:
  "j \<in> set (picked_jobs locked names n t d) \<Longrightarrow>
    j \<in> set (jobs d) \<and> \<not> locked (j_id j) \<and> j_queue_name j \<in> set names \<and>
    claimable t (j_queue_name j) j"
  by (drule picked_jobs_candidate)
    (auto dest!: queue_candidates_claimable simp: locked_queues_set claimable_def)

lemma picked_id_claimable:
  assumes "wf_db d" and "j \<in> set (jobs d)" and "j_id j \<in> j_id ` set (picked_jobs locked names n t d)"
  shows "j \<in> set (picked_jobs locked names n t d)"
proof -
  from assms(3) obtain k where k: "k \<in> set (picked_jobs locked names n t d)" "j_id k = j_id j"
    by auto
  with picked_jobs_claimable have "k \<in> set (jobs d)" by blast
  with k assms(2) key_inj [OF wf_db_distinct_ids [OF assms(1)]] have "k = j" by blast
  with k show ?thesis by simp
qed

lemma claim_jobs_statement_Inr:
  assumes "wf_db d" and "claim_jobs_statement locked w names n ls t i d = Inr (rows, d')"
  shows "d' = d\<lparr>jobs := upd_where (\<lambda>j. j \<in> set (picked_jobs locked names n t d))
           (lease_job t w ls) (jobs d)\<rparr>"
    and "rows = map (lease_job t w ls) (filter (\<lambda>j. j \<in> set (picked_jobs locked names n t d)) (jobs d))"
proof -
  let ?P = "picked_jobs locked names n t d"
  have p: "j_id j \<in> j_id ` set ?P \<longleftrightarrow> j \<in> set ?P" if "j \<in> set (jobs d)" for j
    using picked_id_claimable [OF assms(1) that] by blast
  have u: "upd_where (\<lambda>j. j_id j \<in> j_id ` set ?P) (lease_job t w ls) (jobs d) =
      upd_where (\<lambda>j. j \<in> set ?P) (lease_job t w ls) (jobs d)"
    by (rule upd_where_cong) (simp_all add: p)
  with assms(2) show d': "d' = d\<lparr>jobs := upd_where (\<lambda>j. j \<in> set ?P) (lease_job t w ls) (jobs d)\<rparr>"
    by (simp add: claim_jobs_statement_def Let_def)
  have f: "filter (\<lambda>j. j_id j \<in> I) (upd_where (\<lambda>j. j_id j \<in> I) (lease_job t w ls) js) =
      map (lease_job t w ls) (filter (\<lambda>j. j_id j \<in> I) js)" for I js
    by (induction js) auto
  from assms(2) show "rows = map (lease_job t w ls) (filter (\<lambda>j. j \<in> set ?P) (jobs d))"
    by (simp add: claim_jobs_statement_def Let_def f p cong: filter_cong)
qed

lemma stmt_keeps_claim_jobs [wf_intros]:
  "stmt_keeps wf_db (claim_jobs_statement locked w names n ls)"
proof (rule stmt_keepsI)
  fix t i d x d' assume d: "wf_db d" and cl: "claim_jobs_statement locked w names n ls t i d = Inr (x, d')"
  show "wf_db d'"
    unfolding claim_jobs_statement_Inr(1) [OF d cl]
  proof (rule wf_db_upd_where [OF d])
    fix j assume "j \<in> set (picked_jobs locked names n t d)"
    then have "claimable t (j_queue_name j) j" by (blast dest: picked_jobs_claimable)
    then show "same_keys j (lease_job t w ls j)" and "job_ok j \<Longrightarrow> job_ok (lease_job t w ls j)"
      by (auto simp: lease_job_def same_keys_def job_ok_def claimable_def)
  qed
qed

section \<open>Recovery\<close>

lemma expired_jobs_expired:
  "j \<in> set (expired_jobs locked n t d) \<Longrightarrow>
    j \<in> set (jobs d) \<and> lease_is_expired t j \<and> \<not> locked (j_id j)"
  by (auto simp: expired_jobs_def dest: in_set_takeD)

lemma expired_id_expired:
  assumes "wf_db d" and "j \<in> set (jobs d)" and "j_id j \<in> j_id ` set (expired_jobs locked n t d)"
  shows "j \<in> set (expired_jobs locked n t d)"
proof -
  from assms(3) obtain k where k: "k \<in> set (expired_jobs locked n t d)" "j_id k = j_id j"
    by auto
  with expired_jobs_expired have "k \<in> set (jobs d)" by blast
  with k assms(2) key_inj [OF wf_db_distinct_ids [OF assms(1)]] have "k = j" by blast
  with k show ?thesis by simp
qed

lemma recover_sql_Inr:
  assumes "wf_db d" and "RECOVER_EXPIRED_LEASES_SQL locked n t i d = Inr (rows, d')"
  shows "rows = map j_id (expired_jobs locked n t d)"
    and "d' = d\<lparr>jobs := upd_where (\<lambda>j. j \<in> set (expired_jobs locked n t d)) (recover_job t) (jobs d),
           attempts := attempts d @
             map (\<lambda>(k, j). expired_attempt t (i k) j) (enumerate 0 (expired_jobs locked n t d))\<rparr>"
    and "wf_db d'"
proof -
  let ?P = "expired_jobs locked n t d"
  let ?d1 = "d\<lparr>jobs := upd_where (\<lambda>j. j \<in> set ?P) (recover_job t) (jobs d)\<rparr>"
  have u: "upd_where (\<lambda>j. j_id j \<in> j_id ` set ?P) (recover_job t) (jobs d) =
      upd_where (\<lambda>j. j \<in> set ?P) (recover_job t) (jobs d)"
    by (rule upd_where_cong) (auto dest: expired_id_expired [OF assms(1)])
  from assms(2) show rows: "rows = map j_id ?P"
    by (auto simp: RECOVER_EXPIRED_LEASES_SQL_def Let_def map_sum_def split: sum.splits)
  from assms(2) have ins: "insert_attempt_rows
      (map (\<lambda>(k, j). expired_attempt t (i k) j) (enumerate 0 ?P)) ?d1 = Inr d'"
    by (auto simp: RECOVER_EXPIRED_LEASES_SQL_def Let_def map_sum_def u split: sum.splits)
  from insert_attempt_rows_Inr [OF ins] show "d' = d\<lparr>jobs := upd_where (\<lambda>j. j \<in> set ?P) (recover_job t) (jobs d),
           attempts := attempts d @ map (\<lambda>(k, j). expired_attempt t (i k) j) (enumerate 0 ?P)\<rparr>"
    by simp
  have "wf_db ?d1"
  proof (rule wf_db_upd_where [OF assms(1)])
    fix j assume "j \<in> set ?P"
    then have "lease_is_expired t j" by (blast dest: expired_jobs_expired)
    then show "same_keys j (recover_job t j)" and "job_ok j \<Longrightarrow> job_ok (recover_job t j)"
      by (auto simp: recover_job_def Let_def same_keys_def job_ok_def lease_is_expired_def)
  qed
  with ins show "wf_db d'" by (rule wf_insert_attempt_rows [rotated])
qed

lemma stmt_keeps_recover [wf_intros]: "stmt_keeps wf_db (RECOVER_EXPIRED_LEASES_SQL locked n)"
  by (rule stmt_keepsI) (rule recover_sql_Inr(3))

section \<open>Purging\<close>

lemma forget_source_simps [simp]:
  "j_id (forget_source g j) = j_id j" "j_queue_name (forget_source g j) = j_queue_name j"
  "j_status (forget_source g j) = j_status j" "j_completed_at (forget_source g j) = j_completed_at j"
  "idem_entry (forget_source g j) = idem_entry j" "job_checks (forget_source g j) = job_checks j"
  "job_ok (forget_source g j) = job_ok j"
  by (simp_all add: forget_source_def idem_entry_def job_checks_def job_ok_def split: option.split)

lemma forget_source_replayed:
  "j_replayed_from_job_id (forget_source g j) = Some r \<longleftrightarrow>
     j_replayed_from_job_id j = Some r \<and> r \<notin> g"
  by (auto simp: forget_source_def split: option.split)

lemma delete_jobs_simps [simp]:
  "jobs (delete_jobs g d) = map (forget_source g) (filter (\<lambda>j. j_id j \<notin> g) (jobs d))"
  "attempts (delete_jobs g d) = filter (\<lambda>a. a_job_id a \<notin> g) (attempts d)"
  "queues (delete_jobs g d) = queues d" "workers (delete_jobs g d) = workers d"
  by (simp_all add: delete_jobs_def)

lemma schema_ok_delete_jobs:
  assumes "schema_ok d"
  shows "schema_ok (delete_jobs g d)"
proof -
  let ?kept = "filter (\<lambda>j. j_id j \<notin> g) (jobs d)"
  have "idem_entries (map (forget_source g) ?kept) = idem_entries ?kept"
    by (rule idem_entries_map) simp
  moreover have kept: "j_id ` set ?kept = j_id ` set (jobs d) - g"
    by auto
  moreover have "r \<in> j_id ` set ?kept"
    if "j \<in> set ?kept" "j_replayed_from_job_id (forget_source g j) = Some r" for j r
    using assms that unfolding kept by (simp add: schema_ok_def forget_source_replayed) blast
  moreover have "a_job_id a \<in> j_id ` set ?kept" if "a \<in> set (attempts d)" "a_job_id a \<notin> g" for a
    using assms that unfolding kept by (simp add: schema_ok_def)
  ultimately show ?thesis
    using assms unfolding schema_ok_def
    by (simp add: image_image comp_def distinct_map_filter distinct_idem_entries_filter)
qed

lemma wf_delete_jobs: "wf_db d \<Longrightarrow> wf_db (delete_jobs g d)"
  by (simp add: wf_db_def schema_ok_delete_jobs)

lemma stmt_keeps_purge [wf_intros]: "stmt_keeps wf_db (PURGE_JOBS_SQL sd dd n)"
  by (rule stmt_keepsI) (auto simp: PURGE_JOBS_SQL_def Let_def wf_delete_jobs)

lemma purge_picked_purgeable:
  "j \<in> set (purge_picked sd dd n t d) \<Longrightarrow> j \<in> set (jobs d) \<and> purgeable t sd dd j"
  by (auto simp: purge_picked_def dest: in_set_takeD)

end
