(* ===== verification/Job_Repository.thy ===== *)
theory Job_Repository imports Queue_Repository Job_Sql_Facts begin

text \<open>
  The job repository (\<open>repositories/jobs.py\<close>, \<open>repositories/job_rows.py\<close>): inserting a job once per
  idempotency key, looking jobs up, listing and claiming them, and creating replays.
\<close>

section \<open>Row contracts\<close>

definition row_from_model :: "job_row \<Rightarrow> job_row" where
  "row_from_model m =
     \<lparr>j_id = j_id m, j_queue_name = j_queue_name m, j_kind = j_kind m, j_name = j_name m,
      j_payload = j_payload m, j_headers = j_headers m, j_metadata = j_metadata m,
      j_status = j_status m, j_priority = j_priority m, j_max_attempts = j_max_attempts m,
      j_attempt_count = j_attempt_count m, j_available_at = j_available_at m,
      j_timeout_seconds = j_timeout_seconds m, j_idempotency_key = j_idempotency_key m,
      j_dedupe_key = j_dedupe_key m, j_replayed_from_job_id = j_replayed_from_job_id m,
      j_locked_by = j_locked_by m, j_locked_until = j_locked_until m,
      j_last_error_type = j_last_error_type m, j_last_error_message = j_last_error_message m,
      j_last_response_status = j_last_response_status m, j_trace_id = j_trace_id m,
      j_created_at = j_created_at m, j_updated_at = j_updated_at m,
      j_completed_at = j_completed_at m\<rparr>"

definition row_from_mapping :: "job_row \<Rightarrow> job_row" where
  "row_from_mapping r =
     \<lparr>j_id = j_id r, j_queue_name = j_queue_name r, j_kind = j_kind r, j_name = j_name r,
      j_payload = j_payload r, j_headers = j_headers r, j_metadata = j_metadata r,
      j_status = j_status r, j_priority = j_priority r, j_max_attempts = j_max_attempts r,
      j_attempt_count = j_attempt_count r, j_available_at = j_available_at r,
      j_timeout_seconds = j_timeout_seconds r, j_idempotency_key = j_idempotency_key r,
      j_dedupe_key = j_dedupe_key r, j_replayed_from_job_id = j_replayed_from_job_id r,
      j_locked_by = j_locked_by r, j_locked_until = j_locked_until r,
      j_last_error_type = j_last_error_type r, j_last_error_message = j_last_error_message r,
      j_last_response_status = j_last_response_status r, j_trace_id = j_trace_id r,
      j_created_at = j_created_at r, j_updated_at = j_updated_at r,
      j_completed_at = j_completed_at r\<rparr>"

record job_list_result =
  items :: "job_row list"
  total :: "nat option"

record purge_result =
  pr_succeeded :: nat
  pr_dead_letter :: nat
  pr_cancelled :: nat

definition purge_total :: "purge_result \<Rightarrow> nat" where
  "purge_total r = pr_succeeded r + pr_dead_letter r + pr_cancelled r"

lemma row_from_model_id [simp]: "row_from_model m = m"
  by (simp add: row_from_model_def)

lemma row_from_mapping_id [simp]: "row_from_mapping m = m"
  by (simp add: row_from_mapping_def)

lemma map_option_row_from_model [simp]: "map_option row_from_model m = m"
  by (cases m) simp_all

lemma map_row_from_model [simp]: "map row_from_model ms = ms"
  by (induction ms) simp_all

lemma map_row_from_mapping [simp]: "map row_from_mapping ms = ms"
  by (induction ms) simp_all

section \<open>Operations\<close>

definition get_by_idempotency_key :: "string \<Rightarrow> string \<Rightarrow> job_row option tx" where
  "get_by_idempotency_key q k =
     bind_tx (execute (query (\<lambda>t d.
       filter (\<lambda>j. j_queue_name j = q \<and> j_idempotency_key j = Some k) (jobs d)))) (\<lambda>ms.
     bind_tx (one_or_none ms) (\<lambda>m. return_tx (map_option row_from_model m)))"

definition insert_job :: "job_params \<Rightarrow> (job_row \<times> bool) tx" where
  "insert_job p =
     catch_sql ''Job insert failed''
       (bind_tx (upsert_queue (p_queue_name p)) (\<lambda>_.
        bind_tx (execute (insert_job_statement p)) (\<lambda>inserted.
        case inserted of
          Some r \<Rightarrow> return_tx (row_from_mapping r, True)
        | None \<Rightarrow>
            (case p_idempotency_key p of
               None \<Rightarrow> raise_tx (RepositoryError ''Insert without idempotency key returned no row'')
             | Some k \<Rightarrow>
                 bind_tx (get_by_idempotency_key (p_queue_name p) k) (\<lambda>existing.
                 case existing of
                   None \<Rightarrow> raise_tx (RepositoryError
                     ''Idempotent job conflict did not return an existing row'')
                 | Some e \<Rightarrow> return_tx (e, False))))))"

definition get_job :: "uuid \<Rightarrow> job_row option tx" where
  "get_job i =
     catch_sql ''Job lookup failed''
       (bind_tx (execute (query (\<lambda>t d. job_by_id i d))) (\<lambda>m. return_tx (map_option row_from_model m)))"

definition passes :: "'a option \<Rightarrow> 'a \<Rightarrow> bool" where
  "passes f v = (case f of None \<Rightarrow> True | Some x \<Rightarrow> v = x)"

record job_filter =
  f_status :: "string option"
  f_queue_name :: "string option"
  f_kind :: "string option"
  f_name :: "string option"
  f_dedupe_key :: "string option"

definition filtered_select :: "job_filter \<Rightarrow> db \<Rightarrow> job_row list" where
  "filtered_select f d =
     filter (\<lambda>j. passes (f_status f) (status_text (j_status j)) \<and>
                 passes (f_queue_name f) (j_queue_name j) \<and>
                 passes (f_kind f) (j_kind j) \<and>
                 passes (f_name f) (j_name j) \<and>
                 (case f_dedupe_key f of None \<Rightarrow> True | Some k \<Rightarrow> j_dedupe_key j = Some k))
       (jobs d)"

text \<open>The filters are text parameters, the page a pair of 64-bit ones.\<close>

definition readable_filter :: "job_filter \<Rightarrow> bool" where
  "readable_filter f \<longleftrightarrow>
     storable_text (f_status f) \<and> storable_text (f_queue_name f) \<and> storable_text (f_kind f) \<and>
     storable_text (f_name f) \<and> storable_text (f_dedupe_key f)"

definition list_jobs :: "job_filter \<Rightarrow> nat \<Rightarrow> nat \<Rightarrow> bool \<Rightarrow> job_list_result tx" where
  "list_jobs f limit offset include_total =
     catch_sql ''Job list failed''
       (bind_tx (execute (with_values (readable_filter f \<and> limit < 2 ^ 63 \<and> offset < 2 ^ 63) (query (\<lambda>t d.
          take limit (drop offset (sort_key (\<lambda>j. - j_created_at j) (filtered_select f d))))))) (\<lambda>ms.
        bind_tx (if include_total
                 then bind_tx (execute (with_values (readable_filter f) (query (\<lambda>t d. length (filtered_select f d)))))
                        (\<lambda>n. return_tx (Some n))
                 else return_tx None) (\<lambda>n.
        return_tx \<lparr>items = map row_from_model ms, total = n\<rparr>)))"

definition claim_jobs :: "string \<Rightarrow> string list \<Rightarrow> nat \<Rightarrow> int \<Rightarrow> job_row list tx" where
  "claim_jobs worker_id queue_names batch_size lease_seconds =
     catch_sql ''Job claim failed''
       (bind_tx (execute (lock_claim_queues_statement queue_names)) (\<lambda>_.
        bind_tx (execute_skip_locked (\<lambda>locked. claim_jobs_statement locked worker_id queue_names
                   batch_size lease_seconds)) (\<lambda>rows.
        return_tx (map row_from_mapping rows))))"

definition replay_params :: "job_row \<Rightarrow> string \<Rightarrow> job_params" where
  "replay_params source idempotency_key =
     \<lparr>p_queue_name = j_queue_name source, p_kind = j_kind source, p_name = j_name source,
      p_payload = j_payload source, p_headers = j_headers source, p_metadata = j_metadata source,
      p_priority = j_priority source, p_max_attempts = j_max_attempts source,
      p_timeout_seconds = j_timeout_seconds source, p_available_at = None,
      p_idempotency_key = Some idempotency_key, p_dedupe_key = j_dedupe_key source,
      p_trace_id = j_trace_id source, p_replayed_from_job_id = Some (j_id source)\<rparr>"

definition replay_job :: "job_row \<Rightarrow> string \<Rightarrow> (job_row \<times> bool) tx" where
  "replay_job source idempotency_key = insert_job (replay_params source idempotency_key)"

section \<open>Invariant\<close>

lemma keeps_get_by_idempotency_key [wf_intros]: "keeps I (get_by_idempotency_key q k)"
  unfolding get_by_idempotency_key_def by (intro keeps_intros)

lemma keeps_insert_job [wf_intros]: "keeps wf_db (insert_job p)"
  unfolding insert_job_def by (intro keeps_intros wf_intros)

lemma keeps_get_job [wf_intros]: "keeps I (get_job i)"
  unfolding get_job_def by (intro keeps_intros)

lemma keeps_list_jobs [wf_intros]: "keeps I (list_jobs f l n b)"
  unfolding list_jobs_def by (intro keeps_intros)

lemma keeps_claim_jobs [wf_intros]: "keeps wf_db (claim_jobs w qs n ls)"
  unfolding claim_jobs_def lock_claim_queues_statement_def by (intro keeps_intros wf_intros)

lemma keeps_replay_job [wf_intros]: "keeps wf_db (replay_job j k)"
  unfolding replay_job_def by (rule keeps_insert_job)

lemma uncommitted_job_ops:
  "uncommitted (insert_job p)" "uncommitted (get_job i)" "uncommitted (list_jobs f l n b)"
  "uncommitted (claim_jobs w qs m ls)" "uncommitted (replay_job j k)"
  unfolding uncommitted_def insert_job_def get_job_def list_jobs_def claim_jobs_def replay_job_def
    get_by_idempotency_key_def upsert_queue_def get_queue_def
  by (intro keeps_intros)+

section \<open>Insertion\<close>

lemma get_by_idempotency_key_Inr:
  assumes "wf_db (working s)" and "get_by_idempotency_key q k s = (Inr r, s')"
  shows "working s' = working s" and "committed s' = committed s" and "now s' = now s"
    and "r = Some j \<longleftrightarrow> j \<in> set (jobs (working s)) \<and> j_queue_name j = q \<and> j_idempotency_key j = Some k"
proof -
  from assms(2) have s': "working s' = working s" "committed s' = committed s" "now s' = now s"
    and f: "filter (\<lambda>j. j_queue_name j = q \<and> j_idempotency_key j = Some k) (jobs (working s)) =
      (case r of None \<Rightarrow> [] | Some x \<Rightarrow> [x])"
    by (auto simp: get_by_idempotency_key_def bind_tx_Inr_iff execute_Inr_iff query_def one_or_none_Inr)
  show "working s' = working s" "committed s' = committed s" "now s' = now s" by (fact s')+
  have "j \<in> set (filter (\<lambda>j. j_queue_name j = q \<and> j_idempotency_key j = Some k) (jobs (working s))) \<longleftrightarrow>
      j \<in> set (case r of None \<Rightarrow> [] | Some x \<Rightarrow> [x])"
    by (simp only: f)
  then show "r = Some j \<longleftrightarrow> j \<in> set (jobs (working s)) \<and> j_queue_name j = q \<and> j_idempotency_key j = Some k"
    by (cases r) auto
qed

text \<open>
  An insertion that fails rolls the session back, whatever was done in it before; it fails whenever a
  column cannot hold its value.
\<close>

lemma insert_job_error:
  assumes "insert_job p s = (Inl e, s')" and "wf_db (working s)" and "wf_db (committed s)"
  shows "\<exists>m. e = RepositoryError m" and "working s' = committed s" and "committed s' = committed s"
proof -
  let ?again = "\<lambda>inserted. case inserted of
      Some r \<Rightarrow> return_tx (row_from_mapping r, True)
    | None \<Rightarrow>
        (case p_idempotency_key p of
           None \<Rightarrow> raise_tx (RepositoryError ''Insert without idempotency key returned no row'')
         | Some k \<Rightarrow>
             bind_tx (get_by_idempotency_key (p_queue_name p) k) (\<lambda>existing.
             case existing of
               None \<Rightarrow> raise_tx (RepositoryError ''Idempotent job conflict did not return an existing row'')
             | Some e \<Rightarrow> return_tx (e, False)))"
  have "aborts (?again inserted) s2"
    if ups: "upsert_queue (p_queue_name p) s = (Inr q, s1)"
      and ins: "execute (insert_job_statement p) s1 = (Inr inserted, s2)" for q s1 inserted s2
  proof (cases inserted)
    case (Some r)
    then show ?thesis by (simp add: aborts_return)
  next
    case None
    with ins obtain t i where st: "insert_job_statement p t i (working s1) = Inr (None, working s2)"
      by (auto simp: execute_Inr_iff)
    from insert_job_statement_None [OF st] obtain k j where w: "working s2 = working s1"
      and k: "p_idempotency_key p = Some k" and j: "j \<in> set (jobs (working s1))"
        "j_queue_name j = p_queue_name p" "j_idempotency_key j = Some k"
      by auto
    have wf: "wf_db (working s2)"
      unfolding w by (rule keepsD_working [OF keeps_upsert_queue assms(3,2) ups])
    have "aborts (get_by_idempotency_key (p_queue_name p) k) s2"
      unfolding get_by_idempotency_key_def by (intro aborts_intros)
    moreover have "existing = Some j" if "get_by_idempotency_key (p_queue_name p) k s2 = (Inr existing, s3)"
      for existing s3
      using get_by_idempotency_key_Inr(4) [OF wf that] j w by simp
    ultimately show ?thesis
      using None k by (auto intro!: aborts_bind aborts_return)
  qed
  then have "aborts (bind_tx (upsert_queue (p_queue_name p)) (\<lambda>_. bind_tx (execute (insert_job_statement p)) ?again)) s"
    by (intro aborts_bind aborts_upsert_queue aborts_execute)
  from aborts_catch_sqlD [OF this assms(1) [unfolded insert_job_def]]
  show "\<exists>m. e = RepositoryError m" and "working s' = committed s" and "committed s' = committed s"
    using uncommittedD [OF uncommitted_job_ops(1), of p s] assms(1) by simp_all
qed

lemma insert_job_storable: "insert_job p s = (Inr r, s') \<Longrightarrow> storable_params p"
  by (auto simp: insert_job_def bind_tx_Inr_iff execute_Inr_iff dest: insert_job_statement_storable)

text \<open>
  A job that is reported created is the new row, appended to the table; otherwise the row returned
  was there before and nothing is added.
\<close>

lemma insert_job_created:
  assumes "insert_job p s = (Inr (j, True), s')" and "wf_db (working s)"
  shows "jobs (working s') = jobs (working s) @ [j]" and "\<exists>i. j = new_job (now s) i p"
    and "j_id j \<notin> j_id ` set (jobs (working s))"
    and "\<And>e. idem_entry j = Some e \<Longrightarrow> e \<notin> set (idem_entries (jobs (working s)))"
proof -
  from assms(1) obtain q s1 where ups: "upsert_queue (p_queue_name p) s = (Inr q, s1)"
    and ins: "execute (insert_job_statement p) s1 = (Inr (Some j), s')"
    unfolding insert_job_def
    by (auto simp: bind_tx_Inr_iff return_tx_def raise_tx_def split: option.splits)
  from ins obtain i d' where st: "insert_job_statement p (now s1) i (working s1) = Inr (Some j, d')"
    and w: "working s' = d'"
    by (auto simp: execute_Inr_iff)
  note fr = upsert_queue_frame [OF ups] and new = insert_job_statement_Some [OF st]
  show "jobs (working s') = jobs (working s) @ [j]" "\<exists>i. j = new_job (now s) i p"
    "j_id j \<notin> j_id ` set (jobs (working s))"
    "\<And>e. idem_entry j = Some e \<Longrightarrow> e \<notin> set (idem_entries (jobs (working s)))"
    using new fr w by auto
qed

lemma insert_job_existing:
  assumes "insert_job p s = (Inr (j, False), s')" and "wf_db (working s)" and "wf_db (committed s)"
  shows "jobs (working s') = jobs (working s)" and "j \<in> set (jobs (working s))"
    and "j_queue_name j = p_queue_name p" and "p_idempotency_key p \<noteq> None"
    and "j_idempotency_key j = p_idempotency_key p"
proof -
  from assms(1) obtain q s1 s2 k where ups: "upsert_queue (p_queue_name p) s = (Inr q, s1)"
    and ins: "execute (insert_job_statement p) s1 = (Inr None, s2)"
    and k: "p_idempotency_key p = Some k"
    and get: "get_by_idempotency_key (p_queue_name p) k s2 = (Inr (Some j), s')"
    unfolding insert_job_def
    by (auto simp: bind_tx_Inr_iff return_tx_def raise_tx_def split: option.splits)
  from ins have w2: "working s2 = working s1"
    by (auto simp: execute_Inr_iff dest: insert_job_statement_None)
  have "wf_db (working s1)"
    by (rule keepsD_working [OF keeps_upsert_queue assms(3,2) ups])
  then have wf: "wf_db (working s2)" by (simp add: w2)
  note got = get_by_idempotency_key_Inr [OF wf get]
  from got(4) [of j] have "j \<in> set (jobs (working s2)) \<and> j_queue_name j = p_queue_name p \<and>
      j_idempotency_key j = Some k" by simp
  with got(1) w2 k upsert_queue_frame(1) [OF ups]
  show "jobs (working s') = jobs (working s)" "j \<in> set (jobs (working s))"
    "j_queue_name j = p_queue_name p" "p_idempotency_key p \<noteq> None"
    "j_idempotency_key j = p_idempotency_key p"
    by simp_all
qed

end
