(* ===== verification/Job_State.thy ===== *)
theory Job_State imports Job_Repository begin

text \<open>
  The state transitions of a job (\<open>repositories/job_state.py\<close>): extending and returning leases,
  recording results, recovering expired leases, cancelling and purging.
\<close>

section \<open>Operations\<close>

definition extend_lease :: "uuid \<Rightarrow> string \<Rightarrow> int \<Rightarrow> bool tx" where
  "extend_lease job_id worker_id lease_seconds =
     catch_sql ''Lease extension failed''
       (bind_tx (execute (EXTEND_LEASE_SQL job_id worker_id lease_seconds)) (\<lambda>rowcount.
        return_tx (0 < rowcount)))"

definition return_leased_job_to_pending :: "uuid \<Rightarrow> string \<Rightarrow> bool tx" where
  "return_leased_job_to_pending job_id worker_id =
     catch_sql ''Return leased job failed''
       (bind_tx (execute (RETURN_TO_PENDING_SQL job_id worker_id)) (\<lambda>rowcount.
        return_tx (0 < rowcount)))"

definition insert_attempt ::
  "job_row \<Rightarrow> string \<Rightarrow> attempt_status \<Rightarrow> int \<Rightarrow> string option \<Rightarrow> string option \<Rightarrow> int option \<Rightarrow>
    string option \<Rightarrow> unit tx" where
  "insert_attempt job worker_id status duration_ms error_type error_message response_status
     response_body_preview =
     execute (INSERT_ATTEMPT_SQL (j_id job) (j_attempt_count job) worker_id status duration_ms
       error_type error_message response_status response_body_preview)"

definition complete_job ::
  "job_row \<Rightarrow> string \<Rightarrow> int \<Rightarrow> int option \<Rightarrow> string option \<Rightarrow> bool tx" where
  "complete_job job worker_id duration_ms response_status response_body_preview =
     catch_sql ''Job completion failed''
       (bind_tx (execute (COMPLETE_JOB_SQL (j_id job) worker_id response_status)) (\<lambda>rowcount.
        if 0 < rowcount
        then bind_tx (insert_attempt job worker_id Attempt_succeeded duration_ms None None
               response_status response_body_preview) (\<lambda>_. return_tx True)
        else return_tx False))"

definition fail_job ::
  "job_row \<Rightarrow> string \<Rightarrow> bool \<Rightarrow> bool \<Rightarrow> int \<Rightarrow> int \<Rightarrow> string option \<Rightarrow> string option \<Rightarrow> int option \<Rightarrow>
    string option \<Rightarrow> bool tx" where
  "fail_job job worker_id retryable timed_out retry_delay_seconds duration_ms error_type
     error_message response_status response_body_preview =
     catch_sql ''Job failure update failed''
       (let should_retry = retryable \<and> j_attempt_count job < j_max_attempts job
        in bind_tx (execute (FAIL_JOB_SQL (j_id job) worker_id should_retry retry_delay_seconds
               error_type error_message response_status)) (\<lambda>rowcount.
           if 0 < rowcount
           then bind_tx (insert_attempt job worker_id
                  (if timed_out then Attempt_timeout else Attempt_failed) duration_ms
                  error_type error_message response_status response_body_preview)
                  (\<lambda>_. return_tx True)
           else return_tx False))"

definition recover_expired_leases :: "nat \<Rightarrow> nat tx" where
  "recover_expired_leases batch_size =
     catch_sql ''Expired lease recovery failed''
       (bind_tx (execute_skip_locked (\<lambda>locked. RECOVER_EXPIRED_LEASES_SQL locked batch_size)) (\<lambda>rows.
        return_tx (length rows)))"

definition cancel_pending_job :: "uuid \<Rightarrow> job_row option tx" where
  "cancel_pending_job job_id =
     catch_sql ''Job cancel failed''
       (bind_tx (execute (CANCEL_PENDING_JOB_SQL job_id)) (\<lambda>rows.
        bind_tx (one_or_none rows) (\<lambda>r. return_tx (map_option row_from_mapping r))))"

definition purge_jobs :: "int \<Rightarrow> int \<Rightarrow> nat \<Rightarrow> purge_result tx" where
  "purge_jobs succeeded_days dead_letter_days batch_size =
     catch_sql ''Job purge failed''
       (bind_tx (execute (PURGE_JOBS_SQL succeeded_days dead_letter_days batch_size)) (\<lambda>statuses.
        return_tx \<lparr>pr_succeeded = count_list statuses Succeeded,
                   pr_dead_letter = count_list statuses Dead_letter,
                   pr_cancelled = count_list statuses Cancelled\<rparr>))"

section \<open>Invariant\<close>

lemma keeps_extend_lease [wf_intros]: "keeps wf_db (extend_lease i w n)"
  unfolding extend_lease_def by (intro keeps_intros wf_intros)

lemma keeps_return_leased [wf_intros]: "keeps wf_db (return_leased_job_to_pending i w)"
  unfolding return_leased_job_to_pending_def by (intro keeps_intros wf_intros)

lemma keeps_complete_job [wf_intros]: "keeps wf_db (complete_job j w ms r b)"
  unfolding complete_job_def insert_attempt_def by (intro keeps_intros wf_intros)

lemma keeps_fail_job [wf_intros]: "keeps wf_db (fail_job j w rt to n ms et em r b)"
  unfolding fail_job_def insert_attempt_def by (intro keeps_intros wf_intros)

lemma keeps_recover [wf_intros]: "keeps wf_db (recover_expired_leases n)"
  unfolding recover_expired_leases_def by (intro keeps_intros wf_intros)

lemma keeps_cancel_pending_job [wf_intros]: "keeps wf_db (cancel_pending_job i)"
  unfolding cancel_pending_job_def by (intro keeps_intros wf_intros)

lemma keeps_purge_jobs [wf_intros]: "keeps wf_db (purge_jobs sd dd n)"
  unfolding purge_jobs_def by (intro keeps_intros wf_intros)

lemma uncommitted_state_ops:
  "uncommitted (extend_lease i w n)" "uncommitted (return_leased_job_to_pending i w)"
  "uncommitted (complete_job j w ms r b)" "uncommitted (fail_job j w rt to n' ms et em r b)"
  "uncommitted (recover_expired_leases m)" "uncommitted (cancel_pending_job i)"
  "uncommitted (purge_jobs sd dd m)"
  unfolding uncommitted_def extend_lease_def return_leased_job_to_pending_def complete_job_def
    fail_job_def recover_expired_leases_def cancel_pending_job_def purge_jobs_def insert_attempt_def
  by (intro keeps_intros)+

section \<open>Effects\<close>

text \<open>The caller still holds the lease.\<close>

definition holds_lease :: "uuid \<Rightarrow> string \<Rightarrow> db \<Rightarrow> bool" where
  "holds_lease i w d \<longleftrightarrow> (\<exists>j \<in> set (jobs d). j_id j = i \<and> j_status j = Leased \<and> j_locked_by j = Some w)"

lemma holds_lease_owned: "holds_lease i w d \<longleftrightarrow> (\<exists>j \<in> set (jobs d). owned i w j)"
  by (auto simp: holds_lease_def owned_def)

lemma count_owned: "0 < count_where (owned i w) (jobs d) \<longleftrightarrow> holds_lease i w d"
  by (simp add: count_where_pos holds_lease_owned)

lemma upd_not_owned: "\<not> holds_lease i w d \<Longrightarrow> upd_where (owned i w) f (jobs d) = jobs d"
  by (rule upd_where_none) (auto simp: holds_lease_owned)

lemma extend_lease_Inr:
  assumes "extend_lease i w n s = (Inr b, s')"
  shows "b \<longleftrightarrow> holds_lease i w (working s)"
    and "jobs (working s') = upd_where (owned i w)
      (\<lambda>j. j\<lparr>j_locked_until := Some (now s + seconds n), j_updated_at := now s\<rparr>) (jobs (working s))"
    and "\<not> b \<Longrightarrow> working s' = working s"
  using assms by (auto simp: extend_lease_def bind_tx_Inr_iff execute_Inr_iff EXTEND_LEASE_SQL_def
      count_owned upd_not_owned simp flip: count_owned)

lemma return_leased_Inr:
  assumes "return_leased_job_to_pending i w s = (Inr b, s')"
  shows "b \<longleftrightarrow> holds_lease i w (working s)"
    and "jobs (working s') = upd_where (owned i w)
      (\<lambda>j. j\<lparr>j_status := Pending, j_attempt_count := max (j_attempt_count j - 1) 0,
               j_locked_by := None, j_locked_until := None, j_updated_at := now s\<rparr>) (jobs (working s))"
    and "attempts (working s') = attempts (working s)"
    and "\<not> b \<Longrightarrow> working s' = working s"
  using assms by (auto simp: return_leased_job_to_pending_def bind_tx_Inr_iff execute_Inr_iff
      RETURN_TO_PENDING_SQL_def count_owned upd_not_owned simp flip: count_owned)

lemma insert_attempt_Inr:
  assumes "insert_attempt job w st ms et em r b s = (Inr u, s')"
  shows "jobs (working s') = jobs (working s)" and "queues (working s') = queues (working s)"
    and "workers (working s') = workers (working s)"
    and "\<exists>a. attempts (working s') = attempts (working s) @ [a] \<and> a_job_id a = j_id job \<and>
      a_attempt_number a = j_attempt_count job \<and> a_worker_id a = w \<and> a_status a = st \<and>
      a_finished_at a = now s \<and> a_started_at a = now s - milliseconds ms"
  using assms by (auto simp: insert_attempt_def execute_Inr_iff INSERT_ATTEMPT_SQL_def map_sum_def
      insert_attempt_row_Inr split: sum.splits)

text \<open>Both recordings of a result: an update of the owned row, then an attempt if there was one.\<close>

lemma record_Inr:
  assumes "bind_tx (execute (\<lambda>t i. update_jobs (owned jid w) (f t))) (\<lambda>rowcount.
      if 0 < rowcount then bind_tx (insert_attempt job w st ms et em r prev) (\<lambda>_. return_tx True)
      else return_tx False) s = (Inr b, s')"
  shows "b \<longleftrightarrow> holds_lease jid w (working s)"
    and "jobs (working s') = upd_where (owned jid w) (f (now s)) (jobs (working s))"
    and "b \<Longrightarrow> \<exists>a. attempts (working s') = attempts (working s) @ [a] \<and> a_job_id a = j_id job \<and>
      a_attempt_number a = j_attempt_count job \<and> a_worker_id a = w \<and> a_status a = st \<and>
      a_finished_at a = now s \<and> a_started_at a = now s - milliseconds ms"
    and "\<not> b \<Longrightarrow> working s' = working s"
    and "queues (working s') = queues (working s)"
proof -
  define s1 where "s1 = s\<lparr>stmt_no := Suc (stmt_no s),
    working := (working s)\<lparr>jobs := upd_where (owned jid w) (f (now s)) (jobs (working s))\<rparr>\<rparr>"
  then have w1: "working s1 = (working s)\<lparr>jobs := upd_where (owned jid w) (f (now s)) (jobs (working s))\<rparr>"
    and n1: "now s1 = now s"
    by simp_all
  from assms have rest: "(if holds_lease jid w (working s)
        then bind_tx (insert_attempt job w st ms et em r prev) (\<lambda>_. return_tx True)
        else return_tx False) s1 = (Inr b, s')"
    by (auto simp: bind_tx_Inr_iff execute_Inr_iff count_owned s1_def)
  show "b \<longleftrightarrow> holds_lease jid w (working s)"
    using rest by (auto simp: bind_tx_Inr_iff split: if_splits)
  show "jobs (working s') = upd_where (owned jid w) (f (now s)) (jobs (working s))"
    using rest w1 by (auto simp: bind_tx_Inr_iff insert_attempt_Inr(1) split: if_splits)
  show "queues (working s') = queues (working s)"
    using rest w1 by (auto simp: bind_tx_Inr_iff insert_attempt_Inr(2) split: if_splits)
  show "\<exists>a. attempts (working s') = attempts (working s) @ [a] \<and> a_job_id a = j_id job \<and>
      a_attempt_number a = j_attempt_count job \<and> a_worker_id a = w \<and> a_status a = st \<and>
      a_finished_at a = now s \<and> a_started_at a = now s - milliseconds ms" if b
    using rest w1 n1 that insert_attempt_Inr(4) [of job w st ms et em r prev s1]
    by (auto simp: bind_tx_Inr_iff split: if_splits)
  show "working s' = working s" if "\<not> b"
    using rest w1 that by (auto simp: bind_tx_Inr_iff upd_not_owned split: if_splits)
qed

definition completed :: "int option \<Rightarrow> time \<Rightarrow> job_row \<Rightarrow> job_row" where
  "completed r t j =
     j\<lparr>j_status := Succeeded, j_locked_by := None, j_locked_until := None,
       j_last_response_status := r, j_completed_at := Some t, j_updated_at := t\<rparr>"

definition failed ::
  "bool \<Rightarrow> int \<Rightarrow> string option \<Rightarrow> string option \<Rightarrow> int option \<Rightarrow> time \<Rightarrow> job_row \<Rightarrow> job_row" where
  "failed should_retry delay et em r t j =
     j\<lparr>j_status := (if should_retry then Pending else Dead_letter),
       j_available_at := (if should_retry then t + seconds delay else j_available_at j),
       j_locked_by := None, j_locked_until := None, j_last_error_type := et,
       j_last_error_message := em, j_last_response_status := r,
       j_completed_at := (if should_retry then j_completed_at j else Some t), j_updated_at := t\<rparr>"

lemma complete_sql_eq: "COMPLETE_JOB_SQL i w r = (\<lambda>t ids. update_jobs (owned i w) (completed r t))"
  by (simp add: COMPLETE_JOB_SQL_def [abs_def] completed_def [abs_def])

lemma fail_sql_eq:
  "FAIL_JOB_SQL i w b n et em r = (\<lambda>t ids. update_jobs (owned i w) (failed b n et em r t))"
  by (simp add: FAIL_JOB_SQL_def [abs_def] failed_def [abs_def])

lemma complete_job_Inr:
  assumes "complete_job job w ms r prev s = (Inr b, s')"
  shows "b \<longleftrightarrow> holds_lease (j_id job) w (working s)"
    and "jobs (working s') = upd_where (owned (j_id job) w) (completed r (now s)) (jobs (working s))"
    and "b \<Longrightarrow> \<exists>a. attempts (working s') = attempts (working s) @ [a] \<and> a_job_id a = j_id job \<and>
      a_attempt_number a = j_attempt_count job \<and> a_worker_id a = w \<and> a_status a = Attempt_succeeded \<and>
      a_finished_at a = now s \<and> a_started_at a = now s - milliseconds ms"
    and "\<not> b \<Longrightarrow> working s' = working s"
    and "queues (working s') = queues (working s)"
  using record_Inr [OF assms [unfolded complete_job_def catch_sql_Inr_iff complete_sql_eq]] by blast+

lemma fail_job_Inr:
  fixes job :: job_row
  defines "retry \<equiv> \<lambda>retryable. retryable \<and> j_attempt_count job < j_max_attempts job"
  assumes "fail_job job w retryable timed_out delay ms et em r prev s = (Inr b, s')"
  shows "b \<longleftrightarrow> holds_lease (j_id job) w (working s)"
    and "jobs (working s') =
      upd_where (owned (j_id job) w) (failed (retry retryable) delay et em r (now s)) (jobs (working s))"
    and "b \<Longrightarrow> \<exists>a. attempts (working s') = attempts (working s) @ [a] \<and> a_job_id a = j_id job \<and>
      a_attempt_number a = j_attempt_count job \<and> a_worker_id a = w \<and>
      a_status a = (if timed_out then Attempt_timeout else Attempt_failed) \<and>
      a_finished_at a = now s \<and> a_started_at a = now s - milliseconds ms"
    and "\<not> b \<Longrightarrow> working s' = working s"
    and "queues (working s') = queues (working s)"
  using record_Inr [OF assms(2) [unfolded fail_job_def Let_def catch_sql_Inr_iff fail_sql_eq]]
  unfolding retry_def by blast+

text \<open>A result whose preview cannot be stored is never recorded.\<close>

lemma insert_attempt_unstorable:
  "\<not> storable_text prev \<Longrightarrow> insert_attempt job w st ms et em r prev s \<noteq> (Inr u, s')"
  by (auto simp: insert_attempt_def execute_Inr_iff INSERT_ATTEMPT_SQL_def map_sum_def insert_attempt_row_Inr
      attempt_columns_def split: sum.splits)

lemma record_unstorable:
  assumes "bind_tx m (\<lambda>rowcount.
      if 0 < rowcount then bind_tx (insert_attempt job w st ms et em r prev) (\<lambda>_. return_tx True)
      else return_tx False) s = (Inr b, s')"
    and "\<not> storable_text prev"
  shows "\<not> b"
  using assms by (auto simp: bind_tx_Inr_iff insert_attempt_unstorable split: if_splits)

lemma complete_job_unstorable:
  "complete_job job w ms r prev s = (Inr b, s') \<Longrightarrow> \<not> storable_text prev \<Longrightarrow> \<not> b"
  unfolding complete_job_def catch_sql_Inr_iff by (rule record_unstorable)

lemma fail_job_unstorable:
  "fail_job job w rt timed_out delay ms et em r prev s = (Inr b, s') \<Longrightarrow> \<not> storable_text prev \<Longrightarrow> \<not> b"
  unfolding fail_job_def Let_def catch_sql_Inr_iff by (rule record_unstorable)

lemma recover_expired_leases_Inr:
  assumes "recover_expired_leases n s = (Inr k, s')" and "wf_db (working s)"
  defines "P \<equiv> expired_jobs (locked_rows s) n (now s) (working s)"
  shows "k = length P"
    and "jobs (working s') = upd_where (\<lambda>j. j \<in> set P) (recover_job (now s)) (jobs (working s))"
    and "\<exists>i. attempts (working s') = attempts (working s) @
           map (\<lambda>(m, j). expired_attempt (now s) (i m) j) (enumerate 0 P)"
    and "queues (working s') = queues (working s)"
proof -
  from assms(1) obtain i rows d' where st: "RECOVER_EXPIRED_LEASES_SQL (locked_rows s) n (now s) i (working s) = Inr (rows, d')"
    and k: "k = length rows" and w: "working s' = d'"
    by (auto simp: recover_expired_leases_def bind_tx_Inr_iff execute_skip_locked_Inr_iff)
  note rec = recover_sql_Inr [OF assms(2) st, folded P_def]
  from rec k w show "k = length P"
    "jobs (working s') = upd_where (\<lambda>j. j \<in> set P) (recover_job (now s)) (jobs (working s))"
    "\<exists>i. attempts (working s') = attempts (working s) @
           map (\<lambda>(m, j). expired_attempt (now s) (i m) j) (enumerate 0 P)"
    "queues (working s') = queues (working s)"
    by auto
qed

definition cancelled :: "time \<Rightarrow> job_row \<Rightarrow> job_row" where
  "cancelled t j = j\<lparr>j_status := Cancelled, j_completed_at := Some t, j_updated_at := t\<rparr>"

lemma cancel_pending_job_Inr:
  assumes "cancel_pending_job i s = (Inr r, s')"
  shows "filter (\<lambda>j. j_id j = i \<and> j_status j = Pending) (jobs (working s)) = [] \<Longrightarrow> r = None \<and> working s' = working s"
    and "filter (\<lambda>j. j_id j = i \<and> j_status j = Pending) (jobs (working s)) = [j] \<Longrightarrow> r = Some (cancelled (now s) j)"
    and "jobs (working s') = upd_where (\<lambda>j. j_id j = i \<and> j_status j = Pending) (cancelled (now s)) (jobs (working s))"
    and "attempts (working s') = attempts (working s)" and "queues (working s') = queues (working s)"
proof -
  let ?p = "\<lambda>j. j_id j = i \<and> j_status j = Pending"
  have c: "(\<lambda>j. j\<lparr>j_status := Cancelled, j_completed_at := Some t, j_updated_at := t\<rparr>) = cancelled t" for t
    by (rule ext) (simp add: cancelled_def)
  from assms have w: "working s' = (working s)\<lparr>jobs := upd_where ?p (cancelled (now s)) (jobs (working s))\<rparr>"
    and rows: "map (cancelled (now s)) (filter ?p (jobs (working s))) = (case r of None \<Rightarrow> [] | Some x \<Rightarrow> [x])"
    by (auto simp: cancel_pending_job_def bind_tx_Inr_iff execute_Inr_iff CANCEL_PENDING_JOB_SQL_def
        Let_def one_or_none_Inr c option.map_ident split: option.splits)
  from w show "jobs (working s') = upd_where ?p (cancelled (now s)) (jobs (working s))"
    "attempts (working s') = attempts (working s)" "queues (working s') = queues (working s)"
    by simp_all
  show "r = None \<and> working s' = working s" if "filter ?p (jobs (working s)) = []"
  proof -
    from that have "upd_where ?p (cancelled (now s)) (jobs (working s)) = jobs (working s)"
      by (intro upd_where_none) (auto simp: filter_empty_conv)
    with w rows that show ?thesis by (simp split: option.splits)
  qed
  show "r = Some (cancelled (now s) j)" if "filter ?p (jobs (working s)) = [j]"
    using rows that by (simp split: option.splits)
qed

lemma purge_jobs_Inr:
  assumes "purge_jobs sd dd n s = (Inr r, s')"
  defines "P \<equiv> purge_picked sd dd n (now s) (working s)"
  shows "working s' = delete_jobs (j_id ` set P) (working s)"
    and "pr_succeeded r = count_list (map j_status P) Succeeded"
    and "pr_dead_letter r = count_list (map j_status P) Dead_letter"
    and "pr_cancelled r = count_list (map j_status P) Cancelled"
  using assms by (auto simp: purge_jobs_def bind_tx_Inr_iff execute_Inr_iff PURGE_JOBS_SQL_def Let_def)

lemma purge_total_picked:
  assumes "purge_jobs sd dd n s = (Inr r, s')"
  shows "purge_total r = length (purge_picked sd dd n (now s) (working s))"
proof -
  have final: "count_list xs Succeeded + count_list xs Dead_letter + count_list xs Cancelled = length xs"
    if "\<forall>x \<in> set xs. x \<in> {Succeeded, Dead_letter, Cancelled}" for xs
    using that by (induction xs) auto
  show ?thesis
    unfolding purge_total_def purge_jobs_Inr [OF assms]
    by (subst final) (auto simp: purgeable_def dest!: purge_picked_purgeable)
qed

end
