(* ===== verification/Claim.thy ===== *)
theory Claim imports Job_Repository begin

text \<open>
  What \<open>claim_jobs\<close> guarantees: queue concurrency limits, batch size, claim order, and that no
  eligible job is left while there is room for it.
\<close>

section \<open>The picked rows\<close>

lemma length_picked_jobs: "length (picked_jobs locked names n t d) \<le> n"
  by (simp add: picked_jobs_def)

lemma distinct_locked_queues: "wf_db d \<Longrightarrow> distinct (map q_name (locked_queues names d))"
  unfolding locked_queues_def
  by (simp add: distinct_map_sort_key distinct_map_filter wf_db_distinct_queues)

lemma distinct_queue_candidates:
  "wf_db d \<Longrightarrow> distinct (map j_id (queue_candidates locked t d q))"
  unfolding queue_candidates_def take_map [symmetric]
  by (intro distinct_take distinct_map_filter) (simp add: distinct_map_sort_key distinct_map_filter wf_db_distinct_ids)

lemma queue_candidates_queue:
  "j \<in> set (queue_candidates locked t d q) \<Longrightarrow> j_queue_name j = q_name q"
  by (auto simp: claimable_def dest: queue_candidates_claimable)

lemma length_queue_candidates: "length (queue_candidates locked t d q) \<le> slots d q"
  by (simp add: queue_candidates_def)

abbreviation all_candidates :: "(uuid \<Rightarrow> bool) \<Rightarrow> string list \<Rightarrow> time \<Rightarrow> db \<Rightarrow> job_row list" where
  "all_candidates locked names t d \<equiv>
     concat (map (queue_candidates locked t d) (locked_queues names d))"

lemma distinct_all_candidates:
  assumes "wf_db d"
  shows "distinct (map j_id (all_candidates locked names t d))"
proof (rule distinct_map_concat)
  show "distinct (locked_queues names d)"
    using distinct_locked_queues [OF assms] by (simp add: distinct_map)
next
  fix q r x y
  assume q: "q \<in> set (locked_queues names d)" and r: "r \<in> set (locked_queues names d)"
    and x: "x \<in> set (queue_candidates locked t d q)" and y: "y \<in> set (queue_candidates locked t d r)"
    and "j_id x = j_id y"
  then have "x = y"
    using key_inj [OF wf_db_distinct_ids [OF assms]] by (blast dest: queue_candidates_claimable)
  with x y have "q_name q = q_name r"
    by (metis queue_candidates_queue)
  with q r distinct_locked_queues [OF assms] show "q = r"
    by (blast dest: key_inj)
qed (rule distinct_queue_candidates [OF assms])

lemma distinct_picked_jobs: "wf_db d \<Longrightarrow> distinct (map j_id (picked_jobs locked names n t d))"
  unfolding picked_jobs_def take_map [symmetric]
  by (intro distinct_take) (simp add: distinct_map_sort_key distinct_all_candidates)

text \<open>The candidates of a queue among those of all queues.\<close>

lemma count_all_candidates:
  assumes "wf_db d" and "q \<in> set (locked_queues names d)"
  shows "count_where (\<lambda>j. j_queue_name j = q_name q) (all_candidates locked names t d) =
    length (queue_candidates locked t d q)"
proof -
  let ?g = "\<lambda>r. count_where (\<lambda>j. j_queue_name j = q_name q) (queue_candidates locked t d r)"
  have "?g r = 0" if "r \<in> set (locked_queues names d)" "r \<noteq> q" for r
    using that key_inj [OF distinct_locked_queues [OF assms(1)] that(1) assms(2)]
    by (auto simp: count_where_zero dest!: queue_candidates_queue)
  then have "(\<Sum>r\<leftarrow>locked_queues names d. ?g r) = ?g q"
    using assms distinct_locked_queues [OF assms(1)]
    by (intro sum_list_single) (auto simp: distinct_map)
  moreover have "?g q = length (queue_candidates locked t d q)"
    unfolding count_where_def
    by (rule arg_cong [where f = length], rule filter_True) (simp add: queue_candidates_queue)
  ultimately show ?thesis
    by (simp add: count_where_concat comp_def)
qed

lemma count_picked_le_slots:
  assumes "wf_db d" and "q \<in> set (queues d)"
  shows "count_where (\<lambda>j. j_queue_name j = q_name q) (picked_jobs locked names n t d) \<le> slots d q"
proof (cases "q \<in> set (locked_queues names d)")
  case True
  have "count_where (\<lambda>j. j_queue_name j = q_name q) (picked_jobs locked names n t d) \<le>
      count_where (\<lambda>j. j_queue_name j = q_name q) (all_candidates locked names t d)"
    unfolding picked_jobs_def by (rule order_trans [OF count_where_take_le]) simp
  also have "\<dots> = length (queue_candidates locked t d q)"
    by (rule count_all_candidates [OF assms(1) True])
  also have "\<dots> \<le> slots d q"
    by (rule length_queue_candidates)
  finally show ?thesis .
next
  case False
  have "j_queue_name j \<noteq> q_name q" if "j \<in> set (picked_jobs locked names n t d)" for j
  proof
    assume "j_queue_name j = q_name q"
    with picked_jobs_candidate [OF that] obtain r where "r \<in> set (locked_queues names d)" "q_name r = q_name q"
      by (metis queue_candidates_queue)
    with False assms key_inj [OF wf_db_distinct_queues [OF assms(1)]] show False
      by (metis locked_queues_set)
  qed
  then have "count_where (\<lambda>j. j_queue_name j = q_name q) (picked_jobs locked names n t d) = 0"
    by (simp add: count_where_zero)
  then show ?thesis by simp
qed

lemma count_picked_in_jobs:
  assumes "wf_db d"
  shows "count_where (\<lambda>j. j \<in> set (picked_jobs locked names n t d) \<and> p j) (jobs d) =
    count_where p (picked_jobs locked names n t d)"
proof -
  have "distinct (map id (jobs d))" "distinct (map id (picked_jobs locked names n t d))"
    using wf_db_distinct_ids [OF assms] distinct_picked_jobs [OF assms] by (simp_all add: distinct_map)
  then have "count_where (\<lambda>x. id x \<in> id ` set (picked_jobs locked names n t d) \<and> p x) (jobs d) =
      count_where p (picked_jobs locked names n t d)"
    by (rule count_key_subset) (auto dest: picked_jobs_claimable)
  then show ?thesis by simp
qed

text \<open>The leases of a queue after the claim: those before it and the picked rows.\<close>

lemma leased_count_after_claim:
  assumes "wf_db d"
  shows "leased_count q (upd_where (\<lambda>j. j \<in> set (picked_jobs locked names n t d)) (lease_job t' w ls) (jobs d)) =
    count_where (\<lambda>j. j_queue_name j = q) (picked_jobs locked names n t d) + leased_count q (jobs d)"
proof -
  let ?P = "picked_jobs locked names n t d"
  have not_leased: "j_status j \<noteq> Leased" if "j \<in> set ?P" for j
    using picked_jobs_claimable [OF that] by (auto simp: claimable_def)
  have split: "count_where (\<lambda>j. if p j then a j else b j) xs =
      count_where (\<lambda>j. p j \<and> a j) xs + count_where (\<lambda>j. \<not> p j \<and> b j) xs" for p a b and xs :: "job_row list"
    by (induction xs) auto
  have "leased_count q (upd_where (\<lambda>j. j \<in> set ?P) (lease_job t' w ls) (jobs d)) =
      count_where (\<lambda>j. if j \<in> set ?P then j_queue_name j = q
        else j_status j = Leased \<and> j_queue_name j = q) (jobs d)"
    unfolding leased_count_def count_where_upd_where by (rule count_where_cong) simp
  also have "\<dots> = count_where (\<lambda>j. j \<in> set ?P \<and> j_queue_name j = q) (jobs d) +
      count_where (\<lambda>j. j \<notin> set ?P \<and> j_status j = Leased \<and> j_queue_name j = q) (jobs d)"
    by (rule split)
  also have "count_where (\<lambda>j. j \<notin> set ?P \<and> j_status j = Leased \<and> j_queue_name j = q) (jobs d) =
      leased_count q (jobs d)"
    unfolding leased_count_def by (rule count_where_cong) (use not_leased in blast)
  finally show ?thesis
    by (simp add: count_picked_in_jobs [OF assms])
qed

lemma slots_bound: "int (slots d q) = max (q_concurrency_limit q - int (leased_count (q_name q) (jobs d))) 0"
  by (simp add: slots_def)

section \<open>Claim order and completeness\<close>

lemma queue_candidates_sorted:
  "queue_candidates locked t d q =
     take (slots d q) (sort_key claim_key
       (filter (\<lambda>j. \<not> locked (j_id j) \<and> claimable t (q_name q) j) (jobs d)))"
  by (simp add: queue_candidates_def filter_sort conj_commute)

lemma picked_in_own_queue:
  assumes "wf_db d" and "j \<in> set (picked_jobs locked names n t d)"
    and "q \<in> set (queues d)" and "q_name q = j_queue_name j"
  shows "q \<in> set (locked_queues names d)" and "j \<in> set (queue_candidates locked t d q)"
proof -
  from picked_jobs_candidate [OF assms(2)] obtain r where
    r: "r \<in> set (locked_queues names d)" "j \<in> set (queue_candidates locked t d r)" by blast
  then have "q_name r = q_name q" by (simp add: assms(4) queue_candidates_queue)
  with r assms(3) have "r = q"
    using key_inj [OF wf_db_distinct_queues [OF assms(1)]] by (auto simp: locked_queues_set)
  with r show "q \<in> set (locked_queues names d)" "j \<in> set (queue_candidates locked t d q)"
    by simp_all
qed

lemma picked_before_unpicked:
  assumes "wf_db d" and j: "j \<in> set (picked_jobs locked names n t d)"
    and k: "k \<in> set (jobs d)" "claimable t (j_queue_name j) k" "\<not> locked (j_id k)"
    and notk: "k \<notin> set (picked_jobs locked names n t d)"
  shows "claim_key j \<le> claim_key k"
proof -
  from j have "j_queue_name j \<in> q_name ` set (queues d)"
    using assms(1) by (auto simp: wf_db_def schema_ok_def dest!: picked_jobs_claimable)
  then obtain q where q: "q \<in> set (queues d)" "q_name q = j_queue_name j" by auto
  note own = picked_in_own_queue [OF assms(1) j q]
  show ?thesis
  proof (cases "k \<in> set (queue_candidates locked t d q)")
    case True
    with own(1) have "k \<in> set (all_candidates locked names t d)" by auto
    with j notk show ?thesis
      unfolding picked_jobs_def by (blast intro: take_sort_key_least)
  next
    case False
    with own(2) k q(2) show ?thesis
      unfolding queue_candidates_sorted by (intro take_sort_key_least) auto
  qed
qed

lemma unpicked_no_room:
  assumes "wf_db d" and q: "q \<in> set (locked_queues names d)"
    and k: "k \<in> set (jobs d)" "claimable t (q_name q) k" "\<not> locked (j_id k)"
    and notk: "k \<notin> set (picked_jobs locked names n t d)"
  shows "length (picked_jobs locked names n t d) = n \<or>
    count_where (\<lambda>j. j_queue_name j = q_name q) (picked_jobs locked names n t d) = slots d q"
proof (cases "length (all_candidates locked names t d) \<le> n")
  case False
  then show ?thesis by (simp add: picked_jobs_def)
next
  case True
  then have all: "picked_jobs locked names n t d = sort_key claim_key (all_candidates locked names t d)"
    by (simp add: picked_jobs_def)
  with notk q have "k \<notin> set (queue_candidates locked t d q)" by auto
  with k have "length (queue_candidates locked t d q) = slots d q"
    unfolding queue_candidates_sorted by (auto simp: min_def)
  with all show ?thesis
    by (simp add: count_all_candidates [OF assms(1) q])
qed

section \<open>The operation\<close>

lemma claim_jobs_Inr:
  assumes "wf_db (working s)" and "claim_jobs w names n ls s = (Inr rows, s')"
  shows "jobs (working s') = upd_where (\<lambda>j. j \<in> set (picked_jobs (locked_rows s) names n (now s) (working s)))
           (lease_job (now s) w ls) (jobs (working s))"
    and "rows = map (lease_job (now s) w ls)
           (filter (\<lambda>j. j \<in> set (picked_jobs (locked_rows s) names n (now s) (working s))) (jobs (working s)))"
    and "queues (working s') = queues (working s)" and "attempts (working s') = attempts (working s)"
proof -
  from assms(2) obtain i d' where st: "claim_jobs_statement (locked_rows s) w names n ls (now s) i (working s) =
      Inr (rows, d')" and w: "working s' = d'"
    by (auto simp: claim_jobs_def bind_tx_Inr_iff execute_Inr_iff execute_skip_locked_Inr_iff
        lock_claim_queues_statement_def query_def)
  from claim_jobs_statement_Inr [OF assms(1) st] w
  show "jobs (working s') = upd_where (\<lambda>j. j \<in> set (picked_jobs (locked_rows s) names n (now s) (working s)))
           (lease_job (now s) w ls) (jobs (working s))"
    "rows = map (lease_job (now s) w ls)
           (filter (\<lambda>j. j \<in> set (picked_jobs (locked_rows s) names n (now s) (working s))) (jobs (working s)))"
    "queues (working s') = queues (working s)" "attempts (working s') = attempts (working s)"
    by simp_all
qed

lemma length_claimed:
  assumes "wf_db d"
  shows "length (filter (\<lambda>j. j \<in> set (picked_jobs locked names n t d)) (jobs d)) =
    length (picked_jobs locked names n t d)"
  using count_picked_in_jobs [OF assms, where p = "\<lambda>_. True"] by (simp add: count_where_def)

lemma claim_transact:
  assumes "wf_db d" and "transact e (claim_jobs w names n ls) d = (Inr rows, d')"
  shows "jobs d' = upd_where (\<lambda>j. j \<in> set (picked_jobs (e_locked e) names n (e_now e) d))
           (lease_job (e_now e) w ls) (jobs d)"
    and "rows = map (lease_job (e_now e) w ls)
           (filter (\<lambda>j. j \<in> set (picked_jobs (e_locked e) names n (e_now e) d)) (jobs d))"
    and "length rows = length (picked_jobs (e_locked e) names n (e_now e) d)"
proof -
  from assms(2) obtain s where c: "claim_jobs w names n ls (open_session e d) = (Inr rows, s)" and d': "d' = working s"
    by (rule transact_InrD)
  have wf: "wf_db (working (open_session e d))" using assms(1) by simp
  from claim_jobs_Inr(1,2) [OF wf c] d'
  show "jobs d' = upd_where (\<lambda>j. j \<in> set (picked_jobs (e_locked e) names n (e_now e) d))
           (lease_job (e_now e) w ls) (jobs d)"
    and r: "rows = map (lease_job (e_now e) w ls)
           (filter (\<lambda>j. j \<in> set (picked_jobs (e_locked e) names n (e_now e) d)) (jobs d))"
    by simp_all
  show "length rows = length (picked_jobs (e_locked e) names n (e_now e) d)"
    by (simp add: r length_claimed [OF assms(1)])
qed

text \<open>A row is claimed exactly when it was picked.\<close>

lemma claimed_iff_picked:
  assumes "wf_db d" and "transact e (claim_jobs w names n ls) d = (Inr rows, d')" and "k \<in> set (jobs d)"
  shows "j_id k \<in> j_id ` set rows \<longleftrightarrow> k \<in> set (picked_jobs (e_locked e) names n (e_now e) d)"
  using claim_transact(2) [OF assms(1,2)] assms(3) key_inj [OF wf_db_distinct_ids [OF assms(1)] assms(3)]
  by (auto simp: image_iff)

end
