(* ===== verification/Protocols.thy ===== *)
theory Protocols imports Job_State Claim begin

text \<open>
  The contract of \<open>JobRepositoryProtocol\<close> (\<open>repositories/protocols.py\<close>): the operations the services
  and the worker are given, the laws they rely on, what follows from the laws alone, and the proof
  that the PostgreSQL repository meets them.
\<close>

section \<open>The operations\<close>

record job_repository =
  jr_insert_job :: "job_params \<Rightarrow> (job_row \<times> bool) tx"
  jr_get_job :: "uuid \<Rightarrow> job_row option tx"
  jr_list_jobs :: "job_filter \<Rightarrow> nat \<Rightarrow> nat \<Rightarrow> bool \<Rightarrow> job_list_result tx"
  jr_claim_jobs :: "string \<Rightarrow> string list \<Rightarrow> nat \<Rightarrow> int \<Rightarrow> job_row list tx"
  jr_extend_lease :: "uuid \<Rightarrow> string \<Rightarrow> int \<Rightarrow> bool tx"
  jr_return_leased_job_to_pending :: "uuid \<Rightarrow> string \<Rightarrow> bool tx"
  jr_complete_job :: "job_row \<Rightarrow> string \<Rightarrow> int \<Rightarrow> int option \<Rightarrow> string option \<Rightarrow> bool tx"
  jr_fail_job :: "job_row \<Rightarrow> string \<Rightarrow> bool \<Rightarrow> bool \<Rightarrow> int \<Rightarrow> int \<Rightarrow> string option \<Rightarrow> string option \<Rightarrow>
    int option \<Rightarrow> string option \<Rightarrow> bool tx"
  jr_recover_expired_leases :: "nat \<Rightarrow> nat tx"
  jr_replay_job :: "job_row \<Rightarrow> string \<Rightarrow> (job_row \<times> bool) tx"
  jr_cancel_pending_job :: "uuid \<Rightarrow> job_row option tx"
  jr_purge_jobs :: "int \<Rightarrow> int \<Rightarrow> nat \<Rightarrow> purge_result tx"

definition JobRepository :: job_repository where
  "JobRepository =
     \<lparr>jr_insert_job = insert_job, jr_get_job = get_job, jr_list_jobs = list_jobs,
      jr_claim_jobs = claim_jobs, jr_extend_lease = extend_lease,
      jr_return_leased_job_to_pending = return_leased_job_to_pending,
      jr_complete_job = complete_job, jr_fail_job = fail_job,
      jr_recover_expired_leases = recover_expired_leases, jr_replay_job = replay_job,
      jr_cancel_pending_job = cancel_pending_job, jr_purge_jobs = purge_jobs\<rparr>"

section \<open>The contract the services rely on\<close>

locale job_store =
  fixes R :: job_repository
  assumes insert_wf: "keeps wf_db (jr_insert_job R p)"
    and get_wf: "keeps wf_db (jr_get_job R i)"
    and cancel_wf: "keeps wf_db (jr_cancel_pending_job R i)"
    and purge_wf: "keeps wf_db (jr_purge_jobs R sd dd n)"
    and insert_uncommitted: "uncommitted (jr_insert_job R p)"
    and get_uncommitted: "uncommitted (jr_get_job R i)"
    and cancel_uncommitted: "uncommitted (jr_cancel_pending_job R i)"
    and insert_created: "jr_insert_job R p s = (Inr (j, True), s') \<Longrightarrow> wf_db (working s) \<Longrightarrow>
      jobs (working s') = jobs (working s) @ [j] \<and> (\<exists>i. j = new_job (now s) i p) \<and>
      j_id j \<notin> j_id ` set (jobs (working s))"
    and insert_existing: "jr_insert_job R p s = (Inr (j, False), s') \<Longrightarrow> wf_db (working s) \<Longrightarrow>
      wf_db (committed s) \<Longrightarrow>
      jobs (working s') = jobs (working s) \<and> j \<in> set (jobs (working s)) \<and>
      j_queue_name j = p_queue_name p \<and> j_idempotency_key j = p_idempotency_key p \<and>
      p_idempotency_key p \<noteq> None"
    and get_row: "jr_get_job R i s = (Inr found, s') \<Longrightarrow>
      found = job_by_id i (working s) \<and> working s' = working s \<and> now s' = now s"
    and replay_inserts: "jr_replay_job R j k = jr_insert_job R (replay_params j k)"
    and cancel_row: "jr_cancel_pending_job R i s = (Inr (Some j), s') \<Longrightarrow>
      j_id j = i \<and> j_status j = Cancelled \<and> j_completed_at j = Some (now s) \<and> j \<in> set (jobs (working s'))"
    and purge_size: "jr_purge_jobs R sd dd n s = (Inr res, s') \<Longrightarrow> wf_db (working s) \<Longrightarrow>
      purge_total res \<le> n \<and> length (jobs (working s')) + purge_total res = length (jobs (working s))"
begin

text \<open>Inserting twice under one key adds one row, and both calls name it.\<close>

lemma insert_twice:
  assumes "jr_insert_job R p s = (Inr (j, b), s1)" and "jr_insert_job R q t = (Inr (k, c), s2)"
    and "wf_db (working s)" and "wf_db (committed s)"
    and "p_idempotency_key p = Some x" and "p_idempotency_key q = Some x"
    and "p_queue_name p = p_queue_name q" and "working t = working s1" and "wf_db (committed t)"
  shows "k = j \<and> \<not> c \<and> jobs (working s2) = jobs (working s1)"
proof -
  have wf1: "wf_db (working s1)" and c1: "committed s1 = committed s"
    using keepsD_working [OF insert_wf assms(4,3,1)] keepsD_committed [OF insert_wf assms(4,3,1)] by blast+
  have j: "j \<in> set (jobs (working s1))" "idem_entry j = Some (p_queue_name p, x)"
  proof (atomize (full), cases b)
    case True
    with insert_created [of p s j s1] assms(1,3,5)
    show "j \<in> set (jobs (working s1)) \<and> idem_entry j = Some (p_queue_name p, x)"
      by (auto simp: idem_entry_new_job)
  next
    case False
    with insert_existing [of p s j s1] assms(1,3,4,5)
    show "j \<in> set (jobs (working s1)) \<and> idem_entry j = Some (p_queue_name p, x)"
      by (auto simp: idem_entry_Some)
  qed
  have wf2: "wf_db (working s2)"
    using keepsD_working [OF insert_wf _ _ assms(2)] wf1 c1 assms(4,8,9) by simp
  show ?thesis
  proof (cases c)
    case True
    with insert_created [of q t k s2] assms(2,6,8) wf1
    have new: "jobs (working s2) = jobs (working s1) @ [k]" and k: "idem_entry k = Some (p_queue_name q, x)"
      and fresh: "j_id k \<notin> j_id ` set (jobs (working s1))"
      by (auto simp: idem_entry_new_job)
    have "distinct (idem_entries (jobs (working s2)))"
      using wf2 by (simp add: wf_db_def schema_ok_def)
    with new j k assms(7) have "j = k"
      by (intro idem_entries_unique [of "jobs (working s2)"]) auto
    with fresh j(1) show ?thesis by simp
  next
    case False
    with insert_existing [of q t k s2] assms(2,4,6,8,9) wf1 c1
    have "jobs (working s2) = jobs (working s1)" "k \<in> set (jobs (working s1))"
      "idem_entry k = Some (p_queue_name q, x)"
      by (auto simp: idem_entry_Some)
    moreover have "distinct (idem_entries (jobs (working s1)))"
      using wf1 by (simp add: wf_db_def schema_ok_def)
    ultimately show ?thesis
      using j assms(7) False by (auto intro: idem_entries_unique)
  qed
qed

end

section \<open>The contract the worker relies on\<close>

locale lease_store = job_store R for R :: job_repository +
  assumes claim_wf: "keeps wf_db (jr_claim_jobs R w names n ls)"
    and recover_wf: "keeps wf_db (jr_recover_expired_leases R n)"
    and extend_wf: "keeps wf_db (jr_extend_lease R i w ls)"
    and return_wf: "keeps wf_db (jr_return_leased_job_to_pending R i w)"
    and complete_wf: "keeps wf_db (jr_complete_job R j w ms r prev)"
    and fail_wf: "keeps wf_db (jr_fail_job R j w rt timed delay ms et em r prev)"
    and claim_batch: "jr_claim_jobs R w names n ls s = (Inr rows, s') \<Longrightarrow> wf_db (working s) \<Longrightarrow>
      length rows \<le> n \<and> distinct (map j_id rows)"
    and claim_rows: "jr_claim_jobs R w names n ls s = (Inr rows, s') \<Longrightarrow> wf_db (working s) \<Longrightarrow>
      j \<in> set rows \<Longrightarrow> owned (j_id j) w j \<and> j \<in> set (jobs (working s')) \<and> j_queue_name j \<in> set names"
    and return_result: "jr_return_leased_job_to_pending R i w s = (Inr b, s') \<Longrightarrow>
      b = holds_lease i w (working s) \<and> (\<not> b \<longrightarrow> working s' = working s)"
    and complete_result: "jr_complete_job R j w ms r prev s = (Inr b, s') \<Longrightarrow>
      b = holds_lease (j_id j) w (working s) \<and> (\<not> b \<longrightarrow> working s' = working s)"
    and fail_result: "jr_fail_job R j w rt timed delay ms et em r prev s = (Inr b, s') \<Longrightarrow>
      b = holds_lease (j_id j) w (working s) \<and> (\<not> b \<longrightarrow> working s' = working s)"
    and extend_result: "jr_extend_lease R i w ls s = (Inr b, s') \<Longrightarrow>
      b = holds_lease i w (working s) \<and> (\<not> b \<longrightarrow> working s' = working s)"

section \<open>The repository meets the contracts\<close>

lemma JobRepository_simps [simp]:
  "jr_insert_job JobRepository = insert_job" "jr_get_job JobRepository = get_job"
  "jr_list_jobs JobRepository = list_jobs" "jr_claim_jobs JobRepository = claim_jobs"
  "jr_extend_lease JobRepository = extend_lease"
  "jr_return_leased_job_to_pending JobRepository = return_leased_job_to_pending"
  "jr_complete_job JobRepository = complete_job" "jr_fail_job JobRepository = fail_job"
  "jr_recover_expired_leases JobRepository = recover_expired_leases"
  "jr_replay_job JobRepository = replay_job"
  "jr_cancel_pending_job JobRepository = cancel_pending_job"
  "jr_purge_jobs JobRepository = purge_jobs"
  by (simp_all add: JobRepository_def)

lemma get_job_Inr:
  "get_job i s = (Inr r, s') \<Longrightarrow> r = job_by_id i (working s) \<and> working s' = working s \<and> now s' = now s"
  by (auto simp: get_job_def bind_tx_Inr_iff execute_Inr_iff query_def)

lemma cancel_pending_job_row:
  assumes "cancel_pending_job i s = (Inr (Some j), s')"
  shows "j_id j = i \<and> j_status j = Cancelled \<and> j_completed_at j = Some (now s) \<and> j \<in> set (jobs (working s'))"
proof -
  let ?p = "\<lambda>j. j_id j = i \<and> j_status j = Pending"
  obtain k where k: "filter ?p (jobs (working s)) = [k]"
    using assms by (auto simp: cancel_pending_job_def bind_tx_Inr_iff execute_Inr_iff
        CANCEL_PENDING_JOB_SQL_def Let_def one_or_none_Inr split: option.splits)
  then have "k \<in> set (filter ?p (jobs (working s)))" by simp
  then have "k \<in> set (jobs (working s))" "?p k" by simp_all
  moreover from cancel_pending_job_Inr(2) [OF assms k] have "j = cancelled (now s) k" by simp
  ultimately show ?thesis
    by (auto simp: cancel_pending_job_Inr(3) [OF assms] set_upd_where cancelled_def)
qed

lemma purge_jobs_size:
  assumes "purge_jobs sd dd n s = (Inr r, s')" and "wf_db (working s)"
  shows "purge_total r \<le> n \<and> length (jobs (working s')) + purge_total r = length (jobs (working s))"
proof -
  define P where "P = purge_picked sd dd n (now s) (working s)"
  have "distinct (map j_id P)"
    unfolding P_def purge_picked_def take_map [symmetric]
    by (intro distinct_take)
      (simp add: distinct_map_sort_key distinct_map_filter wf_db_distinct_ids [OF assms(2)])
  then have "count_where (\<lambda>j. j_id j \<in> j_id ` set P \<and> True) (jobs (working s)) = count_where (\<lambda>_. True) P"
    by (intro count_key_subset wf_db_distinct_ids [OF assms(2)])
      (auto simp: P_def dest: purge_picked_purgeable)
  then have "length (filter (\<lambda>j. j_id j \<in> j_id ` set P) (jobs (working s))) = length P"
    by (simp add: count_where_def)
  moreover have "length (jobs (working s')) = length (filter (\<lambda>j. j_id j \<notin> j_id ` set P) (jobs (working s)))"
    using purge_jobs_Inr(1) [OF assms(1)] by (simp add: P_def)
  moreover have "purge_total r = length P" "length P \<le> n"
    using purge_total_picked [OF assms(1)] by (simp_all add: P_def purge_picked_def)
  ultimately show ?thesis
    using sum_length_filter_compl [of "\<lambda>j. j_id j \<in> j_id ` set P" "jobs (working s)"] by simp
qed

interpretation pg_jobs: job_store JobRepository
proof (unfold_locales, goal_cases)
  case (8 p s j s')
  then show ?case by (auto dest: insert_job_created)
next
  case (9 p s j s')
  then show ?case by (auto dest: insert_job_existing)
next
  case (10 i s r s')
  then show ?case by (simp add: get_job_Inr)
next
  case (12 i s j s')
  then show ?case by (simp add: cancel_pending_job_row)
next
  case (13 sd dd n s r s')
  then show ?case by (simp add: purge_jobs_size)
qed (simp_all add: wf_intros uncommitted_job_ops uncommitted_state_ops replay_job_def)

lemma claim_jobs_rows:
  assumes "claim_jobs w names n ls s = (Inr rows, s')" and "wf_db (working s)"
  shows "length rows \<le> n \<and> distinct (map j_id rows)"
    and "j \<in> set rows \<Longrightarrow> owned (j_id j) w j \<and> j \<in> set (jobs (working s')) \<and> j_queue_name j \<in> set names"
proof -
  define P where "P = picked_jobs (locked_rows s) names n (now s) (working s)"
  note cl = claim_jobs_Inr [OF assms(2,1), folded P_def]
  have "map j_id rows = map j_id (filter (\<lambda>j. j \<in> set P) (jobs (working s)))"
    unfolding cl(2) by simp
  then have "distinct (map j_id rows)"
    using wf_db_distinct_ids [OF assms(2)] by (simp add: distinct_map_filter)
  moreover have "length rows = length P"
    using length_claimed [OF assms(2)] by (simp add: cl(2) P_def)
  ultimately show "length rows \<le> n \<and> distinct (map j_id rows)"
    by (simp add: P_def length_picked_jobs)
  show "owned (j_id j) w j \<and> j \<in> set (jobs (working s')) \<and> j_queue_name j \<in> set names" if "j \<in> set rows"
    using that unfolding cl(1,2)
    by (auto simp: owned_def set_upd_where P_def dest: picked_jobs_claimable)
qed

interpretation pg_leases: lease_store JobRepository
proof (unfold_locales, goal_cases)
  case (7 w names n ls s rows s')
  then show ?case by (simp add: claim_jobs_rows(1))
next
  case (8 w names n ls s rows s' j)
  then show ?case using claim_jobs_rows(2) [of w names n ls s rows s' j] by simp
next
  case (9 i w s b s')
  then show ?case using return_leased_Inr [of i w s b s'] by simp
next
  case (10 j w ms r prev s b s')
  then show ?case using complete_job_Inr [of j w ms r prev s b s'] by simp
next
  case (11 j w rt timed delay ms et em r prev s b s')
  then show ?case using fail_job_Inr(1,4) [of j w rt timed delay ms et em r prev s b s'] by simp
next
  case (12 i w ls s b s')
  then show ?case using extend_lease_Inr [of i w ls s b s'] by simp
qed (simp_all add: wf_intros)

end
