(* ===== verification/Py_Text.thy ===== *)
theory Py_Text imports Prelude begin

text \<open>
  The string operations of Python the code uses. A \<open>str\<close> is a list of code points; \<open>char\<close> holds the
  code points up to 255, so the model covers the strings of Latin-1 (the operations below agree with
  Python's on all of them).
\<close>

section \<open>Case, whitespace, splitting\<close>

abbreviation code :: "char \<Rightarrow> nat" where
  "code \<equiv> of_char"

definition lower_char :: "char \<Rightarrow> char" where
  "lower_char c =
     (if (65 \<le> code c \<and> code c \<le> 90) \<or> (192 \<le> code c \<and> code c \<le> 222 \<and> code c \<noteq> 215)
      then char_of (code c + 32) else c)"

definition lower :: "string \<Rightarrow> string" where
  "lower s = map lower_char s"

definition is_space :: "char \<Rightarrow> bool" where
  "is_space c \<longleftrightarrow>
     (9 \<le> code c \<and> code c \<le> 13) \<or> (28 \<le> code c \<and> code c \<le> 32) \<or> code c = 133 \<or> code c = 160"

definition strip :: "string \<Rightarrow> string" where
  "strip s = rev (dropWhile is_space (rev (dropWhile is_space s)))"

fun split_on :: "char \<Rightarrow> string \<Rightarrow> string list" where
  "split_on c [] = [[]]"
| "split_on c (x # xs) =
     (if x = c then [] # split_on c xs
      else case split_on c xs of [] \<Rightarrow> [[x]] | y # ys \<Rightarrow> (x # y) # ys)"

fun join :: "string \<Rightarrow> string list \<Rightarrow> string" where
  "join sep [] = []"
| "join sep [x] = x"
| "join sep (x # y # ys) = x @ sep @ join sep (y # ys)"

text \<open>
  The loop the settings share: \<open>for part in value.split(","): item = part.strip(); if item: ...\<close>
\<close>

fun collect_stripped :: "string list \<Rightarrow> string list" where
  "collect_stripped [] = []"
| "collect_stripped (part # parts) =
     (let item = strip part
      in if item \<noteq> [] then item # collect_stripped parts else collect_stripped parts)"

definition comma_items :: "string \<Rightarrow> string list" where
  "comma_items s = collect_stripped (split_on CHR '','' s)"

section \<open>Decimal text\<close>

fun nat_str :: "nat \<Rightarrow> string" where
  "nat_str n = (if n < 10 then [hex_digit n] else nat_str (n div 10) @ [hex_digit (n mod 10)])"

declare nat_str.simps [simp del]

definition int_str :: "int \<Rightarrow> string" where
  "int_str i = (if i < 0 then ''-'' @ nat_str (nat (- i)) else nat_str (nat i))"

section \<open>Encoding\<close>

text \<open>UTF-8 takes one byte below 128 and two for the rest of Latin-1.\<close>

definition utf8_len :: "string \<Rightarrow> nat" where
  "utf8_len s = sum_list (map (\<lambda>c. if code c < 128 then 1 else 2) s)"

section \<open>Facts\<close>

lemma split_on_not_Nil [simp]: "split_on c s \<noteq> []"
  by (cases s) (simp_all split: list.split)

lemma split_on_no_sep: "w \<in> set (split_on c s) \<Longrightarrow> c \<notin> set w"
  by (induction s arbitrary: w) (auto split: list.splits if_splits)

lemma split_on_atom: "c \<notin> set w \<Longrightarrow> split_on c w = [w]"
  by (induction w) auto

lemma split_on_append: "c \<notin> set w \<Longrightarrow> split_on c (w @ c # s) = w # split_on c s"
  by (induction w) auto

lemma split_on_join:
  "ws \<noteq> [] \<Longrightarrow> \<forall>w \<in> set ws. c \<notin> set w \<Longrightarrow> split_on c (join [c] ws) = ws"
  by (induction "[c]" ws rule: join.induct) (simp_all add: split_on_atom split_on_append)

lemma join_extend_head: "join sep ((x # w) # ws) = x # join sep (w # ws)"
  by (cases ws) simp_all

lemma join_new_head: "ws \<noteq> [] \<Longrightarrow> join sep (w # ws) = w @ sep @ join sep ws"
  by (cases ws) simp_all

lemma join_split_on: "join [c] (split_on c s) = s"
proof (induction s)
  case (Cons x xs)
  then show ?case
    by (cases "split_on c xs") (auto simp: join_extend_head join_new_head split: list.splits)
qed simp

text \<open>Text without surrounding whitespace.\<close>

definition trimmed :: "string \<Rightarrow> bool" where
  "trimmed w \<longleftrightarrow> w \<noteq> [] \<and> \<not> is_space (hd w) \<and> \<not> is_space (last w)"

lemma dropWhile_id: "w = [] \<or> \<not> p (hd w) \<Longrightarrow> dropWhile p w = w"
  by (cases w) auto

lemma strip_trimmed: "trimmed w \<Longrightarrow> strip w = w"
  by (auto simp: strip_def trimmed_def dropWhile_id hd_rev)

lemma strip_result: "strip w = [] \<or> trimmed (strip w)"
proof -
  let ?v = "dropWhile is_space w"
  have tail: "hd (rev (dropWhile is_space (rev v))) = hd v"
    if "dropWhile is_space (rev v) \<noteq> []" "v \<noteq> []" for v
  proof -
    obtain zs where z: "rev v = zs @ dropWhile is_space (rev v)"
      by (metis takeWhile_dropWhile_id)
    then have "v = rev (dropWhile is_space (rev v)) @ rev zs"
      by (metis rev_append rev_rev_ident)
    with that(1) show ?thesis by (metis hd_append2 rev_is_Nil_conv)
  qed
  show ?thesis
  proof (cases "strip w = []")
    case False
    then have r: "dropWhile is_space (rev ?v) \<noteq> []"
      unfolding strip_def by blast
    then have v: "?v \<noteq> []"
      by (metis dropWhile.simps(1) rev.simps(1))
    have "hd (strip w) = hd ?v" "last (strip w) = hd (dropWhile is_space (rev ?v))"
      unfolding strip_def by (rule tail [OF r v], rule last_rev)
    moreover have "\<not> is_space (hd ?v)" "\<not> is_space (hd (dropWhile is_space (rev ?v)))"
      by (rule hd_dropWhile [OF v], rule hd_dropWhile [OF r])
    ultimately show ?thesis
      using False by (simp add: trimmed_def)
  qed simp
qed

lemma set_dropWhile_subset: "set (dropWhile p xs) \<subseteq> set xs"
  by (auto dest: set_dropWhileD)

lemma set_strip: "set (strip w) \<subseteq> set w"
proof -
  have "set (strip w) \<subseteq> set (rev (dropWhile is_space w))"
    unfolding strip_def set_rev [of "dropWhile _ (rev _)"] by (rule set_dropWhile_subset)
  also have "\<dots> \<subseteq> set w"
    unfolding set_rev by (rule set_dropWhile_subset)
  finally show ?thesis .
qed

lemma collect_stripped_mem: "w \<in> set (collect_stripped ps) \<longleftrightarrow> w \<noteq> [] \<and> w \<in> strip ` set ps"
  by (induction ps) (auto simp: Let_def)

lemma collect_stripped_trimmed: "\<forall>w \<in> set ps. trimmed w \<Longrightarrow> collect_stripped ps = ps"
  by (induction ps) (auto simp: Let_def strip_trimmed trimmed_def)

lemma comma_items_clean:
  assumes "w \<in> set (comma_items s)"
  shows "trimmed w" and "CHR '','' \<notin> set w"
proof -
  from assms obtain p where p: "p \<in> set (split_on CHR '','' s)" "w = strip p" "w \<noteq> []"
    by (auto simp: comma_items_def collect_stripped_mem)
  with strip_result [of p] show "trimmed w" by simp
  from p set_strip [of p] split_on_no_sep [OF p(1)] show "CHR '','' \<notin> set w" by auto
qed

lemma comma_items_join:
  assumes "\<forall>w \<in> set ws. trimmed w \<and> CHR '','' \<notin> set w"
  shows "comma_items (join '','' ws) = ws"
proof (cases "ws = []")
  case True
  then show ?thesis by (simp add: comma_items_def strip_def)
next
  case False
  with assms show ?thesis
    by (simp add: comma_items_def split_on_join collect_stripped_trimmed)
qed

end
