(* ===== verification/Settings.thy ===== *)
theory Settings imports Complex_Main Py_Text Domain begin

text \<open>
  The runtime settings (\<open>config/settings.py\<close>): the fields with their bounds, the comma-separated
  lists read from them, and the checks of \<open>validate_runtime\<close>. A float is the rational it denotes.
\<close>

section \<open>Fields\<close>

datatype env_name = Dev | Test | Prod

record settings =
  s_env :: env_name
  database_url :: string
  api_host :: string
  api_port :: int
  api_auth_tokens :: string
  api_read_only_auth_tokens :: string
  worker_id_prefix :: string
  worker_queues :: string
  worker_concurrency :: int
  worker_batch_size :: int
  worker_poll_interval_seconds :: rat
  worker_lease_seconds :: int
  worker_shutdown_grace_seconds :: int
  db_pool_size :: int
  db_max_overflow :: int
  db_pool_timeout_seconds :: int
  db_statement_timeout_ms :: int
  db_lock_timeout_ms :: int
  retry_base_seconds :: int
  retry_max_seconds :: int
  retry_jitter_ratio :: rat
  http_default_timeout_seconds :: int
  http_max_timeout_seconds :: int
  http_allowed_hosts :: string
  block_private_network_targets :: bool
  http_max_connections :: int
  http_max_keepalive_connections :: int
  retention_succeeded_days :: int
  retention_dead_letter_days :: int
  purge_batch_size :: int
  max_payload_bytes :: int
  max_headers_bytes :: int
  max_metadata_bytes :: int
  log_level :: string

text \<open>The defaults; the database URL has none.\<close>

definition default_settings :: "string \<Rightarrow> settings" where
  "default_settings url =
     \<lparr>s_env = Dev, database_url = url, api_host = ''0.0.0.0'', api_port = 8090,
      api_auth_tokens = [], api_read_only_auth_tokens = [], worker_id_prefix = ''worker'',
      worker_queues = DEFAULT_QUEUE_NAME, worker_concurrency = 8, worker_batch_size = 8,
      worker_poll_interval_seconds = 1, worker_lease_seconds = 60,
      worker_shutdown_grace_seconds = 20, db_pool_size = 12, db_max_overflow = 4,
      db_pool_timeout_seconds = 30, db_statement_timeout_ms = 30000, db_lock_timeout_ms = 5000,
      retry_base_seconds = 2, retry_max_seconds = 900, retry_jitter_ratio = 1 / 5,
      http_default_timeout_seconds = 20, http_max_timeout_seconds = 120, http_allowed_hosts = [],
      block_private_network_targets = True, http_max_connections = 100,
      http_max_keepalive_connections = 20, retention_succeeded_days = 7,
      retention_dead_letter_days = 30, purge_batch_size = 1000, max_payload_bytes = 262144,
      max_headers_bytes = 16384, max_metadata_bytes = 16384, log_level = ''INFO''\<rparr>"

definition in_range :: "int \<Rightarrow> int \<Rightarrow> int \<Rightarrow> bool" where
  "in_range lo hi v \<longleftrightarrow> lo \<le> v \<and> v \<le> hi"

definition worker_fields_ok :: "settings \<Rightarrow> bool" where
  "worker_fields_ok s \<longleftrightarrow>
     in_range 3 64 (int (length (worker_id_prefix s))) \<and> in_range 1 256 (worker_concurrency s) \<and>
     in_range 1 256 (worker_batch_size s) \<and> 1 / 20 \<le> worker_poll_interval_seconds s \<and>
     worker_poll_interval_seconds s \<le> 60 \<and> in_range 5 3600 (worker_lease_seconds s) \<and>
     in_range 1 300 (worker_shutdown_grace_seconds s)"

definition db_fields_ok :: "settings \<Rightarrow> bool" where
  "db_fields_ok s \<longleftrightarrow>
     in_range 1 512 (db_pool_size s) \<and> in_range 0 512 (db_max_overflow s) \<and>
     in_range 1 300 (db_pool_timeout_seconds s) \<and> in_range 1000 300000 (db_statement_timeout_ms s) \<and>
     in_range 100 60000 (db_lock_timeout_ms s)"

definition retry_fields_ok :: "settings \<Rightarrow> bool" where
  "retry_fields_ok s \<longleftrightarrow>
     in_range 1 3600 (retry_base_seconds s) \<and> in_range 1 86400 (retry_max_seconds s) \<and>
     0 \<le> retry_jitter_ratio s \<and> retry_jitter_ratio s \<le> 1"

definition http_fields_ok :: "settings \<Rightarrow> bool" where
  "http_fields_ok s \<longleftrightarrow>
     in_range 1 300 (http_default_timeout_seconds s) \<and> in_range 1 600 (http_max_timeout_seconds s) \<and>
     in_range 1 1000 (http_max_connections s) \<and> in_range 0 1000 (http_max_keepalive_connections s)"

definition retention_fields_ok :: "settings \<Rightarrow> bool" where
  "retention_fields_ok s \<longleftrightarrow>
     in_range 1 365 (retention_succeeded_days s) \<and> in_range 1 3650 (retention_dead_letter_days s) \<and>
     in_range 1 10000 (purge_batch_size s) \<and> in_range 1024 10485760 (max_payload_bytes s) \<and>
     in_range 1024 262144 (max_headers_bytes s) \<and> in_range 1024 262144 (max_metadata_bytes s)"

definition starts_with :: "string \<Rightarrow> string \<Rightarrow> bool" where
  "starts_with prefix s \<longleftrightarrow> take (length prefix) s = prefix"

definition validate_database_url :: "string \<Rightarrow> exn + string" where
  "validate_database_url url =
     (if \<not> starts_with ''postgresql+asyncpg://'' url
      then Inl (ValueError ''database_url must start with postgresql+asyncpg://'') else Inr url)"

text \<open>
  The constructor: pydantic collects every violation, also the \<open>ValueError\<close> of the URL validator,
  into one \<open>ValidationError\<close>.
\<close>

definition make_settings :: "settings \<Rightarrow> exn + settings" where
  "make_settings s =
     (if database_url s \<noteq> [] \<and> validate_database_url (database_url s) = Inr (database_url s) \<and>
         in_range 1 65535 (api_port s) \<and> worker_fields_ok s \<and> db_fields_ok s \<and> retry_fields_ok s \<and>
         http_fields_ok s \<and> retention_fields_ok s
      then Inr s else Inl (PydanticValidationError ''Settings''))"

section \<open>Lists in a field\<close>

definition get_queue_names :: "settings \<Rightarrow> string list" where
  "get_queue_names s = comma_items (worker_queues s)"

text \<open>The host loop lowers each part before the test.\<close>

fun collect_hosts :: "string list \<Rightarrow> string set" where
  "collect_hosts [] = {}"
| "collect_hosts (part # parts) =
     (let host = lower (strip part)
      in if host \<noteq> [] then insert host (collect_hosts parts) else collect_hosts parts)"

definition get_allowed_hosts :: "settings \<Rightarrow> string set" where
  "get_allowed_hosts s = collect_hosts (split_on CHR '','' (http_allowed_hosts s))"

definition get_api_tokens :: "settings \<Rightarrow> string set" where
  "get_api_tokens s = set (comma_items (api_auth_tokens s))"

definition get_read_only_api_tokens :: "settings \<Rightarrow> string set" where
  "get_read_only_api_tokens s = set (comma_items (api_read_only_auth_tokens s))"

section \<open>Runtime checks\<close>

definition validate_runtime :: "settings \<Rightarrow> exn + unit" where
  "validate_runtime s =
     (let tokens = get_api_tokens s;
          read_only_tokens = get_read_only_api_tokens s;
          default_token_used = DEFAULT_API_TOKEN \<in> tokens \<or> DEFAULT_API_TOKEN \<in> read_only_tokens
      in if s_env s = Prod \<and> tokens = {}
         then Inl (ValueError ''PGRELAY_API_AUTH_TOKENS is required when PGRELAY_ENV=prod'')
         else if s_env s = Prod \<and> default_token_used
         then Inl (ValueError ''Default dev API token is forbidden when PGRELAY_ENV=prod'')
         else if s_env s = Prod \<and> get_allowed_hosts s = {}
         then Inl (ValueError ''PGRELAY_HTTP_ALLOWED_HOSTS is required when PGRELAY_ENV=prod'')
         else
           let minimum_pool_size = worker_concurrency s + 2;
               actual_pool_size = db_pool_size s + db_max_overflow s
           in if actual_pool_size < minimum_pool_size
              then Inl (ValueError ''db_pool_size + db_max_overflow must be at least worker_concurrency + 2'')
              else Inr ())"

section \<open>Loading\<close>

text \<open>\<open>Settings()\<close> on the values found in the environment.\<close>

definition load_settings :: "settings \<Rightarrow> exn + settings" where
  "load_settings environ = make_settings environ"

text \<open>What every process does first: \<open>settings = load_settings()\<close>, \<open>settings.validate_runtime()\<close>.\<close>

definition runtime_settings :: "settings \<Rightarrow> exn + settings" where
  "runtime_settings environ =
     (case load_settings environ of
        Inl e \<Rightarrow> Inl e
      | Inr s \<Rightarrow> (case validate_runtime s of Inl e \<Rightarrow> Inl e | Inr _ \<Rightarrow> Inr s))"

section \<open>Facts\<close>

lemma collect_hosts_eq: "collect_hosts ps = lower ` set (collect_stripped ps)"
  by (induction ps) (auto simp: Let_def lower_def)

lemma get_allowed_hosts_eq: "get_allowed_hosts s = lower ` set (comma_items (http_allowed_hosts s))"
  by (simp add: get_allowed_hosts_def collect_hosts_eq comma_items_def)

lemma make_settings_Inr:
  "make_settings s = Inr s' \<Longrightarrow> s' = s \<and> worker_fields_ok s \<and> db_fields_ok s \<and> retry_fields_ok s \<and>
     http_fields_ok s \<and> retention_fields_ok s"
  by (auto simp: make_settings_def split: if_splits)

lemma validate_runtime_Inr:
  "validate_runtime s = Inr () \<longleftrightarrow>
     worker_concurrency s + 2 \<le> db_pool_size s + db_max_overflow s \<and>
     (s_env s = Prod \<longrightarrow>
        get_api_tokens s \<noteq> {} \<and> get_allowed_hosts s \<noteq> {} \<and>
        DEFAULT_API_TOKEN \<notin> get_api_tokens s \<union> get_read_only_api_tokens s)"
  by (auto simp: validate_runtime_def Let_def)

lemma runtime_settings_Inr:
  "runtime_settings environ = Inr s \<longleftrightarrow> s = environ \<and> load_settings s = Inr s \<and> validate_runtime s = Inr ()"
  by (auto simp: runtime_settings_def load_settings_def dest: make_settings_Inr split: sum.splits)

lemma default_settings_ok:
  "make_settings (default_settings ''postgresql+asyncpg://db'') =
     Inr (default_settings ''postgresql+asyncpg://db'')"
  by (simp add: make_settings_def default_settings_def validate_database_url_def starts_with_def
      in_range_def worker_fields_ok_def db_fields_ok_def retry_fields_ok_def http_fields_ok_def
      retention_fields_ok_def)

end
