(* ===== verification/Validation.thy ===== *)
theory Validation imports Py_Text Domain begin

text \<open>
  The validation helpers (\<open>utils/validation.py\<close>): queue names, HTTP headers, target URLs and hosts,
  and the addresses HTTP jobs may not reach. \<open>urllib.parse.urlparse\<close> and the properties of
  \<open>ipaddress.ip_address\<close> are parameters.
\<close>

section \<open>Queue names\<close>

definition is_alpha :: "char \<Rightarrow> bool" where
  "is_alpha c \<longleftrightarrow> (65 \<le> code c \<and> code c \<le> 90) \<or> (97 \<le> code c \<and> code c \<le> 122)"

definition is_alnum :: "char \<Rightarrow> bool" where
  "is_alnum c \<longleftrightarrow> is_alpha c \<or> (48 \<le> code c \<and> code c \<le> 57)"

definition is_queue_sep :: "char \<Rightarrow> bool" where
  "is_queue_sep c \<longleftrightarrow> c \<in> {CHR ''.'', CHR ''_'', CHR ''-''}"

text \<open>
  The language of \<open>QUEUE_NAME_PATTERN\<close>, \<open>[A-Za-z][A-Za-z0-9]*(?:[._-][A-Za-z0-9]+)*\<close>: a head that
  starts with a letter, then segments, each a separator and at least one letter or digit.
\<close>

definition queue_name_language :: "string \<Rightarrow> bool" where
  "queue_name_language s \<longleftrightarrow>
     (\<exists>a h segs. s = a # h @ concat (map (\<lambda>(c, w). c # w) segs) \<and> is_alpha a \<and>
        (\<forall>x \<in> set h. is_alnum x) \<and>
        (\<forall>(c, w) \<in> set segs. is_queue_sep c \<and> w \<noteq> [] \<and> (\<forall>x \<in> set w. is_alnum x)))"

text \<open>The matcher: after a separator one letter or digit must follow.\<close>

fun queue_name_tail :: "bool \<Rightarrow> string \<Rightarrow> bool" where
  "queue_name_tail after_sep [] = (\<not> after_sep)"
| "queue_name_tail after_sep (c # cs) =
     (if is_alnum c then queue_name_tail False cs
      else \<not> after_sep \<and> is_queue_sep c \<and> queue_name_tail True cs)"

fun QUEUE_NAME_PATTERN :: "string \<Rightarrow> bool" where
  "QUEUE_NAME_PATTERN [] = False"
| "QUEUE_NAME_PATTERN (c # cs) = (is_alpha c \<and> queue_name_tail False cs)"

definition validate_queue_name :: "string \<Rightarrow> exn + unit" where
  "validate_queue_name value =
     (if length value < 1 \<or> 128 < length value \<or> \<not> QUEUE_NAME_PATTERN value
      then Inl (ValidationError ''Invalid queue name'') else Inr ())"

section \<open>Headers\<close>

definition header_name_char :: "char \<Rightarrow> bool" where
  "header_name_char c \<longleftrightarrow> is_alnum c \<or> c \<in> set ''!#$%&*+-.^_`|~'' \<or> code c = 39"

definition HEADER_NAME_PATTERN :: "string \<Rightarrow> bool" where
  "HEADER_NAME_PATTERN s \<longleftrightarrow> s \<noteq> [] \<and> list_all header_name_char s"

definition validate_header_name :: "string \<Rightarrow> exn + unit" where
  "validate_header_name name =
     (if HEADER_NAME_PATTERN name then Inr () else Inl (ValidationError ''Invalid HTTP header name''))"

definition CR :: char where
  "CR = char_of (13 :: nat)"

definition LF :: char where
  "LF = char_of (10 :: nat)"

definition validate_header_value :: "string \<Rightarrow> exn + unit" where
  "validate_header_value value =
     (if List.member value CR \<or> List.member value LF
      then Inl (ValidationError ''HTTP header value contains CRLF'') else Inr ())"

fun validate_headers :: "(string \<times> string) list \<Rightarrow> exn + unit" where
  "validate_headers [] = Inr ()"
| "validate_headers ((name, value) # rest) =
     (case validate_header_name name of
        Inl e \<Rightarrow> Inl e
      | Inr _ \<Rightarrow>
          (case validate_header_value value of
             Inl e \<Rightarrow> Inl e
           | Inr _ \<Rightarrow> validate_headers rest))"

section \<open>URLs and hosts\<close>

text \<open>What the code reads of \<open>urlparse(url)\<close>, which may raise \<open>ValueError\<close>.\<close>

record parsed_url =
  u_scheme :: string
  u_hostname :: "string option"
  u_port :: "exn + int option"

type_synonym url_parser = "string \<Rightarrow> exn + parsed_url"

definition extract_url_hostname :: "url_parser \<Rightarrow> string \<Rightarrow> exn + string" where
  "extract_url_hostname urlparse url =
     (case urlparse url of
        Inl e \<Rightarrow> Inl e
      | Inr parsed \<Rightarrow>
          if u_scheme parsed \<notin> {''http'', ''https''}
          then Inl (ValidationError ''URL scheme must be http or https'')
          else (case u_hostname parsed of
                  None \<Rightarrow> Inl (ValidationError ''URL hostname is required'')
                | Some h \<Rightarrow> if h = [] then Inl (ValidationError ''URL hostname is required'')
                            else Inr (lower h)))"

definition validate_url_syntax :: "url_parser \<Rightarrow> string \<Rightarrow> exn + string" where
  "validate_url_syntax urlparse url = extract_url_hostname urlparse url"

definition validate_allowed_host :: "string \<Rightarrow> string set \<Rightarrow> exn + unit" where
  "validate_allowed_host hostname allowed_hosts =
     (if allowed_hosts \<noteq> {} \<and> lower hostname \<notin> allowed_hosts
      then Inl (ValidationError ''HTTP target host is not allowed'') else Inr ())"

text \<open>The properties of an \<open>ipaddress\<close> object.\<close>

record ip_info =
  is_global :: bool
  is_private :: bool
  is_loopback :: bool
  is_link_local :: bool
  is_multicast :: bool
  is_reserved :: bool
  is_unspecified :: bool

definition is_blocked_ip_address :: "ip_info \<Rightarrow> bool" where
  "is_blocked_ip_address ip \<longleftrightarrow>
     \<not> is_global ip \<or> is_private ip \<or> is_loopback ip \<or> is_link_local ip \<or> is_multicast ip \<or>
     is_reserved ip \<or> is_unspecified ip"

text \<open>
  The loops over the addresses a name resolves to: \<open>validate_public_target\<close> checks all of them,
  \<open>resolve_public_address\<close> (\<open>worker/http_executor.py\<close>) also returns the first. \<open>ip_address\<close> is
  \<open>ipaddress.ip_address\<close>, \<open>getaddrinfo\<close> the resolver.
\<close>

fun check_public :: "(string \<Rightarrow> exn + ip_info) \<Rightarrow> string list \<Rightarrow> exn + unit" where
  "check_public ip_address [] = Inr ()"
| "check_public ip_address (address # rest) =
     (case ip_address address of
        Inl e \<Rightarrow> Inl e
      | Inr ip \<Rightarrow>
          if is_blocked_ip_address ip
          then Inl (ValidationError ''HTTP target resolves to a blocked network address'')
          else check_public ip_address rest)"

definition validate_public_target ::
  "url_parser \<Rightarrow> (string \<Rightarrow> exn + ip_info) \<Rightarrow> (string \<Rightarrow> int option \<Rightarrow> exn + string list) \<Rightarrow> string \<Rightarrow> exn + unit" where
  "validate_public_target urlparse ip_address getaddrinfo url =
     (case extract_url_hostname urlparse url of
        Inl e \<Rightarrow> Inl e
      | Inr hostname \<Rightarrow>
          (case urlparse url of
             Inl e \<Rightarrow> Inl e
           | Inr parsed \<Rightarrow>
               (case u_port parsed of
                  Inl e \<Rightarrow> Inl e
                | Inr port \<Rightarrow>
                    (case getaddrinfo hostname port of
                       Inl e \<Rightarrow> Inl e
                     | Inr infos \<Rightarrow> check_public ip_address infos))))"

definition resolve_public_address ::
  "(string \<Rightarrow> exn + ip_info) \<Rightarrow> (string \<Rightarrow> int option \<Rightarrow> exn + string list) \<Rightarrow> string \<Rightarrow> int \<Rightarrow> exn + string" where
  "resolve_public_address ip_address getaddrinfo hostname port =
     (case getaddrinfo hostname (Some port) of
        Inl e \<Rightarrow> Inl e
      | Inr infos \<Rightarrow>
          (case check_public ip_address infos of
             Inl e \<Rightarrow> Inl e
           | Inr _ \<Rightarrow>
               (case infos of
                  [] \<Rightarrow> Inl (ValidationError ''HTTP target did not resolve'')
                | address # _ \<Rightarrow> Inr address)))"

section \<open>The matcher accepts the language of the pattern\<close>

abbreviation seg_text :: "char \<times> string \<Rightarrow> string" where
  "seg_text \<equiv> (\<lambda>(c, w). c # w)"

abbreviation seg_ok :: "char \<times> string \<Rightarrow> bool" where
  "seg_ok \<equiv> (\<lambda>(c, w). is_queue_sep c \<and> w \<noteq> [] \<and> (\<forall>x \<in> set w. is_alnum x))"

lemma sep_not_alnum: "is_queue_sep c \<Longrightarrow> \<not> is_alnum c"
  by (auto simp: is_queue_sep_def is_alnum_def is_alpha_def)

lemma tail_alnum_prefix:
  "\<forall>x \<in> set h. is_alnum x \<Longrightarrow> h \<noteq> [] \<or> \<not> b \<Longrightarrow> queue_name_tail b (h @ s) = queue_name_tail False s"
  by (induction h arbitrary: b) auto

lemma tail_of_segments:
  "\<forall>p \<in> set segs. seg_ok p \<Longrightarrow> queue_name_tail False (concat (map seg_text segs))"
proof (induction segs)
  case (Cons p segs)
  obtain c w where p: "p = (c, w)" by (cases p)
  with Cons.prems have c: "is_queue_sep c" and w: "w \<noteq> []" "\<forall>x \<in> set w. is_alnum x" by auto
  with Cons sep_not_alnum [OF c] show ?case
    by (simp add: p tail_alnum_prefix)
qed simp

lemma tail_decomposes:
  "queue_name_tail b s \<Longrightarrow>
    \<exists>h segs. s = h @ concat (map seg_text segs) \<and> (\<forall>x \<in> set h. is_alnum x) \<and>
      (b \<longrightarrow> h \<noteq> []) \<and> (\<forall>p \<in> set segs. seg_ok p)"
proof (induction b s rule: queue_name_tail.induct)
  case (1 b)
  then show ?case by (intro exI [of _ "[]"]) simp
next
  case (2 b c cs)
  show ?case
  proof (cases "is_alnum c")
    case True
    with 2 obtain h segs where "cs = h @ concat (map seg_text segs)" "\<forall>x \<in> set h. is_alnum x"
      "\<forall>p \<in> set segs. seg_ok p" by auto
    with True show ?thesis by (intro exI [of _ "c # h"] exI [of _ segs]) simp
  next
    case False
    with 2 obtain h segs where "cs = h @ concat (map seg_text segs)" "\<forall>x \<in> set h. is_alnum x" "h \<noteq> []"
      "\<forall>p \<in> set segs. seg_ok p" by auto
    with False 2(3) show ?thesis
      by (intro exI [of _ "[]"] exI [of _ "(c, h) # segs"]) simp
  qed
qed

lemma queue_name_pattern_language: "QUEUE_NAME_PATTERN s \<longleftrightarrow> queue_name_language s"
proof
  assume "QUEUE_NAME_PATTERN s"
  then obtain a r where s: "s = a # r" "is_alpha a" "queue_name_tail False r"
    by (cases s) auto
  from tail_decomposes [OF s(3)] s(1,2) show "queue_name_language s"
    unfolding queue_name_language_def by fastforce
next
  assume "queue_name_language s"
  then obtain a h segs where s: "s = a # h @ concat (map seg_text segs)" "is_alpha a"
    "\<forall>x \<in> set h. is_alnum x" "\<forall>p \<in> set segs. seg_ok p"
    unfolding queue_name_language_def by blast
  with tail_of_segments [OF s(4)] show "QUEUE_NAME_PATTERN s"
    by (simp add: tail_alnum_prefix)
qed

section \<open>Facts\<close>

lemma validate_headers_ok:
  "validate_headers hs = Inr () \<longleftrightarrow>
     (\<forall>(n, v) \<in> set hs. HEADER_NAME_PATTERN n \<and> CR \<notin> set v \<and> LF \<notin> set v)"
  by (induction hs rule: validate_headers.induct)
    (auto simp: validate_header_name_def validate_header_value_def split: sum.splits)

lemma validate_headers_error:
  "validate_headers hs = Inl e \<Longrightarrow> \<exists>m. e = ValidationError m"
  by (induction hs rule: validate_headers.induct)
    (auto simp: validate_header_name_def validate_header_value_def split: sum.splits if_splits)

lemma check_public_ok:
  "check_public ip as = Inr () \<longleftrightarrow> (\<forall>a \<in> set as. \<exists>i. ip a = Inr i \<and> \<not> is_blocked_ip_address i)"
  by (induction as) (auto split: sum.splits)

lemma lower_idem [simp]: "lower (lower s) = lower s"
proof -
  have "lower_char (lower_char c) = lower_char c" for c
    by (auto simp: lower_char_def)
  then show ?thesis by (simp add: lower_def)
qed

end
