(* ===== verification/Json.thy ===== *)
theory Json imports Py_Text Domain begin

text \<open>
  Canonical JSON (\<open>utils/json.py\<close>): \<open>json.dumps(value, ensure_ascii=False, sort_keys=True,
  separators=(",", ":"))\<close>, the size the enqueue limits are checked against, and the proof that
  neither depends on the order in which the members of an object were inserted.
\<close>

section \<open>Serialisation\<close>

definition QUOTE :: char where
  "QUOTE = char_of (34 :: nat)"

text \<open>
  The escapes of a string when non-ASCII text is kept: quote, backslash, the five short escapes, and
  \<open>\u00XX\<close> for the other control characters.
\<close>

definition escape_char :: "char \<Rightarrow> string" where
  "escape_char c =
     (let n = code c
      in if n = 34 then [CHR 0x5C, QUOTE]
         else if n = 92 then [CHR 0x5C, CHR 0x5C]
         else if n = 10 then [CHR 0x5C, CHR ''n'']
         else if n = 13 then [CHR 0x5C, CHR ''r'']
         else if n = 9 then [CHR 0x5C, CHR ''t'']
         else if n = 12 then [CHR 0x5C, CHR ''f'']
         else if n = 8 then [CHR 0x5C, CHR ''b'']
         else if n < 32 then [CHR 0x5C, CHR ''u''] @ hex_fixed 4 n
         else [c])"

definition quoted :: "string \<Rightarrow> string" where
  "quoted s = [QUOTE] @ concat (map escape_char s) @ [QUOTE]"

text \<open>
  The members of an object are written in the order of their keys; the keys of a dict are distinct,
  so the order is total.
\<close>

fun canonical_json_dumps :: "json \<Rightarrow> string"
  and dumps_items :: "json list \<Rightarrow> string list"
  and dumps_members :: "dict \<Rightarrow> (string \<times> string) list" where
  "canonical_json_dumps JNull = ''null''"
| "canonical_json_dumps (JBool b) = (if b then ''true'' else ''false'')"
| "canonical_json_dumps (JInt i) = int_str i"
| "canonical_json_dumps (JFloat r) = r"
| "canonical_json_dumps (JStr s) = quoted s"
| "canonical_json_dumps (JArr xs) = ''['' @ join '','' (dumps_items xs) @ '']''"
| "canonical_json_dumps (JObj kvs) =
     ''{'' @ join '','' (map snd (sort_key fst (dumps_members kvs))) @ ''}''"
| "dumps_items [] = []"
| "dumps_items (x # xs) = canonical_json_dumps x # dumps_items xs"
| "dumps_members [] = []"
| "dumps_members ((k, v) # kvs) =
     (k, quoted k @ '':'' @ canonical_json_dumps v) # dumps_members kvs"

definition json_size_bytes :: "json \<Rightarrow> nat" where
  "json_size_bytes v = utf8_len (canonical_json_dumps v)"

section \<open>Equal dicts\<close>

text \<open>
  Python's equality of decoded JSON: arrays element by element, dicts member by member whatever the
  insertion order.
\<close>

inductive same_json :: "json \<Rightarrow> json \<Rightarrow> bool" where
  same_refl: "same_json v v"
| same_arr: "list_all2 same_json xs ys \<Longrightarrow> same_json (JArr xs) (JArr ys)"
| same_obj: "mset kvs = mset kvs' \<Longrightarrow>
    list_all2 (\<lambda>m n. fst m = fst n \<and> same_json (snd m) (snd n)) kvs' ls \<Longrightarrow>
    same_json (JObj kvs) (JObj ls)"

text \<open>Every object has distinct keys.\<close>

fun proper :: "json \<Rightarrow> bool" and proper_items :: "json list \<Rightarrow> bool" and proper_members :: "dict \<Rightarrow> bool" where
  "proper (JArr xs) = proper_items xs"
| "proper (JObj kvs) = (distinct (map fst kvs) \<and> proper_members kvs)"
| "proper _ = True"
| "proper_items [] = True"
| "proper_items (x # xs) = (proper x \<and> proper_items xs)"
| "proper_members [] = True"
| "proper_members ((k, v) # kvs) = (proper v \<and> proper_members kvs)"

section \<open>Facts\<close>

lemma dumps_items_map: "dumps_items xs = map canonical_json_dumps xs"
  by (induction xs) simp_all

lemma dumps_members_map:
  "dumps_members kvs = map (\<lambda>(k, v). (k, quoted k @ '':'' @ canonical_json_dumps v)) kvs"
  by (induction kvs) auto

lemma fst_dumps_members: "map fst (dumps_members kvs) = map fst kvs"
  by (induction kvs) auto

lemma proper_items_all: "proper_items xs \<longleftrightarrow> (\<forall>x \<in> set xs. proper x)"
  by (induction xs) simp_all

lemma proper_members_all: "proper_members kvs \<longleftrightarrow> (\<forall>m \<in> set kvs. proper (snd m))"
  by (induction kvs) auto

text \<open>With distinct keys, sorting by key forgets the order of insertion.\<close>

lemma sort_key_distinct_perm:
  assumes "mset xs = mset ys" and "distinct (map f xs)"
  shows "sort_key f xs = sort_key f ys"
proof (rule properties_for_sort_key)
  show "mset (sort_key f ys) = mset xs" using assms(1) by simp
  show "sorted (map f (sort_key f ys))" by simp
  show "filter (\<lambda>x. f k = f x) (sort_key f ys) = filter (\<lambda>x. f k = f x) xs" if "k \<in> set (sort_key f ys)" for k
  proof -
    have k: "k \<in> set xs" using that assms(1) by (metis set_sort mset_eq_setD)
    have one: "filter (\<lambda>x. f k = f x) zs = [k]" if "mset zs = mset xs" for zs
    proof -
      have z: "k \<in> set zs" "distinct (map f zs)"
        using that k assms(2) by (metis mset_eq_setD, metis mset_eq_imp_distinct_iff mset_map)
      then show ?thesis
        by (induction zs) (auto simp: filter_empty_conv image_iff)
    qed
    show ?thesis using one [of xs] one [of "sort_key f ys"] assms(1) by simp
  qed
qed

lemma dumps_members_cong:
  assumes "list_all2 (\<lambda>m n. fst m = fst n \<and> canonical_json_dumps (snd m) = canonical_json_dumps (snd n)) kvs ls"
  shows "dumps_members kvs = dumps_members ls"
  using assms by (induction rule: list_all2_induct) (auto split: prod.splits)

lemma dumps_members_perm: "mset kvs = mset ls \<Longrightarrow> mset (dumps_members kvs) = mset (dumps_members ls)"
  by (simp add: dumps_members_map)

lemma same_json_dumps:
  "same_json v w \<Longrightarrow> proper v \<Longrightarrow> canonical_json_dumps v = canonical_json_dumps w"
proof (induction rule: same_json.induct)
  case (same_arr xs ys)
  then have "dumps_items xs = dumps_items ys"
    by (auto simp: dumps_items_map proper_items_all list_all2_conv_all_nth intro!: nth_equalityI)
  then show ?case by simp
next
  case (same_obj kvs kvs' ls)
  have "set kvs' = set kvs" using same_obj(1) by (metis mset_eq_setD)
  with same_obj(3) have "\<forall>m \<in> set kvs'. proper (snd m)"
    by (simp add: proper_members_all)
  then have p: "proper (snd (kvs' ! i))" if "i < length kvs'" for i
    using that nth_mem by blast
  have "list_all2 (\<lambda>m n. fst m = fst n \<and>
      canonical_json_dumps (snd m) = canonical_json_dumps (snd n)) kvs' ls"
    using same_obj(2) unfolding list_all2_conv_all_nth by (blast intro: p)
  then have "dumps_members kvs' = dumps_members ls" by (rule dumps_members_cong)
  moreover have "sort_key fst (dumps_members kvs) = sort_key fst (dumps_members kvs')"
  proof (rule sort_key_distinct_perm)
    show "mset (dumps_members kvs) = mset (dumps_members kvs')"
      by (rule dumps_members_perm) (rule same_obj(1))
    show "distinct (map fst (dumps_members kvs))"
      using same_obj(3) by (simp add: fst_dumps_members)
  qed
  ultimately show ?case by simp
qed simp

lemma utf8_len_append [simp]: "utf8_len (s @ t) = utf8_len s + utf8_len t"
  by (simp add: utf8_len_def)

lemma utf8_len_ge: "length s \<le> utf8_len s"
  by (induction s) (auto simp: utf8_len_def)

end
