(* ===== verification/Enqueue.thy ===== *)
theory Enqueue imports Protocols Settings Validation Json begin

text \<open>
  Enqueueing (\<open>schemas/enqueue.py\<close>, \<open>services/enqueue.py\<close>, \<open>sdk/client.py\<close>, \<open>sdk/result.py\<close>): the
  request and payload schemas with their constraints, the service that checks sizes and HTTP targets
  and inserts the job, and the two methods of the SDK client. Arguments arrive with the types the
  schemas declare; what pydantic coerces is not modelled.
\<close>

section \<open>The payload of an HTTP job\<close>

record http_payload =
  h_method :: string
  h_url :: string
  h_headers :: "(string \<times> string) list"
  h_json :: "json option"
  h_body_base64 :: "string option"

definition HTTP_METHODS :: "string list" where
  "HTTP_METHODS = [''GET'', ''POST'', ''PUT'', ''PATCH'', ''DELETE'']"

fun method_field :: "json option \<Rightarrow> string option" where
  "method_field None = Some ''POST''"
| "method_field (Some (JStr m)) = (if m \<in> set HTTP_METHODS then Some m else None)"
| "method_field (Some _) = None"

fun url_field :: "json option \<Rightarrow> string option" where
  "url_field (Some (JStr u)) = (if 1 \<le> length u \<and> length u \<le> 2048 then Some u else None)"
| "url_field _ = None"

fun string_members :: "dict \<Rightarrow> (string \<times> string) list option" where
  "string_members [] = Some []"
| "string_members ((k, JStr v) # rest) = map_option ((#) (k, v)) (string_members rest)"
| "string_members ((k, _) # rest) = None"

fun headers_field :: "json option \<Rightarrow> (string \<times> string) list option" where
  "headers_field None = Some []"
| "headers_field (Some (JObj kvs)) = string_members kvs"
| "headers_field (Some _) = None"

fun json_field :: "json option \<Rightarrow> json option option" where
  "json_field None = Some None"
| "json_field (Some JNull) = Some None"
| "json_field (Some (JArr xs)) = Some (Some (JArr xs))"
| "json_field (Some (JObj kvs)) = Some (Some (JObj kvs))"
| "json_field (Some _) = None"

fun base64_field :: "json option \<Rightarrow> string option option" where
  "base64_field None = Some None"
| "base64_field (Some JNull) = Some None"
| "base64_field (Some (JStr b)) = (if length b \<le> 10485760 then Some (Some b) else None)"
| "base64_field (Some _) = None"

text \<open>The body may be given under its alias or, \<open>populate_by_name\<close>, under the field's name.\<close>

definition body_member :: "dict \<Rightarrow> json option" where
  "body_member d = (case map_of d ''json'' of None \<Rightarrow> map_of d ''json_body'' | Some v \<Rightarrow> Some v)"

definition http_payload_validate :: "dict \<Rightarrow> exn + http_payload" where
  "http_payload_validate d =
     (case (method_field (map_of d ''method''), url_field (map_of d ''url''),
            headers_field (map_of d ''headers''), json_field (body_member d),
            base64_field (map_of d ''body_base64'')) of
        (Some m, Some u, Some hs, Some j, Some b) \<Rightarrow>
          if j \<noteq> None \<and> b \<noteq> None then Inl (PydanticValidationError ''HttpJobPayload'')
          else Inr \<lparr>h_method = m, h_url = u, h_headers = hs, h_json = j, h_body_base64 = b\<rparr>
      | _ \<Rightarrow> Inl (PydanticValidationError ''HttpJobPayload''))"

text \<open>\<open>model_dump(by_alias=True, exclude_none=True)\<close>\<close>

definition http_payload_dump :: "http_payload \<Rightarrow> dict" where
  "http_payload_dump p =
     [(''method'', JStr (h_method p)), (''url'', JStr (h_url p)),
      (''headers'', JObj (map (\<lambda>(k, v). (k, JStr v)) (h_headers p)))] @
     (case h_json p of None \<Rightarrow> [] | Some j \<Rightarrow> [(''json'', j)]) @
     (case h_body_base64 p of None \<Rightarrow> [] | Some b \<Rightarrow> [(''body_base64'', JStr b)])"

section \<open>The request\<close>

record enqueue_request =
  r_queue_name :: string
  r_kind :: string
  r_name :: string
  r_payload :: dict
  r_headers :: dict
  r_metadata :: dict
  r_priority :: int
  r_max_attempts :: int
  r_timeout_seconds :: int
  r_available_at :: "time option"
  r_idempotency_key :: "string option"
  r_dedupe_key :: "string option"
  r_trace_id :: "string option"

definition short_text :: "string option \<Rightarrow> bool" where
  "short_text v = (case v of None \<Rightarrow> True | Some s \<Rightarrow> length s \<le> 512)"

definition request_fields_ok :: "enqueue_request \<Rightarrow> bool" where
  "request_fields_ok r \<longleftrightarrow>
     r_kind r \<in> {''http'', ''handler''} \<and>
     1 \<le> length (r_name r) \<and> length (r_name r) \<le> 256 \<and>
     - 1000 \<le> r_priority r \<and> r_priority r \<le> 1000 \<and>
     1 \<le> r_max_attempts r \<and> r_max_attempts r \<le> 100 \<and>
     1 \<le> r_timeout_seconds r \<and> r_timeout_seconds r \<le> 3600 \<and>
     short_text (r_idempotency_key r) \<and> short_text (r_dedupe_key r) \<and> short_text (r_trace_id r)"

text \<open>
  The constructor. The queue name validator runs once the length is right, and what it raises is not
  a \<open>ValueError\<close>, so pydantic lets it through; the other violations are collected.
\<close>

definition EnqueueJobRequest :: "enqueue_request \<Rightarrow> exn + enqueue_request" where
  "EnqueueJobRequest r =
     (let length_ok = 1 \<le> length (r_queue_name r) \<and> length (r_queue_name r) \<le> 128
      in case (if length_ok then validate_queue_name (r_queue_name r) else Inr ()) of
           Inl e \<Rightarrow> Inl e
         | Inr _ \<Rightarrow>
             if length_ok \<and> request_fields_ok r then Inr r
             else Inl (PydanticValidationError ''EnqueueJobRequest''))"

section \<open>The service\<close>

record enqueue_result =
  er_job_id :: uuid
  er_created :: bool
  er_queue_name :: string
  er_status :: job_status
  er_idempotency_key :: "string option"

definition validate_size :: "string \<Rightarrow> json \<Rightarrow> int \<Rightarrow> exn + unit" where
  "validate_size name value maximum =
     (if int (json_size_bytes value) > maximum
      then Inl (ValidationError (name @ '' exceeds maximum JSON size'')) else Inr ())"

definition validate_http_payload :: "url_parser \<Rightarrow> settings \<Rightarrow> dict \<Rightarrow> exn + dict" where
  "validate_http_payload urlparse s payload =
     (case http_payload_validate payload of
        Inl e \<Rightarrow> Inl (ValidationError ''HttpJobPayload'')
      | Inr model \<Rightarrow>
          (case validate_headers (h_headers model) of
             Inl e \<Rightarrow> Inl e
           | Inr _ \<Rightarrow>
               (case validate_url_syntax urlparse (h_url model) of
                  Inl e \<Rightarrow> Inl e
                | Inr hostname \<Rightarrow>
                    (case validate_allowed_host hostname (get_allowed_hosts s) of
                       Inl e \<Rightarrow> Inl e
                     | Inr _ \<Rightarrow> Inr (http_payload_dump model)))))"

text \<open>The checks of \<open>enqueue\<close>, in order; the result is the payload that is stored.\<close>

definition enqueue_checks :: "url_parser \<Rightarrow> settings \<Rightarrow> enqueue_request \<Rightarrow> exn + dict" where
  "enqueue_checks urlparse s r =
     (case validate_queue_name (r_queue_name r) of Inl e \<Rightarrow> Inl e | Inr _ \<Rightarrow>
     (case validate_size ''payload'' (JObj (r_payload r)) (max_payload_bytes s) of Inl e \<Rightarrow> Inl e | Inr _ \<Rightarrow>
     (case validate_size ''headers'' (JObj (r_headers r)) (max_headers_bytes s) of Inl e \<Rightarrow> Inl e | Inr _ \<Rightarrow>
     (case validate_size ''metadata'' (JObj (r_metadata r)) (max_metadata_bytes s) of Inl e \<Rightarrow> Inl e | Inr _ \<Rightarrow>
        if r_timeout_seconds r > http_max_timeout_seconds s
        then Inl (ValidationError ''timeout_seconds exceeds configured maximum'')
        else if r_kind r = ''http'' then validate_http_payload urlparse s (r_payload r)
        else Inr (r_payload r)))))"

definition request_params :: "enqueue_request \<Rightarrow> dict \<Rightarrow> job_params" where
  "request_params r payload =
     \<lparr>p_queue_name = r_queue_name r, p_kind = r_kind r, p_name = r_name r, p_payload = payload,
      p_headers = r_headers r, p_metadata = r_metadata r, p_priority = r_priority r,
      p_max_attempts = r_max_attempts r, p_timeout_seconds = r_timeout_seconds r,
      p_available_at = r_available_at r, p_idempotency_key = r_idempotency_key r,
      p_dedupe_key = r_dedupe_key r, p_trace_id = r_trace_id r, p_replayed_from_job_id = None\<rparr>"

text \<open>A request is a validated model or a dict, whose members \<open>model_validate\<close> checks first.\<close>

datatype enqueue_arg = Model enqueue_request | Dict enqueue_request

fun validated_request :: "enqueue_arg \<Rightarrow> exn + enqueue_request" where
  "validated_request (Model r) = Inr r"
| "validated_request (Dict r) =
     (case EnqueueJobRequest r of
        Inl (PydanticValidationError m) \<Rightarrow> Inl (ValidationError m)
      | res \<Rightarrow> res)"

definition enqueue ::
  "job_repository \<Rightarrow> url_parser \<Rightarrow> settings \<Rightarrow> enqueue_arg \<Rightarrow> enqueue_result tx" where
  "enqueue repository urlparse s arg =
     (case validated_request arg of
        Inl e \<Rightarrow> raise_tx e
      | Inr r \<Rightarrow>
          (case enqueue_checks urlparse s r of
             Inl e \<Rightarrow> raise_tx e
           | Inr payload \<Rightarrow>
               bind_tx (jr_insert_job repository (request_params r payload)) (\<lambda>(row, created).
               return_tx
                 \<lparr>er_job_id = j_id row, er_created = created, er_queue_name = j_queue_name row,
                  er_status = j_status row, er_idempotency_key = j_idempotency_key row\<rparr>)))"

section \<open>The SDK client\<close>

definition or_empty :: "dict option \<Rightarrow> dict" where
  "or_empty d = (case d of None \<Rightarrow> [] | Some m \<Rightarrow> m)"

text \<open>
  The keyword arguments the two methods share: queue, name, priority, attempts, timeout, start time,
  keys and trace, with the metadata; payload, headers and kind are set by the method.
\<close>

definition client_request :: "enqueue_request \<Rightarrow> string \<Rightarrow> dict \<Rightarrow> dict option \<Rightarrow> enqueue_request" where
  "client_request common kind payload metadata =
     common\<lparr>r_kind := kind, r_payload := payload, r_headers := [], r_metadata := or_empty metadata\<rparr>"

text \<open>The defaults of those arguments.\<close>

definition client_arguments :: "string \<Rightarrow> enqueue_request" where
  "client_arguments name =
     \<lparr>r_queue_name = ''default'', r_kind = '''', r_name = name, r_payload = [], r_headers = [], r_metadata = [],
      r_priority = 0, r_max_attempts = 10, r_timeout_seconds = 30, r_available_at = None,
      r_idempotency_key = None, r_dedupe_key = None, r_trace_id = None\<rparr>"

definition enqueue_handler ::
  "job_repository \<Rightarrow> url_parser \<Rightarrow> settings \<Rightarrow> enqueue_request \<Rightarrow> dict \<Rightarrow> dict option \<Rightarrow> enqueue_result tx" where
  "enqueue_handler repository urlparse s common payload metadata =
     (case EnqueueJobRequest (client_request common ''handler'' payload metadata) of
        Inl e \<Rightarrow> raise_tx e
      | Inr request \<Rightarrow> enqueue repository urlparse s (Model request))"

definition http_arguments ::
  "string \<Rightarrow> string \<Rightarrow> json option \<Rightarrow> string option \<Rightarrow> (string \<times> string) list option \<Rightarrow> dict" where
  "http_arguments method url json_body body_base64 http_headers =
     [(''method'', JStr method), (''url'', JStr url),
      (''headers'', JObj (map (\<lambda>(k, v). (k, JStr v)) (case http_headers of None \<Rightarrow> [] | Some hs \<Rightarrow> hs))),
      (''json'', case json_body of None \<Rightarrow> JNull | Some j \<Rightarrow> j),
      (''body_base64'', case body_base64 of None \<Rightarrow> JNull | Some b \<Rightarrow> JStr b)]"

definition enqueue_http ::
  "job_repository \<Rightarrow> url_parser \<Rightarrow> settings \<Rightarrow> enqueue_request \<Rightarrow> string \<Rightarrow> string \<Rightarrow> json option \<Rightarrow>
    string option \<Rightarrow> (string \<times> string) list option \<Rightarrow> dict option \<Rightarrow> enqueue_result tx" where
  "enqueue_http repository urlparse s common method url json_body body_base64 http_headers metadata =
     (case http_payload_validate (http_arguments method url json_body body_base64 http_headers) of
        Inl e \<Rightarrow> raise_tx e
      | Inr payload \<Rightarrow>
          (case EnqueueJobRequest (client_request common ''http'' (http_payload_dump payload) metadata) of
             Inl e \<Rightarrow> raise_tx e
           | Inr request \<Rightarrow> enqueue repository urlparse s (Model request)))"

section \<open>Facts on the payload\<close>

lemma string_members_strings [simp]: "string_members (map (\<lambda>(k, v). (k, JStr v)) hs) = Some hs"
  by (induction hs) auto

definition payload_ok :: "http_payload \<Rightarrow> bool" where
  "payload_ok p \<longleftrightarrow>
     h_method p \<in> set HTTP_METHODS \<and> 1 \<le> length (h_url p) \<and> length (h_url p) \<le> 2048 \<and>
     (case h_json p of None \<Rightarrow> True | Some (JArr _) \<Rightarrow> True | Some (JObj _) \<Rightarrow> True | Some _ \<Rightarrow> False) \<and>
     (case h_body_base64 p of None \<Rightarrow> True | Some b \<Rightarrow> length b \<le> 10485760) \<and>
     (h_json p = None \<or> h_body_base64 p = None)"

lemma method_field_Some: "method_field v = Some m \<Longrightarrow> m \<in> set HTTP_METHODS"
  by (induction v rule: method_field.induct) (auto simp: HTTP_METHODS_def split: if_splits)

lemma url_field_Some: "url_field v = Some u \<Longrightarrow> 1 \<le> length u \<and> length u \<le> 2048"
  by (induction v rule: url_field.induct) (auto split: if_splits)

lemma json_field_Some:
  "json_field v = Some j \<Longrightarrow>
    (case j of None \<Rightarrow> True | Some (JArr _) \<Rightarrow> True | Some (JObj _) \<Rightarrow> True | Some _ \<Rightarrow> False)"
  by (induction v rule: json_field.induct) auto

lemma base64_field_Some:
  "base64_field v = Some b \<Longrightarrow> (case b of None \<Rightarrow> True | Some x \<Rightarrow> length x \<le> 10485760)"
  by (induction v rule: base64_field.induct) (auto split: if_splits)

lemma http_payload_validate_ok: "http_payload_validate d = Inr p \<Longrightarrow> payload_ok p"
  unfolding http_payload_validate_def payload_ok_def
  by (auto split: option.splits if_splits dest: method_field_Some url_field_Some
      dest!: json_field_Some base64_field_Some)

lemma http_payload_validate_error:
  "http_payload_validate d = Inl e \<Longrightarrow> e = PydanticValidationError ''HttpJobPayload''"
  unfolding http_payload_validate_def by (auto split: option.splits if_splits)

lemma http_payload_validate_dump: "payload_ok p \<Longrightarrow> http_payload_validate (http_payload_dump p) = Inr p"
  unfolding http_payload_validate_def http_payload_dump_def payload_ok_def body_member_def
  by (auto simp: HTTP_METHODS_def split: option.splits json.splits)

section \<open>Facts on the service\<close>

lemma validate_size_Inr: "validate_size n v m = Inr () \<longleftrightarrow> int (json_size_bytes v) \<le> m"
  by (simp add: validate_size_def)

lemma EnqueueJobRequest_Inr:
  "EnqueueJobRequest r = Inr r' \<longleftrightarrow>
     r' = r \<and> validate_queue_name (r_queue_name r) = Inr () \<and> request_fields_ok r"
  by (auto simp: EnqueueJobRequest_def Let_def validate_queue_name_def Suc_le_eq split: sum.splits if_splits)

lemma validate_http_payload_Inr:
  "validate_http_payload urlparse s d = Inr payload \<longleftrightarrow>
     (\<exists>m h. http_payload_validate d = Inr m \<and> validate_headers (h_headers m) = Inr () \<and>
        validate_url_syntax urlparse (h_url m) = Inr h \<and>
        validate_allowed_host h (get_allowed_hosts s) = Inr () \<and> payload = http_payload_dump m)"
  by (auto simp: validate_http_payload_def split: sum.splits)

lemma enqueue_checks_Inr:
  assumes "enqueue_checks urlparse s r = Inr payload"
  shows "validate_queue_name (r_queue_name r) = Inr ()"
    and "int (json_size_bytes (JObj (r_payload r))) \<le> max_payload_bytes s"
    and "int (json_size_bytes (JObj (r_headers r))) \<le> max_headers_bytes s"
    and "int (json_size_bytes (JObj (r_metadata r))) \<le> max_metadata_bytes s"
    and "r_timeout_seconds r \<le> http_max_timeout_seconds s"
    and "if r_kind r = ''http'' then validate_http_payload urlparse s (r_payload r) = Inr payload
         else payload = r_payload r"
  using assms by (auto simp: enqueue_checks_def validate_size_Inr split: sum.splits if_splits)

lemma enqueue_Inr:
  assumes "enqueue R urlparse s arg t = (Inr res, t')"
  obtains r payload j where "validated_request arg = Inr r" and "enqueue_checks urlparse s r = Inr payload"
    and "jr_insert_job R (request_params r payload) t = (Inr (j, er_created res), t')"
    and "er_job_id res = j_id j" and "er_queue_name res = j_queue_name j"
    and "er_status res = j_status j" and "er_idempotency_key res = j_idempotency_key j"
  using assms
  by (auto simp: enqueue_def bind_tx_Inr_iff raise_tx_def return_tx_def split: sum.splits)

lemma enqueue_http_Inr:
  assumes "enqueue_http R urlparse s common method url json_body body hs metadata t = (Inr res, t')"
  obtains p where "http_payload_validate (http_arguments method url json_body body hs) = Inr p"
    and "enqueue R urlparse s (Model (client_request common ''http'' (http_payload_dump p) metadata)) t = (Inr res, t')"
  using assms by (auto simp: enqueue_http_def EnqueueJobRequest_Inr split: sum.splits)

text \<open>An HTTP job is stored as the payload that was validated.\<close>

lemma enqueue_checks_http:
  assumes "enqueue_checks urlparse s r = Inr payload" and "r_kind r = ''http''" and "r_payload r = http_payload_dump p"
    and "payload_ok p"
  shows "payload = http_payload_dump p"
  using enqueue_checks_Inr(6) [OF assms(1)] assms(2,3) http_payload_validate_dump [OF assms(4)]
  by (auto simp: validate_http_payload_Inr)

text \<open>The request was refused before the repository was called.\<close>

definition refused :: "url_parser \<Rightarrow> settings \<Rightarrow> enqueue_arg \<Rightarrow> exn option" where
  "refused urlparse s arg =
     (case validated_request arg of
        Inl e \<Rightarrow> Some e
      | Inr r \<Rightarrow> (case enqueue_checks urlparse s r of Inl e \<Rightarrow> Some e | Inr _ \<Rightarrow> None))"

lemma enqueue_refused: "refused urlparse s arg = Some e \<Longrightarrow> enqueue R urlparse s arg t = (Inl e, t)"
  by (auto simp: refused_def enqueue_def split: sum.splits)

context job_store
begin

lemma enqueue_uncommitted: "uncommitted (enqueue R urlparse s arg)"
  unfolding uncommitted_def enqueue_def
  by (intro keeps_intros insert_uncommitted [unfolded uncommitted_def])

lemma enqueue_wf: "keeps wf_db (enqueue R urlparse s arg)"
  unfolding enqueue_def by (intro keeps_intros insert_wf)

lemma enqueue_handler_uncommitted: "uncommitted (enqueue_handler R urlparse s common payload metadata)"
  unfolding uncommitted_def enqueue_handler_def
  by (intro keeps_intros enqueue_uncommitted [unfolded uncommitted_def])

lemma enqueue_http_uncommitted:
  "uncommitted (enqueue_http R urlparse s common method url json body hs metadata)"
  unfolding uncommitted_def enqueue_http_def
  by (intro keeps_intros enqueue_uncommitted [unfolded uncommitted_def])

text \<open>The row the result names is in the queue asked for, under the key asked for.\<close>

lemma enqueue_row:
  assumes "enqueue R urlparse s arg t = (Inr res, t')" and "wf_db (working t)" and "wf_db (committed t)"
    and "validated_request arg = Inr r"
  shows "\<exists>j \<in> set (jobs (working t')). j_id j = er_job_id res \<and> j_queue_name j = r_queue_name r \<and>
      j_idempotency_key j = r_idempotency_key r \<and>
      (if er_created res then jobs (working t') = jobs (working t) @ [j] \<and> j_status j = Pending
       else jobs (working t') = jobs (working t) \<and> r_idempotency_key r \<noteq> None)"
proof -
  from assms(1,4) obtain payload j where
    ins: "jr_insert_job R (request_params r payload) t = (Inr (j, er_created res), t')"
    and id: "er_job_id res = j_id j"
    by (auto elim!: enqueue_Inr)
  show ?thesis
  proof (cases "er_created res")
    case True
    with ins insert_created [of "request_params r payload" t j t'] assms(2) id show ?thesis
      by (auto simp: request_params_def)
  next
    case False
    with ins insert_existing [of "request_params r payload" t j t'] assms(2,3) id show ?thesis
      by (auto simp: request_params_def)
  qed
qed

end

end
