(* ===== verification/Executors.thy ===== *)
theory Executors imports Enqueue begin

text \<open>
  Running a job: the results (\<open>worker/dispatcher.py\<close>), the handler registry (\<open>worker/handlers.py\<close>) with
  its executor (\<open>worker/python_executor.py\<close>), and the HTTP executor (\<open>worker/http_executor.py\<close>). What a
  handler does, what the HTTP client returns, and the clock are parameters.
\<close>

section \<open>Results and dispatch\<close>

datatype outcome = Out_succeeded | Out_retryable_failure | Out_permanent_failure | Out_timeout

record executor_result =
  x_outcome :: outcome
  x_error_type :: "string option"
  x_error_message :: "string option"
  x_response_status :: "int option"
  x_response_body_preview :: "string option"
  x_duration_ms :: int

type_synonym executor = "job_row \<Rightarrow> exn + executor_result"

definition dispatch :: "executor \<Rightarrow> executor \<Rightarrow> job_row \<Rightarrow> exn + executor_result" where
  "dispatch http_executor handler_executor job =
     (if j_kind job = ''http'' then http_executor job
      else if j_kind job = ''handler'' then handler_executor job
      else Inr \<lparr>x_outcome = Out_permanent_failure, x_error_type = Some ''unknown_job_kind'',
                x_error_message = Some ''Unknown job kind'', x_response_status = None,
                x_response_body_preview = None, x_duration_ms = 0\<rparr>)"

text \<open>\<open>max(0, int((time.monotonic() - started) * 1000))\<close>, the clock read in exact seconds.\<close>

definition duration_ms :: "rat \<Rightarrow> rat \<Rightarrow> int" where
  "duration_ms started finished =
     (let x = (finished - started) * 1000 in max 0 (if x < 0 then \<lceil>x\<rceil> else \<lfloor>x\<rfloor>))"

section \<open>The handler registry\<close>

type_synonym 'h registry = "(string \<times> 'h) list"

text \<open>
  A candidate is a callable and whether it is a coroutine function. With a handler \<open>register\<close> registers
  it; without one it returns the decorator, which registers the handler it is applied to in the registry
  of that moment.
\<close>

definition decorator :: "string \<Rightarrow> bool \<times> 'h \<Rightarrow> 'h registry \<Rightarrow> exn + 'h registry" where
  "decorator name candidate handlers =
     (if \<not> fst candidate then Inl (ValidationError ''Handler must be async'')
      else if name \<in> fst ` set handlers then Inl (ValidationError ''Handler name already registered'')
      else Inr (handlers @ [(name, snd candidate)]))"

datatype 'h registration =
    Registered "'h registry"
  | Decorator "bool \<times> 'h \<Rightarrow> 'h registry \<Rightarrow> exn + 'h registry"

definition register :: "string \<Rightarrow> (bool \<times> 'h) option \<Rightarrow> 'h registry \<Rightarrow> exn + 'h registration" where
  "register name handler handlers =
     (if name = [] then Inl (ValidationError ''Handler name is required'')
      else case handler of
        None \<Rightarrow> Inr (Decorator (decorator name))
      | Some candidate \<Rightarrow> map_sum id Registered (decorator name candidate handlers))"

definition get_handler :: "string \<Rightarrow> 'h registry \<Rightarrow> exn + 'h" where
  "get_handler name handlers =
     (case map_of handlers name of None \<Rightarrow> Inl (KeyError name) | Some h \<Rightarrow> Inr h)"

text \<open>A handler is found under its name once it is registered, and stays what it was.\<close>

lemma decorator_Inr:
  "decorator name candidate handlers = Inr handlers' \<longleftrightarrow>
     fst candidate \<and> name \<notin> fst ` set handlers \<and> handlers' = handlers @ [(name, snd candidate)]"
  by (auto simp: decorator_def)

lemma decorator_get:
  assumes "decorator name candidate handlers = Inr handlers'"
  shows "get_handler n handlers' = (if n = name then Inr (snd candidate) else get_handler n handlers)"
proof -
  have "map_of handlers name = None"
    using assms by (simp add: decorator_Inr map_of_eq_None_iff)
  then show ?thesis
    using assms by (auto simp: decorator_Inr get_handler_def map_add_def split: option.splits)
qed

lemma register_twice:
  assumes "register name (Some candidate) handlers = Inr (Registered handlers')"
  shows "register name (Some candidate') handlers' =
    Inl (ValidationError (if fst candidate' then ''Handler name already registered'' else ''Handler must be async''))"
  using assms by (cases "decorator name candidate handlers") (auto simp: register_def decorator_Inr decorator_def split: if_splits)

section \<open>The handler executor\<close>

text \<open>
  What awaiting a handler with a payload under the timeout leads to: it returns, it raises an
  \<open>Exception\<close>, or the timeout expires, which raises \<open>TimeoutError\<close>. A handler that is cancelled is the
  runner's case.
\<close>

datatype handler_event = Returned | Raised exn

definition handler_result :: "outcome \<Rightarrow> string option \<Rightarrow> string option \<Rightarrow> int \<Rightarrow> executor_result" where
  "handler_result out error_type error_message ms =
     \<lparr>x_outcome = out, x_error_type = error_type, x_error_message = error_message,
      x_response_status = None, x_response_body_preview = None, x_duration_ms = ms\<rparr>"

definition python_execute ::
  "'h registry \<Rightarrow> ('h \<Rightarrow> dict \<Rightarrow> int \<Rightarrow> handler_event) \<Rightarrow> rat \<Rightarrow> rat \<Rightarrow> job_row \<Rightarrow> executor_result" where
  "python_execute handlers run started finished job =
     (let ms = duration_ms started finished
      in case get_handler (j_name job) handlers of
           Inl e \<Rightarrow> handler_result Out_permanent_failure (Some (exn_name e)) (Some ''Handler not registered'') ms
         | Inr h \<Rightarrow>
             (case run h (j_payload job) (j_timeout_seconds job) of
                Returned \<Rightarrow> handler_result Out_succeeded None None ms
              | Raised (TimeoutError m) \<Rightarrow>
                  handler_result Out_timeout (Some ''TimeoutError'') (Some ''Handler timed out'') ms
              | Raised (RetryableJobError m) \<Rightarrow>
                  handler_result Out_retryable_failure (Some ''RetryableJobError'') (Some m) ms
              | Raised e \<Rightarrow>
                  handler_result Out_permanent_failure (Some (exn_name e)) (Some (exn_message e)) ms))"

section \<open>The HTTP executor\<close>

definition RETRYABLE_HTTP_STATUSES :: "int list" where
  "RETRYABLE_HTTP_STATUSES = [408, 409, 425, 429]"

definition PERMANENT_HTTP_STATUSES :: "int list" where
  "PERMANENT_HTTP_STATUSES = [400, 401, 403, 404, 405, 410, 413, 415, 422]"

definition RESPONSE_PREVIEW_BYTES :: nat where
  "RESPONSE_PREVIEW_BYTES = 2000"

text \<open>\<open>headers[name] = value\<close>\<close>

fun set_header :: "string \<Rightarrow> string \<Rightarrow> (string \<times> string) list \<Rightarrow> (string \<times> string) list" where
  "set_header n v [] = [(n, v)]"
| "set_header n v ((m, w) # hs) = (if m = n then (m, v) # hs else (m, w) # set_header n v hs)"

definition idempotency_header :: "string \<Rightarrow> bool" where
  "idempotency_header n \<longleftrightarrow> lower n = ''idempotency-key''"

definition truthy :: "string option \<Rightarrow> bool" where
  "truthy v \<longleftrightarrow> v \<noteq> None \<and> v \<noteq> Some []"

definition http_headers :: "job_row \<Rightarrow> http_payload \<Rightarrow> (string \<times> string) list" where
  "http_headers job payload =
     (let h1 = set_header ''X-PgRelay-Job-Id'' (uuid_str (j_id job)) (h_headers payload);
          h2 = set_header ''X-PgRelay-Attempt'' (int_str (j_attempt_count job)) h1;
          h3 = (if truthy (j_trace_id job)
                then set_header ''X-PgRelay-Trace-Id'' (the_default [] (j_trace_id job)) h2 else h2)
      in if truthy (j_idempotency_key job) \<and> \<not> list_ex (\<lambda>(n, v). idempotency_header n) h3
         then set_header ''Idempotency-Key'' (the_default [] (j_idempotency_key job)) h3 else h3)"

text \<open>\<open>base64.b64decode(..., validate=True)\<close> is a parameter; it fails with \<open>binascii.Error\<close>.\<close>

definition http_content :: "(string \<Rightarrow> 'b option) \<Rightarrow> http_payload \<Rightarrow> exn + 'b option" where
  "http_content b64decode payload =
     (case h_body_base64 payload of
        None \<Rightarrow> Inr None
      | Some b \<Rightarrow>
          (case b64decode b of
             None \<Rightarrow> Inl (ValidationError ''Invalid base64 request body'')
           | Some bytes \<Rightarrow> Inr (Some bytes)))"

text \<open>The loop over the chunks of the body: it stops as soon as 2000 bytes are held.\<close>

fun read_chunks :: "nat \<Rightarrow> 'b list list \<Rightarrow> 'b list list" where
  "read_chunks held [] = []"
| "read_chunks held (chunk # rest) =
     (let remaining = RESPONSE_PREVIEW_BYTES - held;
          chunk_preview = take remaining chunk;
          held' = held + length chunk_preview
      in if RESPONSE_PREVIEW_BYTES \<le> held' then [chunk_preview] else chunk_preview # read_chunks held' rest)"

definition read_response_preview :: "('b list \<Rightarrow> string) \<Rightarrow> 'b list list \<Rightarrow> string" where
  "read_response_preview decode chunks = decode (concat (read_chunks 0 chunks))"

definition classify_response :: "int \<Rightarrow> string \<Rightarrow> int \<Rightarrow> executor_result" where
  "classify_response status preview ms =
     (let message = Some (''HTTP status '' @ int_str status);
          (out, error_type, error_message) =
            (if 200 \<le> status \<and> status < 300 then (Out_succeeded, None, None)
             else if status \<in> set RETRYABLE_HTTP_STATUSES \<or> 500 \<le> status
               then (Out_retryable_failure, Some ''http_status'', message)
             else if status \<in> set PERMANENT_HTTP_STATUSES \<or> (300 \<le> status \<and> status < 400)
               then (Out_permanent_failure, Some ''http_status'', message)
             else (Out_permanent_failure, Some ''http_status'', message))
      in \<lparr>x_outcome = out, x_error_type = error_type, x_error_message = error_message,
          x_response_status = Some status, x_response_body_preview = Some preview, x_duration_ms = ms\<rparr>)"

definition http_failure :: "outcome \<Rightarrow> string \<Rightarrow> string \<Rightarrow> int option \<Rightarrow> int \<Rightarrow> executor_result" where
  "http_failure out error_type error_message status ms =
     \<lparr>x_outcome = out, x_error_type = Some error_type, x_error_message = Some (take 2000 error_message),
      x_response_status = status, x_response_body_preview = None, x_duration_ms = ms\<rparr>"

text \<open>
  What can come out of the body of \<open>execute\<close>: the response, an \<open>httpx\<close> error with its class among
  those the handlers name, or another exception.
\<close>

datatype httpx_class = Httpx_Timeout | Httpx_Network | Httpx_Proxy | Httpx_Protocol
  | Httpx_UnsupportedProtocol | Httpx_InvalidURL | Httpx_Other

datatype 'b http_answer =
    Response int "'b list list"
  | Httpx_error httpx_class string string
  | Http_exn exn

record 'b http_request =
  q_method :: string
  q_url :: string
  q_headers :: "(string \<times> string) list"
  q_json :: "json option"
  q_content :: "'b list option"
  q_timeout :: int

definition http_event ::
  "url_parser \<Rightarrow> (string \<Rightarrow> 'b list option) \<Rightarrow> ('b http_request \<Rightarrow> 'b http_answer) \<Rightarrow> settings \<Rightarrow>
    job_row \<Rightarrow> 'b http_answer" where
  "http_event urlparse b64decode client s job =
     (case http_payload_validate (j_payload job) of Inl e \<Rightarrow> Http_exn e | Inr payload \<Rightarrow>
     (case validate_headers (h_headers payload) of Inl e \<Rightarrow> Http_exn e | Inr _ \<Rightarrow>
     (case validate_url_syntax urlparse (h_url payload) of Inl e \<Rightarrow> Http_exn e | Inr hostname \<Rightarrow>
     (case validate_allowed_host hostname (get_allowed_hosts s) of Inl e \<Rightarrow> Http_exn e | Inr _ \<Rightarrow>
     (case http_content b64decode payload of Inl e \<Rightarrow> Http_exn e | Inr content \<Rightarrow>
        client \<lparr>q_method = h_method payload, q_url = h_url payload,
                q_headers = http_headers job payload, q_json = h_json payload, q_content = content,
                q_timeout = min (j_timeout_seconds job) (http_max_timeout_seconds s)\<rparr>)))))"

text \<open>\<open>TimeoutError\<close> is an \<open>OSError\<close>; pydantic's \<open>ValidationError\<close> is not PgRelay's.\<close>

fun http_result :: "('b list \<Rightarrow> string) \<Rightarrow> int \<Rightarrow> 'b http_answer \<Rightarrow> exn + executor_result" where
  "http_result decode ms (Response status chunks) =
     Inr (classify_response status (read_response_preview decode chunks) ms)"
| "http_result decode ms (Httpx_error cls name msg) =
     (case cls of
        Httpx_Timeout \<Rightarrow> Inr (http_failure Out_timeout name msg None ms)
      | Httpx_Network \<Rightarrow> Inr (http_failure Out_retryable_failure name msg None ms)
      | Httpx_Proxy \<Rightarrow> Inr (http_failure Out_retryable_failure name msg None ms)
      | Httpx_Protocol \<Rightarrow> Inr (http_failure Out_permanent_failure name msg None ms)
      | Httpx_UnsupportedProtocol \<Rightarrow> Inr (http_failure Out_permanent_failure name msg None ms)
      | Httpx_InvalidURL \<Rightarrow> Inr (http_failure Out_permanent_failure name msg None ms)
      | Httpx_Other \<Rightarrow> Inl (OtherException name msg))"
| "http_result decode ms (Http_exn (OSError m)) =
     Inr (http_failure Out_retryable_failure ''OSError'' m None ms)"
| "http_result decode ms (Http_exn (TimeoutError m)) =
     Inr (http_failure Out_retryable_failure ''TimeoutError'' m None ms)"
| "http_result decode ms (Http_exn (ValidationError m)) =
     Inr (http_failure Out_permanent_failure ''ValidationError'' m None ms)"
| "http_result decode ms (Http_exn e) = Inl e"

definition http_execute ::
  "url_parser \<Rightarrow> (string \<Rightarrow> 'b list option) \<Rightarrow> ('b list \<Rightarrow> string) \<Rightarrow> ('b http_request \<Rightarrow> 'b http_answer) \<Rightarrow>
    settings \<Rightarrow> rat \<Rightarrow> rat \<Rightarrow> job_row \<Rightarrow> exn + executor_result" where
  "http_execute urlparse b64decode decode client s started finished job =
     http_result decode (duration_ms started finished) (http_event urlparse b64decode client s job)"

section \<open>The contract of an executor\<close>

text \<open>
  What the runner relies on of \<open>JobExecutor\<close>: durations are not negative, and a result names an error
  exactly when the job did not succeed.
\<close>

definition result_ok :: "executor_result \<Rightarrow> bool" where
  "result_ok r \<longleftrightarrow> 0 \<le> x_duration_ms r \<and> (x_outcome r = Out_succeeded \<longleftrightarrow> x_error_type r = None)"

locale job_executor =
  fixes exec :: executor
  assumes exec_result_ok: "exec job = Inr r \<Longrightarrow> result_ok r"

locale job_executors = http: job_executor http_executor + handler: job_executor handler_executor
  for http_executor handler_executor :: executor
begin

lemma dispatch_result_ok: "dispatch http_executor handler_executor job = Inr r \<Longrightarrow> result_ok r"
  by (auto simp: dispatch_def result_ok_def split: if_splits
      dest!: http.exec_result_ok [unfolded result_ok_def] handler.exec_result_ok [unfolded result_ok_def])

end

lemma duration_ms_nonneg [simp]: "0 \<le> duration_ms a b"
  by (simp add: duration_ms_def Let_def)

lemma classify_response_ok: "0 \<le> ms \<Longrightarrow> result_ok (classify_response st preview ms)"
  by (simp add: classify_response_def result_ok_def Let_def)

lemma http_failure_ok: "0 \<le> ms \<Longrightarrow> out \<noteq> Out_succeeded \<Longrightarrow> result_ok (http_failure out n m st ms)"
  by (simp add: http_failure_def result_ok_def)

lemma http_result_ok: "0 \<le> ms \<Longrightarrow> http_result decode ms ev = Inr r \<Longrightarrow> result_ok r"
  by (induction decode ms ev rule: http_result.induct)
    (auto simp: classify_response_ok http_failure_ok split: httpx_class.splits)

lemma python_execute_ok: "result_ok (python_execute handlers run started finished job)"
  by (auto simp: python_execute_def handler_result_def result_ok_def Let_def
      split: sum.split handler_event.split exn.split)

interpretation http_exec: job_executor "http_execute urlparse b64decode decode client s started finished"
  for urlparse b64decode decode client s started finished
  by unfold_locales (simp add: http_execute_def http_result_ok [OF duration_ms_nonneg])

interpretation handler_exec: job_executor "\<lambda>job. Inr (python_execute handlers run started finished job)"
  for handlers run started finished
  by unfold_locales (auto simp: python_execute_ok)

interpretation worker_execs: job_executors
  "http_execute urlparse b64decode decode client s started finished"
  "\<lambda>job. Inr (python_execute handlers run started' finished' job)"
  for urlparse b64decode decode client s started finished handlers run started' finished'
  by unfold_locales

section \<open>Facts on the HTTP executor\<close>

lemma read_chunks_concat:
  "concat (read_chunks n chunks) = take (RESPONSE_PREVIEW_BYTES - n) (concat chunks)"
proof (induction n chunks rule: read_chunks.induct)
  case (2 n chunk rest)
  show ?case
  proof (cases "RESPONSE_PREVIEW_BYTES \<le> n + length (take (RESPONSE_PREVIEW_BYTES - n) chunk)")
    case True
    then have "RESPONSE_PREVIEW_BYTES - n \<le> length chunk" by (simp add: min_def split: if_splits)
    with True show ?thesis by (simp add: Let_def)
  next
    case False
    then have "length chunk < RESPONSE_PREVIEW_BYTES - n" by (simp add: min_def split: if_splits)
    with False 2 show ?thesis by (simp add: Let_def)
  qed
qed simp

lemma map_of_set_header: "map_of (set_header n v hs) k = (if k = n then Some v else map_of hs k)"
  by (induction n v hs rule: set_header.induct) auto

lemma set_header_names: "fst ` set (set_header n v hs) = insert n (fst ` set hs)"
  by (induction n v hs rule: set_header.induct) auto

lemma distinct_set_header: "distinct (map fst hs) \<Longrightarrow> distinct (map fst (set_header n v hs))"
proof (induction n v hs rule: set_header.induct)
  case (2 n v m w hs)
  then show ?case using set_header_names [of n v hs] by (auto simp: image_iff)
qed simp

text \<open>The header a request carries under a name the executor does not set is the payload's.\<close>

lemma http_headers_lookup:
  assumes "n \<notin> {''X-PgRelay-Job-Id'', ''X-PgRelay-Attempt'', ''X-PgRelay-Trace-Id'', ''Idempotency-Key''}"
  shows "map_of (http_headers job p) n = map_of (h_headers p) n"
  using assms by (simp add: http_headers_def Let_def map_of_set_header)

lemma http_headers_job_id: "map_of (http_headers job p) ''X-PgRelay-Job-Id'' = Some (uuid_str (j_id job))"
  by (simp add: http_headers_def Let_def map_of_set_header)

lemma list_ex_set_header:
  "list_ex (\<lambda>(n, v). P n) (set_header m w hs) \<longleftrightarrow> P m \<or> list_ex (\<lambda>(n, v). P n) hs"
  by (induction m w hs rule: set_header.induct) auto

lemma own_headers_not_idempotency:
  "\<not> idempotency_header ''X-PgRelay-Job-Id''" "\<not> idempotency_header ''X-PgRelay-Attempt''"
  "\<not> idempotency_header ''X-PgRelay-Trace-Id''" "idempotency_header ''Idempotency-Key''"
  by code_simp+

text \<open>The idempotency key is sent unless the payload has such a header, in any case of its letters.\<close>

lemma http_headers_idempotency:
  assumes "j_idempotency_key job = Some k" and "k \<noteq> []"
  shows "if list_ex (\<lambda>(n, v). idempotency_header n) (h_headers p)
    then map_of (http_headers job p) ''Idempotency-Key'' = map_of (h_headers p) ''Idempotency-Key''
    else map_of (http_headers job p) ''Idempotency-Key'' = Some k"
  using assms
  by (simp add: http_headers_def Let_def list_ex_set_header own_headers_not_idempotency truthy_def
      map_of_set_header)

lemma classify_outcome:
  "x_outcome (classify_response st preview ms) =
     (if 200 \<le> st \<and> st < 300 then Out_succeeded
      else if st \<in> {408, 409, 425, 429} \<or> 500 \<le> st then Out_retryable_failure
      else Out_permanent_failure)"
  by (simp add: classify_response_def Let_def RETRYABLE_HTTP_STATUSES_def)

lemma http_event_of_valid:
  assumes "http_payload_validate (j_payload job) = Inr p" and "validate_headers (h_headers p) = Inr ()"
    and "validate_url_syntax urlparse (h_url p) = Inr h"
    and "validate_allowed_host h (get_allowed_hosts s) = Inr ()"
  shows "http_event urlparse b64decode client s job =
    (case http_content b64decode p of
       Inl e \<Rightarrow> Http_exn e
     | Inr content \<Rightarrow> client \<lparr>q_method = h_method p, q_url = h_url p, q_headers = http_headers job p,
         q_json = h_json p, q_content = content,
         q_timeout = min (j_timeout_seconds job) (http_max_timeout_seconds s)\<rparr>)"
  using assms by (simp add: http_event_def)

end
