(* ===== verification/Purge_Service.thy ===== *)
theory Purge_Service imports Protocols Settings begin

text \<open>
  Purging (\<open>services/purge.py\<close>): one batch per transaction until a batch is not full. The loop is a
  partial function, so that not returning is a value; the last section proves that it returns.
\<close>

section \<open>Operations\<close>

definition purge_batch :: "job_repository \<Rightarrow> settings \<Rightarrow> purge_result tx" where
  "purge_batch repository s =
     jr_purge_jobs repository (retention_succeeded_days s) (retention_dead_letter_days s)
       (nat (purge_batch_size s))"

text \<open>\<open>PurgeSummary\<close> with its \<open>total\<close>, and the three counters of the loop.\<close>

record purge_summary =
  ps_succeeded :: nat
  ps_dead_letter :: nat
  ps_cancelled :: nat

definition summary_total :: "purge_summary \<Rightarrow> nat" where
  "summary_total a = ps_succeeded a + ps_dead_letter a + ps_cancelled a"

definition add_results :: "purge_summary \<Rightarrow> purge_result \<Rightarrow> purge_summary" where
  "add_results a b =
     \<lparr>ps_succeeded = ps_succeeded a + pr_succeeded b,
      ps_dead_letter = ps_dead_letter a + pr_dead_letter b,
      ps_cancelled = ps_cancelled a + pr_cancelled b\<rparr>"

definition no_results :: purge_summary where
  "no_results = \<lparr>ps_succeeded = 0, ps_dead_letter = 0, ps_cancelled = 0\<rparr>"

text \<open>\<open>envs k\<close> is what the environment brings to the transaction of batch \<open>k\<close>.\<close>

partial_function (option) purge_loop ::
  "job_repository \<Rightarrow> settings \<Rightarrow> (nat \<Rightarrow> env) \<Rightarrow> nat \<Rightarrow> purge_summary \<Rightarrow> db \<Rightarrow>
    ((exn + purge_summary) \<times> db) option" where
  "purge_loop repository s envs k acc d =
     (case transact (envs k) (purge_batch repository s) d of
        (Inl e, d') \<Rightarrow> Some (Inl e, d')
      | (Inr result, d') \<Rightarrow>
          if int (purge_total result) < purge_batch_size s
          then Some (Inr (add_results acc result), d')
          else purge_loop repository s envs (Suc k) (add_results acc result) d')"

definition purge_until_done ::
  "job_repository \<Rightarrow> settings \<Rightarrow> (nat \<Rightarrow> env) \<Rightarrow> db \<Rightarrow> ((exn + purge_summary) \<times> db) option" where
  "purge_until_done repository s envs d = purge_loop repository s envs 0 no_results d"

section \<open>The loop returns\<close>

lemma purge_total_add [simp]: "summary_total (add_results a b) = summary_total a + purge_total b"
  by (simp add: summary_total_def purge_total_def add_results_def)

lemma purge_total_none [simp]: "summary_total no_results = 0"
  by (simp add: summary_total_def no_results_def)

context job_store
begin

lemma purge_batch_transact:
  assumes "transact e (purge_batch R s) d = (Inr res, d')" and "wf_db d" and "0 < purge_batch_size s"
  shows "wf_db d'" and "length (jobs d') + purge_total res = length (jobs d)"
    and "int (purge_total res) \<le> purge_batch_size s"
proof -
  from assms(1) obtain t where p: "purge_batch R s (open_session e d) = (Inr res, t)" and d': "d' = working t"
    by (rule transact_InrD)
  have wf: "wf_db (working (open_session e d))" "wf_db (committed (open_session e d))"
    using assms(2) by simp_all
  note purge = p [unfolded purge_batch_def]
  show "wf_db d'"
    unfolding d' by (rule keepsD_working [OF purge_wf wf(2,1) purge])
  show "length (jobs d') + purge_total res = length (jobs d)"
    and "int (purge_total res) \<le> purge_batch_size s"
    using purge_size [OF purge wf(1)] assms(3) d' by auto
qed

text \<open>A full batch removes at least one row, so the number of rows bounds the number of batches.\<close>

lemma purge_loop_returns:
  assumes "wf_db d" and "0 < purge_batch_size s"
  shows "\<exists>r d'. purge_loop R s envs k acc d = Some (r, d') \<and> wf_db d' \<and>
    (\<forall>res. r = Inr res \<longrightarrow> length (jobs d') + summary_total res = length (jobs d) + summary_total acc)"
  using assms(1)
proof (induction "length (jobs d)" arbitrary: d k acc rule: less_induct)
  case less
  obtain r d1 where t: "transact (envs k) (purge_batch R s) d = (r, d1)"
    by (cases "transact (envs k) (purge_batch R s) d")
  have keeps: "keeps wf_db (purge_batch R s)" unfolding purge_batch_def by (rule purge_wf)
  have wf1: "wf_db d1" using transact_keeps [OF keeps less.prems, of "envs k"] t by simp
  show ?case
  proof (cases r)
    case (Inl e)
    with t wf1 show ?thesis by (subst purge_loop.simps) simp
  next
    case (Inr res)
    note batch = purge_batch_transact [OF t [unfolded Inr] less.prems assms(2)]
    show ?thesis
    proof (cases "int (purge_total res) < purge_batch_size s")
      case True
      with t Inr batch show ?thesis by (subst purge_loop.simps) auto
    next
      case False
      with batch assms(2) have "length (jobs d1) < length (jobs d)" by simp
      from less.hyps [OF this wf1, of "Suc k" "add_results acc res"]
      obtain r' d2 where rec: "purge_loop R s envs (Suc k) (add_results acc res) d1 = Some (r', d2)"
        "wf_db d2" "\<forall>x. r' = Inr x \<longrightarrow>
          length (jobs d2) + summary_total x = length (jobs d1) + summary_total (add_results acc res)"
        by blast
      moreover from False t Inr have "purge_loop R s envs k acc d =
          purge_loop R s envs (Suc k) (add_results acc res) d1"
        by (subst purge_loop.simps) simp
      ultimately show ?thesis using batch(2) by auto
    qed
  qed
qed

end

section \<open>Nothing purgeable is left\<close>

lemma purge_partial_complete:
  assumes "purge_jobs sd dd n s = (Inr r, s')" and "purge_total r < n" and "j \<in> set (jobs (working s'))"
  shows "\<not> purgeable (now s) sd dd j"
proof
  assume p: "purgeable (now s) sd dd j"
  let ?all = "sort_key (\<lambda>j. the_default (now s) (j_completed_at j))
      (filter (purgeable (now s) sd dd) (jobs (working s)))"
  from assms(2) have "length (take n ?all) < n"
    using purge_total_picked [OF assms(1)] by (simp add: purge_picked_def)
  then have all: "purge_picked sd dd n (now s) (working s) = ?all"
    unfolding purge_picked_def by (rule take_short_all)
  from assms(3) obtain k where k: "k \<in> set (jobs (working s))"
    "j_id k \<notin> j_id ` set (purge_picked sd dd n (now s) (working s))"
    "\<exists>g. j = forget_source g k"
    unfolding purge_jobs_Inr(1) [OF assms(1)] by auto
  with p have "purgeable (now s) sd dd k"
    by (auto simp: purgeable_def completed_before_def)
  with k(1) all have "k \<in> set (purge_picked sd dd n (now s) (working s))" by simp
  with k(2) show False by blast
qed

lemma purgeable_mono: "purgeable t sd dd j \<Longrightarrow> t \<le> t' \<Longrightarrow> purgeable t' sd dd j"
  by (auto simp: purgeable_def completed_before_def split: option.splits)

text \<open>The batch that ends the loop.\<close>

lemma purge_batch_complete:
  assumes "transact e (purge_batch JobRepository s) d = (Inr res, d')"
    and "int (purge_total res) < purge_batch_size s" and "j \<in> set (jobs d')"
  shows "\<not> purgeable (e_now e) (retention_succeeded_days s) (retention_dead_letter_days s) j"
proof -
  from assms(1) obtain t where p: "purge_batch JobRepository s (open_session e d) = (Inr res, t)"
    and d': "d' = working t"
    by (rule transact_InrD)
  have "purge_total res < nat (purge_batch_size s)" using assms(2) by simp
  from purge_partial_complete [OF p [unfolded purge_batch_def, simplified] this, of j] assms(3) d'
  show ?thesis by simp
qed

lemma purge_loop_complete:
  assumes "purge_loop JobRepository s envs k acc d = Some (Inr res, d')"
    and "wf_db d" and "0 < purge_batch_size s" and "\<And>i. T \<le> e_now (envs i)" and "j \<in> set (jobs d')"
  shows "\<not> purgeable T (retention_succeeded_days s) (retention_dead_letter_days s) j"
  using assms(1,2)
proof (induction "length (jobs d)" arbitrary: d k acc rule: less_induct)
  case less
  obtain r d1 where t: "transact (envs k) (purge_batch JobRepository s) d = (r, d1)"
    by (cases "transact (envs k) (purge_batch JobRepository s) d")
  obtain b where r: "r = Inr b"
    using less.prems(1) t by (cases r) (auto simp: purge_loop.simps [of _ _ _ k])
  note batch = pg_jobs.purge_batch_transact [OF t [unfolded r] less.prems(2) assms(3)]
  show ?case
  proof (cases "int (purge_total b) < purge_batch_size s")
    case True
    with less.prems(1) t r have "d' = d1" by (simp add: purge_loop.simps [of _ _ _ k])
    with purge_batch_complete [OF t [unfolded r] True] assms(4,5) show ?thesis
      by (blast dest: purgeable_mono)
  next
    case False
    with batch assms(3) have "length (jobs d1) < length (jobs d)" by simp
    moreover from False less.prems(1) t r
    have "purge_loop JobRepository s envs (Suc k) (add_results acc b) d1 = Some (Inr res, d')"
      by (simp add: purge_loop.simps [of _ _ _ k])
    ultimately show ?thesis using less.hyps batch(1) by blast
  qed
qed

end
