(* ===== verification/Worker_Repository.thy ===== *)
theory Worker_Repository imports Session begin

text \<open>
  The worker registry (\<open>repositories/workers.py\<close>, \<open>services/workers.py\<close>) and the attempt history
  (\<open>repositories/attempts.py\<close>): registering a worker, its heartbeats, and who is alive.
\<close>

section \<open>Workers\<close>

text \<open>A row of the listing: the worker and whether its last heartbeat is within two minutes.\<close>

definition worker_alive :: "time \<Rightarrow> worker_row \<Rightarrow> bool" where
  "worker_alive t w \<longleftrightarrow> t - minutes 2 < w_last_heartbeat_at w"

definition register_worker_sql :: "string \<Rightarrow> string list \<Rightarrow> string \<Rightarrow> (worker_row \<times> bool) stmt" where
  "register_worker_sql worker_id qs hostname t i d =
     (let fresh = \<lparr>w_worker_id = worker_id, w_queues = qs, w_hostname = hostname,
                   w_started_at = t, w_last_heartbeat_at = t\<rparr>;
          refresh = (\<lambda>w. w\<lparr>w_queues := qs, w_hostname := hostname, w_last_heartbeat_at := t\<rparr>)
      in case find (\<lambda>w. w_worker_id w = worker_id) (workers d) of
           None \<Rightarrow> Inr ((fresh, worker_alive t fresh), d\<lparr>workers := workers d @ [fresh]\<rparr>)
         | Some w \<Rightarrow> Inr ((refresh w, worker_alive t (refresh w)),
             d\<lparr>workers := upd_where (\<lambda>w. w_worker_id w = worker_id) refresh (workers d)\<rparr>))"

definition register_worker :: "string \<Rightarrow> string list \<Rightarrow> string \<Rightarrow> (worker_row \<times> bool) tx" where
  "register_worker worker_id qs hostname =
     catch_sql ''Worker registration failed'' (execute (register_worker_sql worker_id qs hostname))"

definition heartbeat_sql :: "string \<Rightarrow> nat stmt" where
  "heartbeat_sql worker_id t i d =
     (let p = (\<lambda>w. w_worker_id w = worker_id)
      in Inr (count_where p (workers d),
              d\<lparr>workers := upd_where p (\<lambda>w. w\<lparr>w_last_heartbeat_at := t\<rparr>) (workers d)\<rparr>))"

definition heartbeat :: "string \<Rightarrow> bool tx" where
  "heartbeat worker_id =
     catch_sql ''Worker heartbeat failed''
       (bind_tx (execute (heartbeat_sql worker_id)) (\<lambda>rowcount. return_tx (0 < rowcount)))"

definition list_workers :: "(worker_row \<times> bool) list tx" where
  "list_workers =
     catch_sql ''Worker list failed''
       (execute (query (\<lambda>t d. map (\<lambda>w. (w, worker_alive t w)) (sort_key w_worker_id (workers d)))))"

text \<open>The operations of \<open>WorkerRepositoryProtocol\<close>, and the service that lists (\<open>services/workers.py\<close>).\<close>

record worker_repository =
  wr_register_worker :: "string \<Rightarrow> string list \<Rightarrow> string \<Rightarrow> (worker_row \<times> bool) tx"
  wr_heartbeat :: "string \<Rightarrow> bool tx"
  wr_list_workers :: "(worker_row \<times> bool) list tx"

definition WorkerRepository :: worker_repository where
  "WorkerRepository =
     \<lparr>wr_register_worker = register_worker, wr_heartbeat = heartbeat, wr_list_workers = list_workers\<rparr>"

text \<open>\<open>WorkerResponse\<close> has the columns of the row and its liveness.\<close>

definition worker_response :: "worker_row \<times> bool \<Rightarrow> worker_row \<times> bool" where
  "worker_response r =
     (\<lparr>w_worker_id = w_worker_id (fst r), w_queues = w_queues (fst r), w_hostname = w_hostname (fst r),
       w_started_at = w_started_at (fst r), w_last_heartbeat_at = w_last_heartbeat_at (fst r)\<rparr>, snd r)"

definition service_list_workers :: "worker_repository \<Rightarrow> (worker_row \<times> bool) list tx" where
  "service_list_workers repository =
     bind_tx (wr_list_workers repository) (\<lambda>rows. return_tx (map worker_response rows))"

text \<open>\<open>WorkerRunner._heartbeat_worker\<close>: a missing row is registered again.\<close>

definition heartbeat_worker :: "string \<Rightarrow> string list \<Rightarrow> string \<Rightarrow> unit tx" where
  "heartbeat_worker worker_id qs hostname =
     bind_tx (heartbeat worker_id) (\<lambda>updated.
       if \<not> updated then bind_tx (register_worker worker_id qs hostname) (\<lambda>_. return_tx ())
       else return_tx ())"

section \<open>Attempts\<close>

definition to_attempt_row :: "attempt_row \<Rightarrow> attempt_row" where
  "to_attempt_row m =
     \<lparr>a_id = a_id m, a_job_id = a_job_id m, a_attempt_number = a_attempt_number m,
      a_worker_id = a_worker_id m, a_status = a_status m, a_started_at = a_started_at m,
      a_finished_at = a_finished_at m, a_duration_ms = a_duration_ms m,
      a_error_type = a_error_type m, a_error_message = a_error_message m,
      a_response_status = a_response_status m, a_response_body_preview = a_response_body_preview m\<rparr>"

definition list_by_job_id :: "uuid \<Rightarrow> attempt_row list tx" where
  "list_by_job_id job_id =
     catch_sql ''Attempt list failed''
       (bind_tx (execute (query (\<lambda>t d.
          sort_key a_started_at (filter (\<lambda>a. a_job_id a = job_id) (attempts d))))) (\<lambda>ms.
        return_tx (map to_attempt_row ms)))"

text \<open>The operation of \<open>AttemptRepositoryProtocol\<close>.\<close>

record attempt_repository =
  ar_list_by_job_id :: "uuid \<Rightarrow> attempt_row list tx"

definition AttemptRepository :: attempt_repository where
  "AttemptRepository = \<lparr>ar_list_by_job_id = list_by_job_id\<rparr>"

section \<open>Facts\<close>

lemma repository_simps [simp]:
  "wr_register_worker WorkerRepository = register_worker" "wr_heartbeat WorkerRepository = heartbeat"
  "wr_list_workers WorkerRepository = list_workers" "ar_list_by_job_id AttemptRepository = list_by_job_id"
  by (simp_all add: WorkerRepository_def AttemptRepository_def)

lemma to_attempt_row_id [simp]: "to_attempt_row m = m"
  by (simp add: to_attempt_row_def)

lemma map_to_attempt_row [simp]: "map to_attempt_row ms = ms"
  by (induction ms) simp_all

lemma wf_db_workers:
  "wf_db d \<Longrightarrow> distinct (map w_worker_id ws) \<Longrightarrow> wf_db (d\<lparr>workers := ws\<rparr>)"
  by (simp add: wf_db_def schema_ok_def)

lemma wf_db_distinct_workers: "wf_db d \<Longrightarrow> distinct (map w_worker_id (workers d))"
  by (simp add: wf_db_def schema_ok_def)

lemma stmt_keeps_register [wf_intros]: "stmt_keeps wf_db (register_worker_sql w qs h)"
  by (rule stmt_keepsI)
    (auto simp: register_worker_sql_def Let_def find_key_None distinct_map_upd_where
      wf_db_distinct_workers image_iff find_None_iff intro!: wf_db_workers split: option.splits)

lemma stmt_keeps_heartbeat [wf_intros]: "stmt_keeps wf_db (heartbeat_sql w)"
  by (rule stmt_keepsI)
    (auto simp: heartbeat_sql_def Let_def distinct_map_upd_where wf_db_distinct_workers intro!: wf_db_workers)

lemma keeps_register [wf_intros]: "keeps wf_db (register_worker w qs h)"
  unfolding register_worker_def by (intro keeps_intros wf_intros)

lemma keeps_heartbeat [wf_intros]: "keeps wf_db (heartbeat w)"
  unfolding heartbeat_def by (intro keeps_intros wf_intros)

lemma keeps_heartbeat_worker [wf_intros]: "keeps wf_db (heartbeat_worker w qs h)"
  unfolding heartbeat_worker_def by (intro keeps_intros wf_intros)

lemma uncommitted_heartbeat_worker: "uncommitted (heartbeat_worker w qs h)"
  unfolding uncommitted_def heartbeat_worker_def heartbeat_def register_worker_def
  by (intro keeps_intros)

lemma uncommitted_register_worker: "uncommitted (register_worker w qs h)"
  unfolding uncommitted_def register_worker_def by (intro keeps_intros)

lemma register_worker_sql_frame:
  "register_worker_sql w qs h t i d = Inr (x, d') \<Longrightarrow>
    jobs d' = jobs d \<and> attempts d' = attempts d \<and> queues d' = queues d \<and>
    (\<exists>r \<in> set (workers d'). w_worker_id r = w \<and> w_last_heartbeat_at r = t \<and> w_queues r = qs)"
  by (auto simp: register_worker_sql_def Let_def split: option.splits dest!: find_SomeD
      intro!: upd_where_hit)

lemma heartbeat_sql_frame:
  "heartbeat_sql w t i d = Inr (n, d') \<Longrightarrow>
    jobs d' = jobs d \<and> attempts d' = attempts d \<and> queues d' = queues d \<and>
    (0 < n \<longrightarrow> (\<exists>r \<in> set (workers d'). w_worker_id r = w \<and> w_last_heartbeat_at r = t))"
  by (auto simp: heartbeat_sql_def Let_def count_where_pos intro!: upd_where_hit)

lemma heartbeat_worker_Inr:
  assumes "heartbeat_worker w qs h s = (Inr u, s')"
  shows "jobs (working s') = jobs (working s)" and "attempts (working s') = attempts (working s)"
    and "queues (working s') = queues (working s)"
    and "\<exists>r \<in> set (workers (working s')). w_worker_id r = w \<and> w_last_heartbeat_at r = now s"
  using assms
  by (auto simp: heartbeat_worker_def heartbeat_def register_worker_def bind_tx_Inr_iff execute_Inr_iff
      dest!: register_worker_sql_frame heartbeat_sql_frame split: if_splits)

lemma register_worker_Inr:
  assumes "register_worker w qs h s = (Inr u, s')"
  shows "jobs (working s') = jobs (working s)" and "attempts (working s') = attempts (working s)"
    and "queues (working s') = queues (working s)"
  using assms
  by (auto simp: register_worker_def bind_tx_Inr_iff execute_Inr_iff dest!: register_worker_sql_frame split: if_splits)

end
