(* ===== verification/Backoff.thy ===== *)
theory Backoff imports Settings begin

text \<open>
  The retry delay (\<open>worker/backoff.py\<close>). The rounding of floating-point results and the random draw
  are parameters: \<open>rnd\<close> rounds an exact result to a float, \<open>uniform a b\<close> is \<open>random.uniform(a, b)\<close>.
\<close>

text \<open>\<open>int(x)\<close> truncates towards zero.\<close>

definition trunc :: "rat \<Rightarrow> int" where
  "trunc x = (if x < 0 then \<lceil>x\<rceil> else \<lfloor>x\<rfloor>)"

definition base_delay :: "int \<Rightarrow> settings \<Rightarrow> int" where
  "base_delay attempt_count s =
     (let exponent = max (attempt_count - 1) 0
      in min (retry_base_seconds s * 2 ^ nat exponent) (retry_max_seconds s))"

definition calculate_retry_delay_seconds ::
  "(rat \<Rightarrow> rat) \<Rightarrow> (rat \<Rightarrow> rat \<Rightarrow> rat) \<Rightarrow> int \<Rightarrow> settings \<Rightarrow> int" where
  "calculate_retry_delay_seconds rnd uniform attempt_count s =
     (let base = base_delay attempt_count s;
          jitter = rnd (of_int base * retry_jitter_ratio s);
          delayed = rnd (of_int base + uniform (- jitter) jitter)
      in max 1 (min (retry_max_seconds s) (trunc delayed)))"

text \<open>
  What the code relies on: rounding is monotone and exact on the integers a float holds; a draw lies
  between its bounds.
\<close>

definition rounding :: "(rat \<Rightarrow> rat) \<Rightarrow> bool" where
  "rounding rnd \<longleftrightarrow>
     (\<forall>x y. x \<le> y \<longrightarrow> rnd x \<le> rnd y) \<and> (\<forall>n. \<bar>n\<bar> \<le> 2 ^ 53 \<longrightarrow> rnd (of_int n) = of_int n)"

definition draws_between :: "(rat \<Rightarrow> rat \<Rightarrow> rat) \<Rightarrow> bool" where
  "draws_between uniform \<longleftrightarrow> (\<forall>a b. a \<le> b \<longrightarrow> a \<le> uniform a b \<and> uniform a b \<le> b)"

section \<open>Facts\<close>

lemma trunc_of_int [simp]: "trunc (of_int n) = n"
  by (simp add: trunc_def)

lemma trunc_mono: "x \<le> y \<Longrightarrow> trunc x \<le> trunc y"
proof -
  assume "x \<le> y"
  moreover have "\<lceil>x\<rceil> \<le> \<lfloor>y\<rfloor>" if "x < 0" "\<not> y < 0"
    using that by (meson ceiling_le_zero dual_order.trans less_eq_rat_def not_less zero_le_floor)
  ultimately show ?thesis
    by (auto simp: trunc_def floor_mono ceiling_mono)
qed

lemma retry_delay_bounds:
  "1 \<le> retry_max_seconds s \<Longrightarrow>
    1 \<le> calculate_retry_delay_seconds rnd uniform n s \<and>
    calculate_retry_delay_seconds rnd uniform n s \<le> retry_max_seconds s"
  by (simp add: calculate_retry_delay_seconds_def Let_def)

lemma base_delay_bounds:
  assumes "retry_fields_ok s"
  shows "1 \<le> base_delay n s" and "base_delay n s \<le> retry_max_seconds s" and "base_delay n s \<le> 86400"
proof -
  have r: "1 \<le> retry_base_seconds s" "1 \<le> retry_max_seconds s" "retry_max_seconds s \<le> 86400"
    using assms by (simp_all add: retry_fields_ok_def in_range_def)
  have "(1::int) * 1 \<le> retry_base_seconds s * 2 ^ k" for k
    using r(1) by (intro mult_mono) simp_all
  then show "1 \<le> base_delay n s" "base_delay n s \<le> retry_max_seconds s" "base_delay n s \<le> 86400"
    using r by (auto simp: base_delay_def Let_def)
qed

lemma base_delay_mono:
  assumes "retry_fields_ok s" and "m \<le> n"
  shows "base_delay m s \<le> base_delay n s"
proof -
  have "(2::int) ^ nat (max (m - 1) 0) \<le> 2 ^ nat (max (n - 1) 0)"
    using assms(2) by (intro power_increasing) auto
  then have "retry_base_seconds s * 2 ^ nat (max (m - 1) 0) \<le> retry_base_seconds s * 2 ^ nat (max (n - 1) 0)"
    using assms(1) by (intro mult_left_mono) (simp_all add: retry_fields_ok_def in_range_def)
  then show ?thesis by (auto simp: base_delay_def Let_def)
qed

text \<open>Until it reaches the cap, the delay doubles with every attempt.\<close>

lemma base_delay_double:
  assumes "1 \<le> n" and "retry_base_seconds s * 2 ^ nat n \<le> retry_max_seconds s" and "retry_fields_ok s"
  shows "base_delay (n + 1) s = 2 * base_delay n s"
proof -
  define k where "k = nat (n - 1)"
  have k: "nat n = Suc k" using assms(1) by (simp add: k_def)
  have "retry_base_seconds s * 2 ^ k \<le> retry_base_seconds s * 2 ^ Suc k"
    using assms(3) by (simp add: retry_fields_ok_def in_range_def)
  moreover have "base_delay (n + 1) s = min (retry_base_seconds s * 2 ^ Suc k) (retry_max_seconds s)"
    "base_delay n s = min (retry_base_seconds s * 2 ^ k) (retry_max_seconds s)"
    using assms(1) k by (simp_all add: base_delay_def Let_def flip: k_def)
  ultimately show ?thesis
    using assms(2) k by simp
qed

lemma jitter_bounds:
  fixes n :: int
  assumes "retry_fields_ok s" and "rounding rnd"
  defines "jitter \<equiv> rnd (of_int (base_delay n s) * retry_jitter_ratio s)"
  shows "0 \<le> jitter" and "jitter \<le> of_int (base_delay n s)"
proof -
  let ?b = "base_delay n s"
  have b: "1 \<le> ?b" "?b \<le> 86400" using base_delay_bounds [OF assms(1)] by simp_all
  have r: "0 \<le> retry_jitter_ratio s" "retry_jitter_ratio s \<le> 1"
    using assms(1) by (simp_all add: retry_fields_ok_def)
  have exact: "rnd (of_int ?b) = of_int ?b" "rnd (of_int 0) = of_int 0"
    using assms(2) b unfolding rounding_def by (auto simp del: of_int_0)
  have "rnd (of_int 0) \<le> jitter"
    using assms(2) b r unfolding rounding_def jitter_def by simp
  with exact show "0 \<le> jitter" by simp
  have "of_int ?b * retry_jitter_ratio s \<le> of_int ?b"
    using b r by (simp add: mult_left_le)
  then have "jitter \<le> rnd (of_int ?b)"
    using assms(2) unfolding rounding_def jitter_def by blast
  with exact show "jitter \<le> of_int ?b" by simp
qed

lemma retry_delay_le_double:
  assumes "retry_fields_ok s" and "rounding rnd" and "draws_between uniform"
  shows "calculate_retry_delay_seconds rnd uniform n s \<le> 2 * base_delay n s"
proof -
  let ?b = "base_delay n s"
  define jitter where "jitter = rnd (of_int ?b * retry_jitter_ratio s)"
  note j = jitter_bounds [OF assms(1,2), of n, folded jitter_def]
  have b: "1 \<le> ?b" "?b \<le> 86400" using base_delay_bounds [OF assms(1)] by simp_all
  have "uniform (- jitter) jitter \<le> jitter"
    using assms(3) j(1) by (simp add: draws_between_def)
  with j(2) have "of_int ?b + uniform (- jitter) jitter \<le> of_int (2 * ?b)" by simp
  then have "rnd (of_int ?b + uniform (- jitter) jitter) \<le> rnd (of_int (2 * ?b))"
    using assms(2) unfolding rounding_def by blast
  also have "\<dots> = of_int (2 * ?b)"
    using assms(2) b unfolding rounding_def by (auto simp del: of_int_mult)
  finally have "trunc (rnd (of_int ?b + uniform (- jitter) jitter)) \<le> 2 * ?b"
    using trunc_mono trunc_of_int by metis
  with b(1) show ?thesis
    by (simp add: calculate_retry_delay_seconds_def Let_def flip: jitter_def)
qed

lemma retry_delay_no_jitter:
  assumes "retry_fields_ok s" and "rounding rnd" and "draws_between uniform" and "retry_jitter_ratio s = 0"
  shows "calculate_retry_delay_seconds rnd uniform n s = base_delay n s"
proof -
  let ?b = "base_delay n s"
  have b: "1 \<le> ?b" "?b \<le> retry_max_seconds s" "?b \<le> 86400"
    using base_delay_bounds [OF assms(1)] by simp_all
  have rnd: "rnd 0 = 0" "rnd (of_int ?b) = of_int ?b"
    using assms(2) b unfolding rounding_def by (metis abs_zero of_int_0 zero_le_numeral zero_le_power, auto)
  have "uniform 0 0 = 0"
    using assms(3) unfolding draws_between_def by (metis order_antisym order_refl)
  with rnd b show ?thesis
    by (simp add: calculate_retry_delay_seconds_def Let_def assms(4))
qed

end
