(* ===== verification/Lifecycle.thy ===== *)
theory Lifecycle imports Claim Job_State Worker_Repository begin

text \<open>
  The life of a job as the documentation draws it (\<open>docs/architecture.md\<close>, "Job States"), as an
  abstract machine, and the proof that every transaction of the repository moves every job by at
  most one step of it. The machine also carries what the drawing leaves out: who runs the job, the
  attempts used and the attempts allowed.
\<close>

section \<open>The abstract machine\<close>

datatype life =
    Absent
  | Waiting int int
  | Running string int int
  | Done
  | Dead
  | Dropped

inductive life_step :: "life \<Rightarrow> life \<Rightarrow> bool" where
  enqueued: "life_step Absent (Waiting 0 m)"
| claimed: "n < m \<Longrightarrow> life_step (Waiting n m) (Running w (n + 1) m)"
| succeeded: "life_step (Running w n m) Done"
| requeued: "life_step (Running w n m) (Waiting n m)"
| handed_back: "life_step (Running w n m) (Waiting (max (n - 1) 0) m)"
| buried: "life_step (Running w n m) Dead"
| dropped: "life_step (Waiting n m) Dropped"
| purged_done: "life_step Done Absent"
| purged_dead: "life_step Dead Absent"
| purged_dropped: "life_step Dropped Absent"

inductive_cases life_step_from_Done: "life_step Done l"
inductive_cases life_step_from_Dead: "life_step Dead l"
inductive_cases life_step_from_Dropped: "life_step Dropped l"

inductive_simps life_step_to_Running: "life_step l (Running w n m)"

definition life_moves :: "life \<Rightarrow> life \<Rightarrow> bool" where
  "life_moves a b \<longleftrightarrow> b = a \<or> life_step a b"

lemma life_moves_refl [simp]: "life_moves a a"
  by (simp add: life_moves_def)

lemma life_moves_step: "life_step a b \<Longrightarrow> life_moves a b"
  by (simp add: life_moves_def)

section \<open>Abstraction\<close>

fun life_of :: "job_row option \<Rightarrow> life" where
  "life_of None = Absent"
| "life_of (Some j) =
     (case j_status j of
        Pending \<Rightarrow> Waiting (j_attempt_count j) (j_max_attempts j)
      | Leased \<Rightarrow> Running (the_default '''' (j_locked_by j)) (j_attempt_count j) (j_max_attempts j)
      | Succeeded \<Rightarrow> Done
      | Dead_letter \<Rightarrow> Dead
      | Cancelled \<Rightarrow> Dropped)"

definition life :: "db \<Rightarrow> uuid \<Rightarrow> life" where
  "life d i = life_of (job_by_id i d)"

definition evolves :: "db \<Rightarrow> db \<Rightarrow> bool" where
  "evolves d d' \<longleftrightarrow> (\<forall>i. life_moves (life d i) (life d' i))"

lemma evolves_refl [simp]: "evolves d d"
  by (simp add: evolves_def)

lemma evolves_same_jobs: "jobs d' = jobs d \<Longrightarrow> evolves d d'"
  by (simp add: evolves_def life_def job_by_id_def)

lemma evolves_upd_where:
  assumes "jobs d' = upd_where p f (jobs d)" and "\<And>j. j_id (f j) = j_id j"
    and "\<And>j. j \<in> set (jobs d) \<Longrightarrow> p j \<Longrightarrow> life_moves (life_of (Some j)) (life_of (Some (f j)))"
  shows "evolves d d'"
  unfolding evolves_def
proof
  fix i
  have "job_by_id i d' = map_option (\<lambda>j. if p j then f j else j) (job_by_id i d)"
    unfolding job_by_id_def assms(1) by (rule find_upd_where) (rule assms(2))
  then show "life_moves (life d i) (life d' i)"
    using assms(3) by (cases "job_by_id i d") (auto simp: life_def dest: job_by_id_SomeD)
qed

lemma evolves_append:
  assumes "jobs d' = jobs d @ [j]" and "j_id j \<notin> j_id ` set (jobs d)"
    and "j_status j = Pending" and "j_attempt_count j = 0"
  shows "evolves d d'"
  unfolding evolves_def
proof
  fix i
  have app: "find P (xs @ ys) = (case find P xs of None \<Rightarrow> find P ys | Some x \<Rightarrow> Some x)"
    for P and xs ys :: "job_row list"
    by (induction xs) auto
  have none: "find (\<lambda>k. j_id k = j_id j) (jobs d) = None"
    using assms(2) by (simp add: find_key_None)
  then have "job_by_id i d' = (if i = j_id j then Some j else job_by_id i d)"
    using assms(1) by (auto simp: job_by_id_def app split: option.split)
  moreover from none have "job_by_id (j_id j) d = None"
    by (simp add: job_by_id_def)
  ultimately show "life_moves (life d i) (life d' i)"
    using assms(3,4) by (auto simp: life_def life_moves_def intro: life_step.enqueued)
qed

lemma job_by_id_delete:
  "job_by_id i (delete_jobs g d) = (if i \<in> g then None else map_option (forget_source g) (job_by_id i d))"
proof -
  have "find (\<lambda>j. j_id j = i) (map (forget_source g) (filter (\<lambda>j. j_id j \<notin> g) js)) =
      (if i \<in> g then None else map_option (forget_source g) (find (\<lambda>j. j_id j = i) js))" for js
    by (induction js) auto
  then show ?thesis by (simp add: job_by_id_def)
qed

lemma life_of_forget_source: "life_of (map_option (forget_source g) v) = life_of v"
  by (cases v) (auto simp: forget_source_def split: option.split job_status.split)

lemma evolves_delete_jobs:
  assumes "\<And>i j. i \<in> g \<Longrightarrow> job_by_id i d = Some j \<Longrightarrow> terminal (j_status j)"
  shows "evolves d (delete_jobs g d)"
  unfolding evolves_def
proof
  fix i
  show "life_moves (life d i) (life (delete_jobs g d) i)"
  proof (cases "i \<in> g")
    case False
    then show ?thesis by (simp add: life_def job_by_id_delete life_of_forget_source)
  next
    case True
    then show ?thesis
    proof (cases "job_by_id i d")
      case (Some j)
      with assms [OF True Some] True show ?thesis
        by (cases "j_status j")
          (auto simp: life_def job_by_id_delete intro!: life_moves_step intro: life_step.intros)
    qed (simp add: life_def job_by_id_delete)
  qed
qed

lemma evolves_scan_order:
  assumes "wf_db d" and "mset js = mset (jobs d)"
  shows "evolves d (d\<lparr>jobs := js\<rparr>)"
proof -
  have set: "set js = set (jobs d)" and dist: "distinct (map j_id js)"
    using assms wf_db_distinct_ids [OF assms(1)]
    by (metis mset_eq_setD, metis mset_eq_imp_distinct_iff mset_map)
  have "find (\<lambda>j. j_id j = i) js = find (\<lambda>j. j_id j = i) (jobs d)" for i
  proof (cases "find (\<lambda>j. j_id j = i) (jobs d)")
    case None
    then have "i \<notin> j_id ` set js" by (simp add: find_key_None set)
    then have "find (\<lambda>j. j_id j = i) js = None" by (simp add: find_key_None)
    with None show ?thesis by simp
  next
    case (Some j)
    then have "j \<in> set js \<and> j_id j = i"
      by (auto simp: set dest: find_SomeD)
    then have "find (\<lambda>j. j_id j = i) js = Some j"
      by (simp only: find_key_iff [OF dist])
    with Some show ?thesis by simp
  qed
  then show ?thesis by (simp add: evolves_def life_def job_by_id_def)
qed

section \<open>Transactions refine the machine\<close>

text \<open>Either a transaction raised and changed nothing, or its body returned.\<close>

lemma transact_cases:
  assumes "uncommitted m" and "P d"
    and "\<And>x s. m (open_session e d) = (Inr x, s) \<Longrightarrow> P (working s)"
  shows "P (snd (transact e m d))"
proof -
  obtain r s where m: "m (open_session e d) = (r, s)" by (cases "m (open_session e d)")
  show ?thesis
  proof (cases r)
    case (Inl x)
    with m transact_raise [OF assms(1), of e d x] assms(2) show ?thesis
      by (simp add: transact_Inl)
  next
    case (Inr x)
    with m assms(3) show ?thesis by (simp add: transact_Inr)
  qed
qed

named_theorems evolves_intros \<open>transactions move each job by at most one step\<close>

lemma evolves_insert_job [evolves_intros]:
  assumes "wf_db d"
  shows "evolves d (snd (transact e (insert_job p) d))"
proof (rule transact_cases [OF uncommitted_job_ops(1)])
  fix x s assume ins: "insert_job p (open_session e d) = (Inr x, s)"
  obtain j b where x: "x = (j, b)" by (cases x)
  show "evolves d (working s)"
  proof (cases b)
    case True
    with ins x have "insert_job p (open_session e d) = (Inr (j, True), s)" by simp
    from insert_job_created [OF this] assms show ?thesis
      by (intro evolves_append) auto
  next
    case False
    with ins x have "insert_job p (open_session e d) = (Inr (j, False), s)" by simp
    from insert_job_existing(1) [OF this] assms show ?thesis
      by (intro evolves_same_jobs) simp
  qed
qed simp

lemma evolves_claim_jobs [evolves_intros]:
  assumes "wf_db d"
  shows "evolves d (snd (transact e (claim_jobs w names n ls) d))"
proof (rule transact_cases [OF uncommitted_job_ops(4)])
  fix x s assume cl: "claim_jobs w names n ls (open_session e d) = (Inr x, s)"
  have wf: "wf_db (working (open_session e d))" using assms by simp
  show "evolves d (working s)"
  proof (rule evolves_upd_where)
    show "jobs (working s) = upd_where (\<lambda>j. j \<in> set (picked_jobs (e_locked e) names n (e_now e) d))
        (lease_job (e_now e) w ls) (jobs d)"
      using claim_jobs_Inr(1) [OF wf cl] by simp
    fix j assume "j \<in> set (picked_jobs (e_locked e) names n (e_now e) d)"
    then have "claimable (e_now e) (j_queue_name j) j" by (blast dest: picked_jobs_claimable)
    then show "life_moves (life_of (Some j)) (life_of (Some (lease_job (e_now e) w ls j)))"
      by (auto simp: claimable_def intro!: life_moves_step life_step.claimed)
  qed simp
qed simp

lemma evolves_extend_lease [evolves_intros]: "evolves d (snd (transact e (extend_lease i w n) d))"
proof (rule transact_cases [OF uncommitted_state_ops(1)])
  fix x s assume "extend_lease i w n (open_session e d) = (Inr x, s)"
  from extend_lease_Inr(2) [OF this, unfolded open_session_simps] show "evolves d (working s)"
    by (rule evolves_upd_where) (simp_all add: owned_def)
qed simp

lemma evolves_return_leased [evolves_intros]:
  "evolves d (snd (transact e (return_leased_job_to_pending i w) d))"
proof (rule transact_cases [OF uncommitted_state_ops(2)])
  fix x s assume "return_leased_job_to_pending i w (open_session e d) = (Inr x, s)"
  from return_leased_Inr(2) [OF this, unfolded open_session_simps] show "evolves d (working s)"
    by (rule evolves_upd_where)
      (auto simp: owned_def intro!: life_moves_step life_step.handed_back)
qed simp

lemma evolves_complete_job [evolves_intros]:
  "evolves d (snd (transact e (complete_job j w ms r b) d))"
proof (rule transact_cases [OF uncommitted_state_ops(3)])
  fix x s assume "complete_job j w ms r b (open_session e d) = (Inr x, s)"
  from complete_job_Inr(2) [OF this, unfolded open_session_simps] show "evolves d (working s)"
    by (rule evolves_upd_where)
      (auto simp: owned_def completed_def intro!: life_moves_step life_step.succeeded)
qed simp

lemma evolves_fail_job [evolves_intros]:
  "evolves d (snd (transact e (fail_job j w rt to n ms et em r b) d))"
proof (rule transact_cases [OF uncommitted_state_ops(4)])
  fix x s assume "fail_job j w rt to n ms et em r b (open_session e d) = (Inr x, s)"
  from fail_job_Inr(2) [OF this, unfolded open_session_simps] show "evolves d (working s)"
    by (rule evolves_upd_where)
      (auto simp: owned_def failed_def intro!: life_moves_step life_step.requeued life_step.buried)
qed simp

lemma evolves_recover [evolves_intros]:
  assumes "wf_db d"
  shows "evolves d (snd (transact e (recover_expired_leases n) d))"
proof (rule transact_cases [OF uncommitted_state_ops(5)])
  fix x s assume rec: "recover_expired_leases n (open_session e d) = (Inr x, s)"
  have wf: "wf_db (working (open_session e d))" using assms by simp
  from recover_expired_leases_Inr(2) [OF rec wf, unfolded open_session_simps] show "evolves d (working s)"
    by (rule evolves_upd_where)
      (auto simp: recover_job_def Let_def lease_is_expired_def dest!: expired_jobs_expired
        intro!: life_moves_step life_step.requeued life_step.buried)
qed simp

lemma evolves_cancel [evolves_intros]: "evolves d (snd (transact e (cancel_pending_job i) d))"
proof (rule transact_cases [OF uncommitted_state_ops(6)])
  fix x s assume "cancel_pending_job i (open_session e d) = (Inr x, s)"
  from cancel_pending_job_Inr(3) [OF this, unfolded open_session_simps] show "evolves d (working s)"
    by (rule evolves_upd_where)
      (auto simp: cancelled_def intro!: life_moves_step life_step.dropped)
qed simp

lemma evolves_purge [evolves_intros]:
  assumes "wf_db d"
  shows "evolves d (snd (transact e (purge_jobs sd dd n) d))"
proof (rule transact_cases [OF uncommitted_state_ops(7)])
  fix x s assume "purge_jobs sd dd n (open_session e d) = (Inr x, s)"
  from purge_jobs_Inr(1) [OF this]
  have w: "working s = delete_jobs (j_id ` set (purge_picked sd dd n (e_now e) d)) d" by simp
  show "evolves d (working s)"
    unfolding w
  proof (rule evolves_delete_jobs)
    fix i j assume i: "i \<in> j_id ` set (purge_picked sd dd n (e_now e) d)" and j: "job_by_id i d = Some j"
    then obtain k where k: "k \<in> set (jobs d)" "purgeable (e_now e) sd dd k" "j_id k = i"
      by (auto dest: purge_picked_purgeable)
    with j have "k = j" by (metis job_by_id_iff assms option.inject)
    with k show "terminal (j_status j)" by (auto simp: purgeable_def)
  qed
qed simp

lemma evolves_upsert_queue [evolves_intros]: "evolves d (snd (transact e (upsert_queue q) d))"
  by (rule transact_cases [OF uncommitted_queue_ops(2)])
    (auto intro!: evolves_same_jobs dest!: upsert_queue_frame(1))

lemma evolves_update_queue [evolves_intros]: "evolves d (snd (transact e (update_queue q p l) d))"
  by (rule transact_cases [OF uncommitted_queue_ops(3)])
    (auto intro!: evolves_same_jobs dest!: update_queue_Inr(5))

lemma evolves_register_worker [evolves_intros]:
  "evolves d (snd (transact e (register_worker w qs h) d))"
  by (rule transact_cases [OF uncommitted_register_worker])
    (auto intro!: evolves_same_jobs dest!: register_worker_Inr(1))

lemma evolves_heartbeat_worker [evolves_intros]:
  "evolves d (snd (transact e (heartbeat_worker w qs h) d))"
  by (rule transact_cases [OF uncommitted_heartbeat_worker])
    (auto intro!: evolves_same_jobs dest!: heartbeat_worker_Inr(1))

end
