(* ===== verification/System.thy ===== *)
theory System imports Lifecycle begin

text \<open>
  PgRelay's database under any interleaving of its transactions: a step relation with one rule per
  repository transaction, the reachable databases, and the invariants of all of them. A worker keeps
  the row it claimed while it runs the job and hands that row back with the result; the relation
  comes in two versions, one in which the attempt count of that row is still current when a failure
  is recorded and one in which it may be stale.
\<close>

section \<open>Steps\<close>

text \<open>
  The row a worker hands back agrees, in its attempt counters, with the row it would update.
\<close>

definition current_row :: "job_row \<Rightarrow> string \<Rightarrow> db \<Rightarrow> bool" where
  "current_row job w d \<longleftrightarrow>
     (\<forall>k \<in> set (jobs d). owned (j_id job) w k \<longrightarrow>
        j_attempt_count k = j_attempt_count job \<and> j_max_attempts k = j_max_attempts job)"

inductive repo_step :: "bool \<Rightarrow> db \<Rightarrow> db \<Rightarrow> bool" for strict :: bool where
  s_insert: "repo_step strict d (snd (transact e (insert_job p) d))"
| s_claim: "repo_step strict d (snd (transact e (claim_jobs w names n ls) d))"
| s_extend: "repo_step strict d (snd (transact e (extend_lease i w ls) d))"
| s_return: "repo_step strict d (snd (transact e (return_leased_job_to_pending i w) d))"
| s_complete: "repo_step strict d (snd (transact e (complete_job job w ms r prev) d))"
| s_fail: "(strict \<longrightarrow> current_row job w d) \<Longrightarrow>
    repo_step strict d (snd (transact e (fail_job job w rt timed_out delay ms et em r prev) d))"
| s_recover: "repo_step strict d (snd (transact e (recover_expired_leases n) d))"
| s_cancel: "repo_step strict d (snd (transact e (cancel_pending_job i) d))"
| s_purge: "repo_step strict d (snd (transact e (purge_jobs sd dd n) d))"
| s_upsert_queue: "repo_step strict d (snd (transact e (upsert_queue q) d))"
| s_update_queue: "repo_step strict d (snd (transact e (update_queue q paused limit) d))"
| s_register: "repo_step strict d (snd (transact e (register_worker w qs host) d))"
| s_heartbeat: "repo_step strict d (snd (transact e (heartbeat_worker w qs host) d))"
| s_scan_order: "mset js = mset (jobs d) \<Longrightarrow> repo_step strict d (d\<lparr>jobs := js\<rparr>)"

inductive reachable :: "bool \<Rightarrow> db \<Rightarrow> bool" for strict :: bool where
  start: "reachable strict empty_db"
| step: "reachable strict d \<Longrightarrow> repo_step strict d d' \<Longrightarrow> reachable strict d'"

section \<open>Well-formedness\<close>

lemma wf_scan_order:
  assumes "wf_db d" and "mset js = mset (jobs d)"
  shows "wf_db (d\<lparr>jobs := js\<rparr>)"
proof -
  have s: "set js = set (jobs d)"
    using assms(2) by (rule mset_eq_setD)
  have "distinct (map j_id js)"
    using assms wf_db_distinct_ids [OF assms(1)] by (metis mset_eq_imp_distinct_iff mset_map)
  moreover have "distinct (idem_entries js)"
    using assms by (intro distinct_idem_entries_perm [of js "jobs d"]) (simp_all add: wf_db_def schema_ok_def)
  ultimately show ?thesis
    using assms(1) by (simp add: wf_db_def schema_ok_def s)
qed

lemma wf_repo_step: "repo_step strict d d' \<Longrightarrow> wf_db d \<Longrightarrow> wf_db d'"
  by (induction rule: repo_step.induct)
    (simp_all add: wf_scan_order transact_keeps wf_intros)

lemma reachable_wf: "reachable strict d \<Longrightarrow> wf_db d"
proof (induction rule: reachable.induct)
  case start
  show ?case by (rule wf_empty_db)
next
  case (step d d')
  then show ?case by (blast intro: wf_repo_step)
qed

section \<open>Every step refines the life of every job\<close>

lemma repo_step_evolves:
  assumes "repo_step strict d d'" and "wf_db d"
  shows "evolves d d'"
  using assms by (induction rule: repo_step.induct) (simp_all add: evolves_scan_order evolves_intros)

section \<open>Pending jobs with no attempts left\<close>

definition live_pending :: "job_row \<Rightarrow> bool" where
  "live_pending j \<longleftrightarrow> (j_status j = Pending \<longrightarrow> j_attempt_count j < j_max_attempts j)"

definition no_stuck :: "db \<Rightarrow> bool" where
  "no_stuck d \<longleftrightarrow> (\<forall>j \<in> set (jobs d). live_pending j)"

lemma no_stuck_upd_where:
  assumes "no_stuck d" and "jobs d' = upd_where p f (jobs d)"
    and "\<And>j. j \<in> set (jobs d) \<Longrightarrow> p j \<Longrightarrow> live_pending (f j)"
  shows "no_stuck d'"
  using assms by (auto simp: no_stuck_def set_upd_where)

lemma no_stuck_same_jobs: "no_stuck d \<Longrightarrow> jobs d' = jobs d \<Longrightarrow> no_stuck d'"
  by (simp add: no_stuck_def)

named_theorems no_stuck_intros \<open>transactions that leave no pending job without attempts\<close>

lemma no_stuck_insert [no_stuck_intros]:
  assumes "wf_db d" and "no_stuck d"
  shows "no_stuck (snd (transact e (insert_job p) d))"
proof (rule transact_cases [OF uncommitted_job_ops(1)])
  fix x s assume ins: "insert_job p (open_session e d) = (Inr x, s)"
  have wf: "wf_db (working s)"
    by (rule keepsD_working [OF keeps_insert_job _ _ ins]) (simp_all add: assms(1))
  obtain j b where x: "x = (j, b)" by (cases x)
  show "no_stuck (working s)"
  proof (cases b)
    case True
    with ins x have "insert_job p (open_session e d) = (Inr (j, True), s)" by simp
    from insert_job_created(1,2) [OF this] assms(1)
    have jobs: "jobs (working s) = jobs d @ [j]" and new: "j_attempt_count j = 0" by auto
    with wf have "0 < j_max_attempts j"
      by (auto simp: wf_db_def schema_ok_def job_checks_def)
    with assms(2) jobs new show ?thesis by (auto simp: no_stuck_def live_pending_def)
  next
    case False
    with ins x have "insert_job p (open_session e d) = (Inr (j, False), s)" by simp
    from insert_job_existing(1) [OF this] assms show ?thesis
      by (intro no_stuck_same_jobs [OF assms(2)]) simp
  qed
qed (rule assms(2))

lemma no_stuck_claim [no_stuck_intros]:
  assumes "wf_db d" and "no_stuck d"
  shows "no_stuck (snd (transact e (claim_jobs w names n ls) d))"
proof (rule transact_cases [OF uncommitted_job_ops(4)])
  fix x s assume cl: "claim_jobs w names n ls (open_session e d) = (Inr x, s)"
  have wf: "wf_db (working (open_session e d))" using assms(1) by simp
  from claim_jobs_Inr(1) [OF wf cl, unfolded open_session_simps] show "no_stuck (working s)"
    by (rule no_stuck_upd_where [OF assms(2)]) (simp add: live_pending_def)
qed (rule assms(2))

lemma no_stuck_extend [no_stuck_intros]:
  assumes "no_stuck d"
  shows "no_stuck (snd (transact e (extend_lease i w ls) d))"
proof (rule transact_cases [OF uncommitted_state_ops(1)])
  fix x s assume "extend_lease i w ls (open_session e d) = (Inr x, s)"
  from extend_lease_Inr(2) [OF this, unfolded open_session_simps] show "no_stuck (working s)"
    by (rule no_stuck_upd_where [OF assms]) (simp add: live_pending_def owned_def)
qed (rule assms)

lemma no_stuck_return [no_stuck_intros]:
  assumes "wf_db d" and "no_stuck d"
  shows "no_stuck (snd (transact e (return_leased_job_to_pending i w) d))"
proof (rule transact_cases [OF uncommitted_state_ops(2)])
  fix x s assume "return_leased_job_to_pending i w (open_session e d) = (Inr x, s)"
  from return_leased_Inr(2) [OF this, unfolded open_session_simps] show "no_stuck (working s)"
    by (rule no_stuck_upd_where [OF assms(2)])
      (use assms(1) in \<open>auto simp: live_pending_def owned_def job_ok_def dest!: wf_db_job_ok\<close>)
qed (rule assms(2))

lemma no_stuck_complete [no_stuck_intros]:
  assumes "no_stuck d"
  shows "no_stuck (snd (transact e (complete_job job w ms r prev) d))"
proof (rule transact_cases [OF uncommitted_state_ops(3)])
  fix x s assume "complete_job job w ms r prev (open_session e d) = (Inr x, s)"
  from complete_job_Inr(2) [OF this, unfolded open_session_simps] show "no_stuck (working s)"
    by (rule no_stuck_upd_where [OF assms]) (simp add: live_pending_def completed_def)
qed (rule assms)

lemma no_stuck_fail:
  assumes "no_stuck d" and "current_row job w d"
  shows "no_stuck (snd (transact e (fail_job job w rt timed_out delay ms et em r prev) d))"
proof (rule transact_cases [OF uncommitted_state_ops(4)])
  fix x s assume "fail_job job w rt timed_out delay ms et em r prev (open_session e d) = (Inr x, s)"
  from fail_job_Inr(2) [OF this, unfolded open_session_simps] show "no_stuck (working s)"
    by (rule no_stuck_upd_where [OF assms(1)])
      (use assms(2) in \<open>auto simp: live_pending_def failed_def current_row_def\<close>)
qed (rule assms(1))

lemma no_stuck_recover [no_stuck_intros]:
  assumes "wf_db d" and "no_stuck d"
  shows "no_stuck (snd (transact e (recover_expired_leases n) d))"
proof (rule transact_cases [OF uncommitted_state_ops(5)])
  fix x s assume rec: "recover_expired_leases n (open_session e d) = (Inr x, s)"
  have wf: "wf_db (working (open_session e d))" using assms(1) by simp
  from recover_expired_leases_Inr(2) [OF rec wf, unfolded open_session_simps] show "no_stuck (working s)"
    by (rule no_stuck_upd_where [OF assms(2)]) (auto simp: live_pending_def recover_job_def Let_def)
qed (rule assms(2))

lemma no_stuck_cancel [no_stuck_intros]:
  assumes "no_stuck d"
  shows "no_stuck (snd (transact e (cancel_pending_job i) d))"
proof (rule transact_cases [OF uncommitted_state_ops(6)])
  fix x s assume "cancel_pending_job i (open_session e d) = (Inr x, s)"
  from cancel_pending_job_Inr(3) [OF this, unfolded open_session_simps] show "no_stuck (working s)"
    by (rule no_stuck_upd_where [OF assms]) (simp add: live_pending_def cancelled_def)
qed (rule assms)

lemma live_pending_forget_source [simp]: "live_pending (forget_source g j) = live_pending j"
  by (simp add: live_pending_def forget_source_def split: option.split)

lemma no_stuck_purge [no_stuck_intros]:
  assumes "no_stuck d"
  shows "no_stuck (snd (transact e (purge_jobs sd dd n) d))"
proof (rule transact_cases [OF uncommitted_state_ops(7)])
  fix x s assume "purge_jobs sd dd n (open_session e d) = (Inr x, s)"
  from purge_jobs_Inr(1) [OF this] assms show "no_stuck (working s)"
    by (simp add: no_stuck_def)
qed (rule assms)

lemma no_stuck_upsert_queue [no_stuck_intros]:
  "no_stuck d \<Longrightarrow> no_stuck (snd (transact e (upsert_queue q) d))"
  by (rule transact_cases [OF uncommitted_queue_ops(2)])
    (auto elim!: no_stuck_same_jobs dest!: upsert_queue_frame(1))

lemma no_stuck_update_queue [no_stuck_intros]:
  "no_stuck d \<Longrightarrow> no_stuck (snd (transact e (update_queue q p l) d))"
  by (rule transact_cases [OF uncommitted_queue_ops(3)])
    (auto elim!: no_stuck_same_jobs dest!: update_queue_Inr(5))

lemma no_stuck_register [no_stuck_intros]:
  "no_stuck d \<Longrightarrow> no_stuck (snd (transact e (register_worker w qs h) d))"
  by (rule transact_cases [OF uncommitted_register_worker])
    (auto elim!: no_stuck_same_jobs dest!: register_worker_Inr(1))

lemma no_stuck_heartbeat [no_stuck_intros]:
  "no_stuck d \<Longrightarrow> no_stuck (snd (transact e (heartbeat_worker w qs h) d))"
  by (rule transact_cases [OF uncommitted_heartbeat_worker])
    (auto elim!: no_stuck_same_jobs dest!: heartbeat_worker_Inr(1))

lemma no_stuck_step:
  assumes "repo_step True d d'" and "wf_db d" and "no_stuck d"
  shows "no_stuck d'"
  using assms
proof (induction rule: repo_step.induct)
  case (s_fail job w d e rt timed_out delay ms et em r prev)
  then show ?case by (blast intro: no_stuck_fail)
next
  case (s_scan_order js d)
  then show ?case using mset_eq_setD [OF s_scan_order(1)] by (simp add: no_stuck_def)
qed (simp_all add: no_stuck_intros)

end
