(* ===== verification/Runner.thy ===== *)
theory Runner imports Executors Purge_Service Worker_Repository Backoff System begin

text \<open>
  The worker (\<open>worker/runner.py\<close>, \<open>worker/heartbeat.py\<close>, \<open>worker/recovery.py\<close>): one iteration of the
  claim loop, the life of a job task with its heartbeat, the recording of results, and shutdown.
\<close>

section \<open>Recording a result\<close>

text \<open>The environment of the retry delay: rounding and the random draw.\<close>

record chance =
  ch_rnd :: "rat \<Rightarrow> rat"
  ch_uniform :: "rat \<Rightarrow> rat \<Rightarrow> rat"

definition retry_delay :: "chance \<Rightarrow> settings \<Rightarrow> job_row \<Rightarrow> int" where
  "retry_delay c s job =
     calculate_retry_delay_seconds (ch_rnd c) (ch_uniform c) (j_attempt_count job) s"

definition record_result ::
  "job_repository \<Rightarrow> chance \<Rightarrow> settings \<Rightarrow> string \<Rightarrow> job_row \<Rightarrow> executor_result \<Rightarrow> bool tx" where
  "record_result repository c s worker_id job r =
     (if x_outcome r = Out_succeeded
      then jr_complete_job repository job worker_id (x_duration_ms r) (x_response_status r)
             (x_response_body_preview r)
      else jr_fail_job repository job worker_id
             (x_outcome r \<in> {Out_retryable_failure, Out_timeout}) (x_outcome r = Out_timeout)
             (retry_delay c s job) (x_duration_ms r) (x_error_type r) (x_error_message r)
             (x_response_status r) (x_response_body_preview r))"

definition exception_result :: "exn \<Rightarrow> executor_result" where
  "exception_result e =
     \<lparr>x_outcome = Out_retryable_failure, x_error_type = Some (exn_name e),
      x_error_message = Some (take 2000 (exn_message e)), x_response_status = None,
      x_response_body_preview = None, x_duration_ms = 0\<rparr>"

text \<open>
  \<open>_dispatch_job\<close>: an HTTP job runs under a timeout of its own; \<open>expired\<close> says that it ran out, in
  which case the dispatch itself was cancelled.
\<close>

definition dispatch_job ::
  "executor \<Rightarrow> bool \<Rightarrow> rat \<Rightarrow> rat \<Rightarrow> job_row \<Rightarrow> exn + executor_result" where
  "dispatch_job dispatcher expired started finished job =
     (if j_kind job \<noteq> ''http'' then dispatcher job
      else if expired
        then Inr \<lparr>x_outcome = Out_timeout, x_error_type = Some ''TimeoutError'',
                  x_error_message = Some ''HTTP job timed out'', x_response_status = None,
                  x_response_body_preview = None, x_duration_ms = duration_ms started finished\<rparr>
      else (case dispatcher job of
              Inl (TimeoutError m) \<Rightarrow>
                Inr \<lparr>x_outcome = Out_timeout, x_error_type = Some ''TimeoutError'',
                     x_error_message = Some ''HTTP job timed out'', x_response_status = None,
                     x_response_body_preview = None, x_duration_ms = duration_ms started finished\<rparr>
            | res \<Rightarrow> res))"

section \<open>The heartbeat of a lease\<close>

text \<open>
  One environment per round of the loop while the execution is not done; the result is that of the
  task and the database it leaves. \<open>Inr False\<close> also cancels the execution.
\<close>

fun run_lease_heartbeat ::
  "job_repository \<Rightarrow> settings \<Rightarrow> uuid \<Rightarrow> string \<Rightarrow> env list \<Rightarrow> db \<Rightarrow> (exn + bool) \<times> db" where
  "run_lease_heartbeat repository s job_id worker_id [] d = (Inr True, d)"
| "run_lease_heartbeat repository s job_id worker_id (e # es) d =
     (case transact e (jr_extend_lease repository job_id worker_id (worker_lease_seconds s)) d of
        (Inl x, d') \<Rightarrow> (Inl x, d')
      | (Inr extended, d') \<Rightarrow>
          if \<not> extended then (Inr False, d')
          else run_lease_heartbeat repository s job_id worker_id es d')"

text \<open>
  How the heartbeat stands when the execution is over: still running (it is cancelled), done with a
  result or an exception, or cancelled.
\<close>

datatype heartbeat_state = Beating | Beat_done "exn + bool" | Beat_cancelled

fun finish_heartbeat :: "heartbeat_state \<Rightarrow> bool" where
  "finish_heartbeat Beating = True"
| "finish_heartbeat (Beat_done (Inr still_owned)) = still_owned"
| "finish_heartbeat (Beat_done (Inl e)) = False"
| "finish_heartbeat Beat_cancelled = False"

section \<open>The task of a job\<close>

text \<open>
  How the task of a job ends: its execution gave a result or an exception, it was cancelled before a
  result was recorded, or it was cancelled when the transaction that recorded one had already been
  committed.
\<close>

datatype execution_end =
    Finished "exn + executor_result"
  | Cancelled_execution
  | Cancelled_after_recording "exn + executor_result" env

definition result_of :: "exn + executor_result \<Rightarrow> executor_result" where
  "result_of v = (case v of Inr r \<Rightarrow> r | Inl e \<Rightarrow> exception_result e)"

text \<open>
  \<open>_execute_job\<close>: record the result while the lease is held; when cancelled, by the heartbeat or at
  shutdown, give the job back. \<open>e\<close> is the environment of the closing transaction.
\<close>

definition execute_job ::
  "job_repository \<Rightarrow> chance \<Rightarrow> settings \<Rightarrow> string \<Rightarrow> job_row \<Rightarrow> execution_end \<Rightarrow> heartbeat_state \<Rightarrow> env \<Rightarrow>
    db \<Rightarrow> db" where
  "execute_job repository c s worker_id job exec hb e d =
     (case exec of
        Finished v \<Rightarrow>
          (if finish_heartbeat hb
           then snd (transact e (record_result repository c s worker_id job (result_of v)) d)
           else d)
      | Cancelled_execution \<Rightarrow>
          snd (transact e (jr_return_leased_job_to_pending repository (j_id job) worker_id) d)
      | Cancelled_after_recording v e' \<Rightarrow>
          (let d' = (if finish_heartbeat hb
                     then snd (transact e' (record_result repository c s worker_id job (result_of v)) d)
                     else d)
           in snd (transact e (jr_return_leased_job_to_pending repository (j_id job) worker_id) d')))"

section \<open>The claim loop\<close>

definition recover :: "job_repository \<Rightarrow> settings \<Rightarrow> nat tx" where
  "recover repository s = jr_recover_expired_leases repository (nat (worker_batch_size s))"

definition claim_batch_size :: "settings \<Rightarrow> nat \<Rightarrow> nat" where
  "claim_batch_size s inflight =
     (let free_slots = worker_concurrency s - int inflight
      in nat (min (worker_batch_size s) (max 0 free_slots)))"

definition claim_transaction :: "job_repository \<Rightarrow> settings \<Rightarrow> string \<Rightarrow> nat \<Rightarrow> job_row list tx" where
  "claim_transaction repository s worker_id inflight =
     bind_tx (recover repository s) (\<lambda>_.
       if 0 < claim_batch_size s inflight
       then jr_claim_jobs repository worker_id (get_queue_names s) (claim_batch_size s inflight)
              (worker_lease_seconds s)
       else return_tx [])"

record runner =
  rn_stopping :: bool
  rn_inflight :: "(nat \<times> job_row) list"
  rn_next_task :: nat

definition request_stop :: "runner \<Rightarrow> runner" where
  "request_stop rn = rn\<lparr>rn_stopping := True\<rparr>"

fun spawn :: "job_row list \<Rightarrow> runner \<Rightarrow> runner" where
  "spawn [] rn = rn"
| "spawn (job # rest) rn =
     spawn rest (rn\<lparr>rn_inflight := rn_inflight rn @ [(rn_next_task rn, job)],
                    rn_next_task := Suc (rn_next_task rn)\<rparr>)"

definition on_inflight_done :: "nat \<Rightarrow> runner \<Rightarrow> runner" where
  "on_inflight_done task rn = rn\<lparr>rn_inflight := filter (\<lambda>(t, j). t \<noteq> task) (rn_inflight rn)\<rparr>"

text \<open>
  One iteration: heartbeat in one transaction, recovery and claim in the next; an exception in
  either is logged and the iteration starts nothing.
\<close>

definition claim_iteration ::
  "job_repository \<Rightarrow> settings \<Rightarrow> string \<Rightarrow> string \<Rightarrow> env \<Rightarrow> env \<Rightarrow> runner \<times> db \<Rightarrow> runner \<times> db" where
  "claim_iteration repository s worker_id hostname e1 e2 st =
     (case st of (rn, d) \<Rightarrow>
        if rn_stopping rn then (rn, d)
        else (case transact e1 (heartbeat_worker worker_id (get_queue_names s) hostname) d of
                (Inl x, d1) \<Rightarrow> (rn, d1)
              | (Inr _, d1) \<Rightarrow>
                  (case transact e2 (claim_transaction repository s worker_id (length (rn_inflight rn))) d1 of
                     (Inl x, d2) \<Rightarrow> (rn, d2)
                   | (Inr claimed, d2) \<Rightarrow> (spawn claimed rn, d2))))"

text \<open>
  What the loop does next: wait for a task when all slots are taken, sleep when it claimed nothing,
  and go round at once otherwise.
\<close>

datatype loop_pause = Wait_for_one_inflight | Sleep rat | Go_on

definition after_claim :: "settings \<Rightarrow> runner \<Rightarrow> job_row list \<Rightarrow> loop_pause" where
  "after_claim s rn claimed =
     (if worker_concurrency s \<le> int (length (rn_inflight rn)) then Wait_for_one_inflight
      else if claimed = [] then Sleep (worker_poll_interval_seconds s)
      else Go_on)"

text \<open>
  \<open>_shutdown_inflight\<close>: the tasks that outlive the grace period are cancelled one after the other;
  \<open>how\<close> says how each of them ends then.
\<close>

fun shutdown_inflight ::
  "job_repository \<Rightarrow> chance \<Rightarrow> settings \<Rightarrow> string \<Rightarrow> (nat \<Rightarrow> execution_end \<times> heartbeat_state) \<Rightarrow> (nat \<Rightarrow> env) \<Rightarrow>
    (nat \<times> job_row) list \<Rightarrow> db \<Rightarrow> db" where
  "shutdown_inflight repository c s worker_id how envs [] d = d"
| "shutdown_inflight repository c s worker_id how envs ((task, job) # rest) d =
     shutdown_inflight repository c s worker_id how envs rest
       (execute_job repository c s worker_id job (fst (how task)) (snd (how task)) (envs task) d)"

text \<open>Starting: the worker's own row, in a transaction of its own.\<close>

definition register_self :: "settings \<Rightarrow> string \<Rightarrow> string \<Rightarrow> env \<Rightarrow> db \<Rightarrow> (exn + unit) \<times> db" where
  "register_self s worker_id hostname e d =
     (case transact e (register_worker worker_id (get_queue_names s) hostname) d of
        (Inl x, d') \<Rightarrow> (Inl x, d')
      | (Inr _, d') \<Rightarrow> (Inr (), d'))"

text \<open>One round of \<open>_purge_loop\<close>: an exception is logged and the loop goes on.\<close>

definition purge_round :: "job_repository \<Rightarrow> settings \<Rightarrow> env \<Rightarrow> bool \<Rightarrow> db \<Rightarrow> db" where
  "purge_round repository s e stopping d =
     (if stopping then d else snd (transact e (purge_batch repository s) d))"

section \<open>What a task may do to the database\<close>

text \<open>A transaction that reports \<open>False\<close> only when it leaves its view alone.\<close>

lemma transact_false_same:
  assumes "keeps wf_db m" and "wf_db d"
    and "\<And>b s'. m (open_session e d) = (Inr b, s') \<Longrightarrow> working s' = d"
  shows "snd (transact e m d) = d"
proof -
  obtain r s' where m: "m (open_session e d) = (r, s')" by (cases "m (open_session e d)")
  have "committed s' = d"
    using keepsD_committed [OF assms(1) _ _ m] assms(2) by simp
  with m assms(3) show ?thesis
    by (cases r) (simp_all add: transact_Inl transact_Inr)
qed

context lease_store
begin

lemma record_result_wf: "keeps wf_db (record_result R c s w job r)"
  unfolding record_result_def by (intro keeps_intros complete_wf fail_wf)

lemma record_result_Inr:
  "record_result R c s w job r t = (Inr b, t') \<Longrightarrow>
    b = holds_lease (j_id job) w (working t) \<and> (\<not> b \<longrightarrow> working t' = working t)"
  unfolding record_result_def
  by (cases "x_outcome r = Out_succeeded") (simp_all add: complete_result fail_result)

lemma heartbeat_loop_wf: "wf_db d \<Longrightarrow> wf_db (snd (run_lease_heartbeat R s i w es d))"
proof (induction es arbitrary: d)
  case (Cons e es)
  have "wf_db (snd (transact e (jr_extend_lease R i w (worker_lease_seconds s)) d))"
    by (rule transact_keeps) (rule extend_wf, rule Cons.prems)
  with Cons.IH show ?case by (auto split: prod.splits sum.splits)
qed simp

lemma execute_job_wf: "wf_db d \<Longrightarrow> wf_db (execute_job R c s w job ex hb e d)"
  by (auto simp: execute_job_def Let_def transact_keeps record_result_wf return_wf split: execution_end.split)

text \<open>Without the lease a task changes nothing, however it ends.\<close>

lemma execute_job_without_lease:
  assumes "wf_db d" and "\<not> holds_lease (j_id job) w d"
  shows "execute_job R c s w job ex hb e d = d"
proof -
  have "snd (transact e' (record_result R c s w job r) d) = d" for r e'
    using assms by (intro transact_false_same record_result_wf) (auto dest: record_result_Inr)
  moreover have "snd (transact e (jr_return_leased_job_to_pending R (j_id job) w) d) = d"
    using assms by (intro transact_false_same return_wf) (auto dest: return_result)
  ultimately show ?thesis by (simp add: execute_job_def Let_def split: execution_end.split)
qed

text \<open>The heartbeat reports the loss of the lease, and changes nothing when it has been lost.\<close>

lemma heartbeat_lost:
  assumes "wf_db d" and "\<not> holds_lease i w d" and "es \<noteq> []"
  shows "run_lease_heartbeat R s i w es d \<in> {(Inr False, d)} \<union> range (\<lambda>x. (Inl x, d))"
proof -
  obtain e es' where es: "es = e # es'" using assms(3) by (cases es) auto
  obtain r t where m: "jr_extend_lease R i w (worker_lease_seconds s) (open_session e d) = (r, t)"
    by (cases "jr_extend_lease R i w (worker_lease_seconds s) (open_session e d)")
  have "committed t = d"
    using keepsD_committed [OF extend_wf _ _ m] assms(1) by simp
  then show ?thesis
    using m assms(2) extend_result [of i w "worker_lease_seconds s" "open_session e d" _ t]
    by (cases r) (auto simp: es transact_Inl transact_Inr)
qed

lemma claim_transaction_wf: "keeps wf_db (claim_transaction R s w n)"
  unfolding claim_transaction_def recover_def
  by (intro keeps_intros recover_wf claim_wf)

lemma claim_transaction_Inr:
  assumes "claim_transaction R s w n t = (Inr rows, t')" and "wf_db (working t)" and "wf_db (committed t)"
  shows "length rows \<le> claim_batch_size s n"
proof -
  from assms(1) obtain k t1 where rec: "recover R s t = (Inr k, t1)"
    and rest: "(if 0 < claim_batch_size s n then jr_claim_jobs R w (get_queue_names s)
       (claim_batch_size s n) (worker_lease_seconds s) else return_tx []) t1 = (Inr rows, t')"
    by (auto simp: claim_transaction_def bind_tx_Inr_iff)
  have "wf_db (working t1)"
    using keepsD_working [OF recover_wf assms(3,2) rec [unfolded recover_def]] .
  with rest claim_batch show ?thesis by (auto split: if_splits)
qed

end

section \<open>The number of running jobs\<close>

definition runner_ok :: "settings \<Rightarrow> runner \<Rightarrow> bool" where
  "runner_ok s rn \<longleftrightarrow>
     int (length (rn_inflight rn)) \<le> worker_concurrency s \<and>
     distinct (map fst (rn_inflight rn)) \<and> (\<forall>t \<in> fst ` set (rn_inflight rn). t < rn_next_task rn)"

lemma length_spawn: "length (rn_inflight (spawn js rn)) = length (rn_inflight rn) + length js"
  by (induction js rn rule: spawn.induct) auto

lemma spawn_tasks:
  "distinct (map fst (rn_inflight rn)) \<Longrightarrow> \<forall>t \<in> fst ` set (rn_inflight rn). t < rn_next_task rn \<Longrightarrow>
    distinct (map fst (rn_inflight (spawn js rn))) \<and>
    (\<forall>t \<in> fst ` set (rn_inflight (spawn js rn)). t < rn_next_task (spawn js rn))"
proof (induction js rn rule: spawn.induct)
  case (2 job rest rn)
  from 2(2,3) show ?case
    unfolding spawn.simps by (intro 2(1)) (auto simp: less_Suc_eq dest!: bspec)
qed simp

lemma claim_batch_size_free:
  "0 \<le> worker_concurrency s - int n \<Longrightarrow> int (claim_batch_size s n) \<le> worker_concurrency s - int n"
  by (auto simp: claim_batch_size_def Let_def)

lemma runner_ok_spawn:
  assumes "runner_ok s rn" and "length js \<le> claim_batch_size s (length (rn_inflight rn))"
  shows "runner_ok s (spawn js rn)"
proof -
  have "int (length (rn_inflight rn)) + int (length js) \<le> worker_concurrency s"
    using assms claim_batch_size_free [of s "length (rn_inflight rn)"] by (simp add: runner_ok_def)
  with assms(1) spawn_tasks [of rn js] show ?thesis
    by (simp add: runner_ok_def length_spawn)
qed

lemma runner_ok_done: "runner_ok s rn \<Longrightarrow> runner_ok s (on_inflight_done t rn)"
proof -
  assume ok: "runner_ok s rn"
  have "int (length (filter (\<lambda>(u, j). u \<noteq> t) (rn_inflight rn))) \<le> int (length (rn_inflight rn))"
    by (simp only: of_nat_le_iff length_filter_le)
  also have "\<dots> \<le> worker_concurrency s"
    using ok by (simp add: runner_ok_def)
  finally show ?thesis
    using ok by (simp add: runner_ok_def on_inflight_done_def distinct_map_filter)
qed

section \<open>The end of a task\<close>

text \<open>The status a result leads to.\<close>

definition settled_status :: "job_row \<Rightarrow> executor_result \<Rightarrow> job_status" where
  "settled_status job r =
     (if x_outcome r = Out_succeeded then Succeeded
      else if x_outcome r \<in> {Out_retryable_failure, Out_timeout} \<and> j_attempt_count job < j_max_attempts job
        then Pending
      else Dead_letter)"

lemma record_result_settles:
  assumes "record_result JobRepository c s w job r t = (Inr True, t')" and "wf_db (working t)"
  obtains j where "owned (j_id job) w j" and "j \<in> set (jobs (working t))"
    and "job_by_id (j_id job) (working t') = Some
      (if x_outcome r = Out_succeeded then completed (x_response_status r) (now t) j
       else failed (settled_status job r = Pending) (retry_delay c s job) (x_error_type r)
              (x_error_message r) (x_response_status r) (now t) j)"
    and "\<exists>a. attempts (working t') = attempts (working t) @ [a] \<and> a_job_id a = j_id job \<and>
      a_attempt_number a = j_attempt_count job \<and> a_worker_id a = w"
proof -
  define f where "f = (if x_outcome r = Out_succeeded then completed (x_response_status r) (now t)
    else failed (settled_status job r = Pending) (retry_delay c s job) (x_error_type r)
           (x_error_message r) (x_response_status r) (now t))"
  have id: "j_id (f k) = j_id k" for k by (simp add: f_def completed_def failed_def)
  have retry: "settled_status job r = Pending \<longleftrightarrow>
      x_outcome r \<in> {Out_retryable_failure, Out_timeout} \<and> j_attempt_count job < j_max_attempts job"
    if "x_outcome r \<noteq> Out_succeeded"
    using that by (auto simp: settled_status_def)
  have "holds_lease (j_id job) w (working t) \<and>
      jobs (working t') = upd_where (owned (j_id job) w) f (jobs (working t)) \<and>
      (\<exists>a. attempts (working t') = attempts (working t) @ [a] \<and> a_job_id a = j_id job \<and>
        a_attempt_number a = j_attempt_count job \<and> a_worker_id a = w)"
  proof (cases "x_outcome r = Out_succeeded")
    case True
    with assms(1) complete_job_Inr [of job w _ _ _ t True t'] show ?thesis
      by (fastforce simp: record_result_def f_def)
  next
    case False
    with assms(1) retry fail_job_Inr [of job w _ _ _ _ _ _ _ _ t True t'] show ?thesis
      by (fastforce simp: record_result_def f_def)
  qed
  then obtain j where j: "j \<in> set (jobs (working t))" "owned (j_id job) w j"
    and jobs: "jobs (working t') = upd_where (owned (j_id job) w) f (jobs (working t))"
    and att: "\<exists>a. attempts (working t') = attempts (working t) @ [a] \<and> a_job_id a = j_id job \<and>
        a_attempt_number a = j_attempt_count job \<and> a_worker_id a = w"
    by (auto simp: holds_lease_owned)
  have "job_by_id (j_id job) (working t) = Some j"
    using j assms(2) by (simp add: job_by_id_iff owned_def)
  then have "job_by_id (j_id job) (working t') = Some (f j)"
    unfolding job_by_id_def jobs by (simp add: find_upd_where id j(2))
  then show thesis
    using that [OF j(2,1) _ att] by (simp add: f_def split: if_splits)
qed

section \<open>Giving leases up\<close>

lemma holds_lease_upd:
  assumes "jobs d' = upd_where p f (jobs d)" and "\<And>j. p j \<Longrightarrow> j_locked_by (f j) = None"
    and "holds_lease i w d'"
  shows "holds_lease i w d"
  using assms by (auto simp: holds_lease_owned set_upd_where owned_def)

lemma not_held_after_upd:
  assumes "jobs d' = upd_where (owned i w) f (jobs d)" and "\<And>j. j_locked_by (f j) = None"
  shows "\<not> holds_lease i w d'"
proof
  assume "holds_lease i w d'"
  then obtain j where "j \<in> set (jobs d')" "owned i w j" by (auto simp: holds_lease_owned)
  with assms show False by (auto simp: set_upd_where owned_def)
qed

lemma return_gives_lease_up:
  assumes "\<And>n. \<not> e_faults e n"
  shows "\<not> holds_lease i w (snd (transact e (return_leased_job_to_pending i w) d))"
proof -
  obtain r s where t: "return_leased_job_to_pending i w (open_session e d) = (r, s)"
    by (cases "return_leased_job_to_pending i w (open_session e d)")
  obtain b where b: "r = Inr b"
    using t assms by (auto simp: return_leased_job_to_pending_def bind_tx_def execute_def Let_def
        catch_sql_def RETURN_TO_PENDING_SQL_def update_jobs_def)
  from return_leased_Inr(2) [OF t [unfolded b]]
  have "\<not> holds_lease i w (working s)"
    by (rule not_held_after_upd) simp
  with t b show ?thesis by (simp add: transact_Inr)
qed

lemma return_keeps_unheld:
  "\<not> holds_lease i w d \<Longrightarrow> \<not> holds_lease i w (snd (transact e (return_leased_job_to_pending k v) d))"
proof (rule transact_cases [OF uncommitted_state_ops(2)])
  fix x s assume no: "\<not> holds_lease i w d" and t: "return_leased_job_to_pending k v (open_session e d) = (Inr x, s)"
  show "\<not> holds_lease i w (working s)"
  proof
    assume "holds_lease i w (working s)"
    then have "holds_lease i w d"
      by (rule holds_lease_upd [OF return_leased_Inr(2) [OF t, unfolded open_session_simps], rotated]) simp
    with no show False ..
  qed
qed

lemma record_result_upd:
  assumes "record_result JobRepository c s v job r t = (Inr b, t')"
  shows "\<exists>f. jobs (working t') = upd_where (owned (j_id job) v) f (jobs (working t)) \<and> (\<forall>j. j_locked_by (f j) = None)"
proof (cases "x_outcome r = Out_succeeded")
  case True
  with assms have "complete_job job v (x_duration_ms r) (x_response_status r) (x_response_body_preview r) t = (Inr b, t')"
    by (simp add: record_result_def)
  from complete_job_Inr(2) [OF this] show ?thesis
    by (intro exI [of _ "completed (x_response_status r) (now t)"]) (simp add: completed_def)
next
  case False
  then have "record_result JobRepository c s v job r t =
      fail_job job v (x_outcome r \<in> {Out_retryable_failure, Out_timeout}) (x_outcome r = Out_timeout)
        (retry_delay c s job) (x_duration_ms r) (x_error_type r) (x_error_message r)
        (x_response_status r) (x_response_body_preview r) t"
    by (simp only: record_result_def if_False JobRepository_simps)
  from fail_job_Inr(2) [OF assms [unfolded this]] show ?thesis
    by (intro exI conjI allI) (assumption, simp add: failed_def)
qed

lemma uncommitted_record_result: "uncommitted (record_result JobRepository c s w job r)"
  by (simp add: record_result_def uncommitted_state_ops)

lemma record_keeps_unheld:
  assumes "\<not> holds_lease i w d"
  shows "\<not> holds_lease i w (snd (transact e (record_result JobRepository c s v job r) d))"
proof (rule transact_cases [OF uncommitted_record_result])
  show "\<not> holds_lease i w d" by (rule assms)
  fix b t assume "record_result JobRepository c s v job r (open_session e d) = (Inr b, t)"
  from record_result_upd [OF this, unfolded open_session_simps] obtain f
    where f: "jobs (working t) = upd_where (owned (j_id job) v) f (jobs d)" "\<forall>j. j_locked_by (f j) = None" by blast
  show "\<not> holds_lease i w (working t)"
  proof
    assume "holds_lease i w (working t)"
    with f(2) have "holds_lease i w d" by (intro holds_lease_upd [OF f(1)]) simp_all
    with assms show False ..
  qed
qed

lemma execute_keeps_unheld:
  "\<not> holds_lease i w d \<Longrightarrow> \<not> holds_lease i w (execute_job JobRepository c s v job ex hb e d)"
  by (simp add: execute_job_def Let_def record_keeps_unheld return_keeps_unheld split: execution_end.split)

lemma shutdown_keeps_unheld:
  "\<not> holds_lease i w d \<Longrightarrow> \<not> holds_lease i w (shutdown_inflight JobRepository c s v how envs running d)"
proof (induction running arbitrary: d)
  case (Cons x rest)
  then show ?case by (cases x) (simp add: execute_keeps_unheld)
qed simp

text \<open>A task that is cancelled gives its job back, whether it had recorded a result or not.\<close>

fun is_cancelled :: "execution_end \<Rightarrow> bool" where
  "is_cancelled (Finished v) = False"
| "is_cancelled Cancelled_execution = True"
| "is_cancelled (Cancelled_after_recording v e) = True"

lemma cancelled_task_gives_lease_up:
  "is_cancelled ex \<Longrightarrow> (\<And>n. \<not> e_faults e n) \<Longrightarrow>
    \<not> holds_lease (j_id job) w (execute_job JobRepository c s w job ex hb e d)"
  by (cases ex) (simp_all add: execute_job_def Let_def return_gives_lease_up)

end
