(* ===== verification/Auth.thy ===== *)
theory Auth imports Settings begin

text \<open>
  Bearer token authentication (\<open>security/auth.py\<close>): read access with any configured token, write
  access with a write token only.
\<close>

section \<open>Comparing tokens\<close>

text \<open>\<open>str.encode()\<close> on Latin-1: one byte below 128, two bytes above.\<close>

definition utf8_bytes :: "char \<Rightarrow> nat list" where
  "utf8_bytes c = (if code c < 128 then [code c] else [192 + code c div 64, 128 + code c mod 64])"

definition encode_utf8 :: "string \<Rightarrow> nat list" where
  "encode_utf8 s = concat (map utf8_bytes s)"

text \<open>\<open>hmac.compare_digest\<close> is equality of the byte strings, in constant time.\<close>

definition compare_digest :: "nat list \<Rightarrow> nat list \<Rightarrow> bool" where
  "compare_digest a b \<longleftrightarrow> a = b"

definition check_bearer_token :: "string \<Rightarrow> string set \<Rightarrow> bool" where
  "check_bearer_token authorization tokens \<longleftrightarrow>
     (\<exists>token \<in> tokens. compare_digest (encode_utf8 authorization) (encode_utf8 (''Bearer '' @ token)))"

definition raise_unauthorized :: "string \<Rightarrow> exn" where
  "raise_unauthorized message = HTTPException 401 (Envelope ''unauthorized'' message)"

definition raise_forbidden :: "string \<Rightarrow> exn" where
  "raise_forbidden message = HTTPException 403 (Envelope ''forbidden'' message)"

section \<open>Requirements\<close>

definition require_api_token :: "settings \<Rightarrow> string option \<Rightarrow> exn + unit" where
  "require_api_token s authorization =
     (let tokens = get_api_tokens s \<union> get_read_only_api_tokens s
      in if tokens = {} then Inr ()
         else case authorization of
           None \<Rightarrow> Inl (raise_unauthorized ''Missing bearer token'')
         | Some a \<Rightarrow>
             if \<not> check_bearer_token a tokens then Inl (raise_unauthorized ''Invalid bearer token'')
             else Inr ())"

definition require_api_write_token :: "settings \<Rightarrow> string option \<Rightarrow> exn + unit" where
  "require_api_write_token s authorization =
     (let read_tokens = get_api_tokens s \<union> get_read_only_api_tokens s;
          write_tokens = get_api_tokens s
      in if read_tokens = {} then Inr ()
         else case authorization of
           None \<Rightarrow> Inl (raise_unauthorized ''Missing bearer token'')
         | Some a \<Rightarrow>
             if check_bearer_token a write_tokens then Inr ()
             else if check_bearer_token a read_tokens
               then Inl (raise_forbidden ''Bearer token is read-only'')
             else Inl (raise_unauthorized ''Invalid bearer token''))"

section \<open>Facts\<close>

lemma utf8_bytes_prefix:
  "utf8_bytes c @ xs = utf8_bytes d @ ys \<Longrightarrow> c = d \<and> xs = ys"
proof -
  assume e: "utf8_bytes c @ xs = utf8_bytes d @ ys"
  have "code c = code d"
  proof (cases "code c < 128"; cases "code d < 128")
    assume "\<not> code c < 128" "\<not> code d < 128"
    with e have "code c div 64 = code d div 64" "code c mod 64 = code d mod 64"
      by (simp_all add: utf8_bytes_def)
    then show ?thesis by (metis div_mult_mod_eq)
  qed (use e in \<open>auto simp: utf8_bytes_def\<close>)
  then have "c = d" by simp
  with e show ?thesis by simp
qed

lemma utf8_bytes_nonempty: "utf8_bytes c \<noteq> []"
  by (simp add: utf8_bytes_def)

lemma encode_utf8_inj: "encode_utf8 s = encode_utf8 t \<longleftrightarrow> s = t"
proof
  show "encode_utf8 s = encode_utf8 t \<Longrightarrow> s = t"
  proof (induction s arbitrary: t)
    case Nil
    then show ?case by (cases t) (simp_all add: encode_utf8_def utf8_bytes_nonempty)
  next
    case (Cons c s)
    then obtain d t' where t: "t = d # t'"
      by (cases t) (simp_all add: encode_utf8_def utf8_bytes_nonempty)
    with Cons.prems utf8_bytes_prefix [of c "encode_utf8 s" d "encode_utf8 t'"]
    show ?case using Cons.IH by (simp add: encode_utf8_def t)
  qed
qed simp

lemma check_bearer_token_iff:
  "check_bearer_token a tokens \<longleftrightarrow> (\<exists>token \<in> tokens. a = ''Bearer '' @ token)"
  by (simp add: check_bearer_token_def compare_digest_def encode_utf8_inj)

lemma require_api_token_Inr:
  "require_api_token s a = Inr () \<longleftrightarrow>
     get_api_tokens s \<union> get_read_only_api_tokens s = {} \<or>
     (\<exists>t \<in> get_api_tokens s \<union> get_read_only_api_tokens s. a = Some (''Bearer '' @ t))"
  by (auto simp: require_api_token_def Let_def check_bearer_token_iff split: option.splits)

lemma require_api_write_token_Inr:
  "require_api_write_token s a = Inr () \<longleftrightarrow>
     get_api_tokens s \<union> get_read_only_api_tokens s = {} \<or>
     (\<exists>t \<in> get_api_tokens s. a = Some (''Bearer '' @ t))"
  by (auto simp: require_api_write_token_def Let_def check_bearer_token_iff split: option.splits)

end
