(* ===== verification/Redaction.thy ===== *)
theory Redaction imports Py_Text Domain begin

text \<open>
  Redaction of secrets (\<open>utils/redaction.py\<close>, \<open>constants.SECRET_HEADER_NAMES\<close>): what the log
  processor does to an event before it is written, and how far it reaches.
\<close>

section \<open>Operations\<close>

definition REDACTED_VALUE :: string where
  "REDACTED_VALUE = ''<redacted>''"

definition SECRET_HEADER_NAMES :: "string list" where
  "SECRET_HEADER_NAMES =
     [''authorization'', ''proxy-authorization'', ''cookie'', ''set-cookie'', ''x-api-key'']"

fun redact_headers :: "dict \<Rightarrow> dict" where
  "redact_headers [] = []"
| "redact_headers ((key, value) # rest) =
     (if lower key \<in> set SECRET_HEADER_NAMES then (key, JStr REDACTED_VALUE) # redact_headers rest
      else (key, value) # redact_headers rest)"

definition secret_key :: "string \<Rightarrow> bool" where
  "secret_key key \<longleftrightarrow>
     lower key \<in> set SECRET_HEADER_NAMES \<or> lower key \<in> {''payload'', ''headers'', ''metadata''}"

text \<open>
  \<open>redact_item\<close> is the chain of \<open>elif\<close>s on one member, \<open>redact_children\<close> the comprehension over a
  list, which looks at mappings only.
\<close>

fun redact_mapping :: "dict \<Rightarrow> dict"
  and redact_item :: "json \<Rightarrow> json"
  and redact_children :: "json list \<Rightarrow> json list" where
  "redact_mapping [] = []"
| "redact_mapping ((key, item) # rest) =
     (key, if secret_key key then JStr REDACTED_VALUE else redact_item item) # redact_mapping rest"
| "redact_item (JObj m) = JObj (redact_mapping m)"
| "redact_item (JArr children) = JArr (redact_children children)"
| "redact_item item = item"
| "redact_children [] = []"
| "redact_children (child # children) =
     (case child of JObj m \<Rightarrow> JObj (redact_mapping m) | _ \<Rightarrow> child) # redact_children children"

section \<open>What is still readable\<close>

text \<open>
  The values a reader finds under secret keys anywhere in a mapping, whatever the nesting.
\<close>

fun secrets :: "dict \<Rightarrow> json list" and item_secrets :: "json \<Rightarrow> json list"
  and child_secrets :: "json list \<Rightarrow> json list" where
  "secrets [] = []"
| "secrets ((key, item) # rest) =
     (if secret_key key then [item] else item_secrets item) @ secrets rest"
| "item_secrets (JObj m) = secrets m"
| "item_secrets (JArr xs) = child_secrets xs"
| "item_secrets item = []"
| "child_secrets [] = []"
| "child_secrets (x # xs) = item_secrets x @ child_secrets xs"

text \<open>Lists hold no lists, at any depth.\<close>

fun flat :: "dict \<Rightarrow> bool" and flat_item :: "json \<Rightarrow> bool" and flat_children :: "json list \<Rightarrow> bool" where
  "flat [] = True"
| "flat ((key, item) # rest) = (flat_item item \<and> flat rest)"
| "flat_item (JObj m) = flat m"
| "flat_item (JArr xs) = flat_children xs"
| "flat_item item = True"
| "flat_children [] = True"
| "flat_children (x # xs) =
     ((case x of JArr _ \<Rightarrow> False | JObj m \<Rightarrow> flat m | _ \<Rightarrow> True) \<and> flat_children xs)"

section \<open>Facts\<close>

lemma redact_mapping_keys: "map fst (redact_mapping m) = map fst m"
  by (induction m) auto

lemma redact_headers_keys: "map fst (redact_headers hs) = map fst hs"
  by (induction hs rule: redact_headers.induct) auto

lemma redact_headers_mem:
  "(k, v) \<in> set (redact_headers hs) \<Longrightarrow>
    (if lower k \<in> set SECRET_HEADER_NAMES then v = JStr REDACTED_VALUE else (k, v) \<in> set hs)"
  by (induction hs rule: redact_headers.induct) (auto split: if_splits)

lemma redact_idem:
  "redact_mapping (redact_mapping m) = redact_mapping m"
  "redact_item (redact_item i) = redact_item i"
  "redact_children (redact_children cs) = redact_children cs"
  by (induction m and i and cs rule: redact_mapping_redact_item_redact_children.induct)
    (auto split: json.splits)

lemma redact_flat_secrets:
  "flat m \<Longrightarrow> set (secrets (redact_mapping m)) \<subseteq> {JStr REDACTED_VALUE}"
  "flat_item i \<Longrightarrow> set (item_secrets (redact_item i)) \<subseteq> {JStr REDACTED_VALUE}"
  "flat_children cs \<Longrightarrow> set (child_secrets (redact_children cs)) \<subseteq> {JStr REDACTED_VALUE}"
  by (induction m and i and cs rule: redact_mapping_redact_item_redact_children.induct)
    (auto split: json.splits)

end
