(* ===== verification/Job_Service.thy ===== *)
theory Job_Service imports Protocols Worker_Repository Redaction begin

text \<open>
  The admin service for jobs (\<open>services/jobs.py\<close>) and its response schemas (\<open>schemas/jobs.py\<close>):
  listing, detail, attempts, replay and cancellation, over any \<open>JobRepositoryProtocol\<close>.
\<close>

section \<open>Responses\<close>

definition get_redacted_mapping :: dict where
  "get_redacted_mapping = [(''redacted'', JStr REDACTED_VALUE)]"

text \<open>\<open>JobResponse\<close>: the row, with the fields that may hold secrets replaced.\<close>

definition job_response :: "job_row \<Rightarrow> job_row" where
  "job_response row =
     row\<lparr>j_payload := get_redacted_mapping, j_headers := get_redacted_mapping,
         j_metadata := get_redacted_mapping\<rparr>"

text \<open>\<open>JobListItem\<close>: the columns without payload, headers and metadata.\<close>

record job_list_item =
  li_id :: uuid
  li_queue_name :: string
  li_kind :: string
  li_name :: string
  li_status :: job_status
  li_priority :: int
  li_max_attempts :: int
  li_attempt_count :: int
  li_available_at :: time
  li_timeout_seconds :: int
  li_idempotency_key :: "string option"
  li_dedupe_key :: "string option"
  li_replayed_from_job_id :: "uuid option"
  li_locked_by :: "string option"
  li_locked_until :: "time option"
  li_last_error_type :: "string option"
  li_last_error_message :: "string option"
  li_last_response_status :: "int option"
  li_trace_id :: "string option"
  li_created_at :: time
  li_updated_at :: time
  li_completed_at :: "time option"

definition job_list_item_of :: "job_row \<Rightarrow> job_list_item" where
  "job_list_item_of j =
     \<lparr>li_id = j_id j, li_queue_name = j_queue_name j, li_kind = j_kind j, li_name = j_name j,
      li_status = j_status j, li_priority = j_priority j, li_max_attempts = j_max_attempts j,
      li_attempt_count = j_attempt_count j, li_available_at = j_available_at j,
      li_timeout_seconds = j_timeout_seconds j, li_idempotency_key = j_idempotency_key j,
      li_dedupe_key = j_dedupe_key j, li_replayed_from_job_id = j_replayed_from_job_id j,
      li_locked_by = j_locked_by j, li_locked_until = j_locked_until j,
      li_last_error_type = j_last_error_type j, li_last_error_message = j_last_error_message j,
      li_last_response_status = j_last_response_status j, li_trace_id = j_trace_id j,
      li_created_at = j_created_at j, li_updated_at = j_updated_at j,
      li_completed_at = j_completed_at j\<rparr>"

record job_list_response =
  lr_items :: "job_list_item list"
  lr_total :: "nat option"
  lr_limit :: nat
  lr_offset :: nat

definition attempt_response :: "attempt_row \<Rightarrow> attempt_row" where
  "attempt_response a =
     (if a_response_body_preview a \<noteq> None then a\<lparr>a_response_body_preview := Some REDACTED_VALUE\<rparr> else a)"

record replay_response =
  rr_new_job_id :: uuid
  rr_source_job_id :: uuid
  rr_status :: job_status
  rr_replayed_at :: time

record cancel_response =
  cr_job_id :: uuid
  cr_status :: job_status
  cr_cancelled_at :: time

section \<open>Operations\<close>

text \<open>The response schema bounds \<open>limit\<close> to 1..200; a violation is a pydantic error.\<close>

definition service_list_jobs ::
  "job_repository \<Rightarrow> job_filter \<Rightarrow> nat \<Rightarrow> nat \<Rightarrow> bool \<Rightarrow> job_list_response tx" where
  "service_list_jobs repository f limit offset include_total =
     bind_tx (jr_list_jobs repository f limit offset include_total) (\<lambda>result.
       if 1 \<le> limit \<and> limit \<le> 200
       then return_tx \<lparr>lr_items = map job_list_item_of (items result), lr_total = total result,
                       lr_limit = limit, lr_offset = offset\<rparr>
       else raise_tx (PydanticValidationError ''JobListResponse''))"

definition detail :: "job_repository \<Rightarrow> uuid \<Rightarrow> job_row tx" where
  "detail repository job_id =
     bind_tx (jr_get_job repository job_id) (\<lambda>row.
       case row of
         None \<Rightarrow> raise_tx (JobNotFoundError ''Job not found'')
       | Some j \<Rightarrow> return_tx (job_response j))"

definition attempts_for_job ::
  "job_repository \<Rightarrow> attempt_repository \<Rightarrow> uuid \<Rightarrow> attempt_row list tx" where
  "attempts_for_job repository attempts_repository job_id =
     bind_tx (jr_get_job repository job_id) (\<lambda>row.
       case row of
         None \<Rightarrow> raise_tx (JobNotFoundError ''Job not found'')
       | Some j \<Rightarrow>
           bind_tx (ar_list_by_job_id attempts_repository job_id) (\<lambda>as. return_tx (map attempt_response as)))"

definition replay_key :: "uuid \<Rightarrow> string" where
  "replay_key job_id = ''replay:'' @ uuid_str job_id"

definition replay_allowed :: "job_status \<Rightarrow> bool \<Rightarrow> bool" where
  "replay_allowed st force \<longleftrightarrow> st \<in> {Dead_letter, Cancelled} \<or> (st = Succeeded \<and> force)"

definition replay :: "job_repository \<Rightarrow> uuid \<Rightarrow> bool \<Rightarrow> replay_response tx" where
  "replay repository job_id force =
     bind_tx (jr_get_job repository job_id) (\<lambda>row.
       case row of
         None \<Rightarrow> raise_tx (JobNotFoundError ''Job not found'')
       | Some source \<Rightarrow>
           if \<not> replay_allowed (j_status source) force
           then raise_tx (JobStateConflictError ''Job status cannot be replayed'')
           else bind_tx (jr_replay_job repository source (replay_key job_id)) (\<lambda>(r, created).
             return_tx \<lparr>rr_new_job_id = j_id r, rr_source_job_id = j_id source,
                        rr_status = j_status r, rr_replayed_at = j_created_at r\<rparr>))"

definition cancel :: "job_repository \<Rightarrow> uuid \<Rightarrow> cancel_response tx" where
  "cancel repository job_id =
     bind_tx (jr_get_job repository job_id) (\<lambda>row.
       case row of
         None \<Rightarrow> raise_tx (JobNotFoundError ''Job not found'')
       | Some j \<Rightarrow>
           if j_status j \<noteq> Pending
           then raise_tx (JobStateConflictError ''Only pending jobs can be cancelled'')
           else bind_tx (jr_cancel_pending_job repository job_id) (\<lambda>c.
             case c of
               None \<Rightarrow> raise_tx (JobStateConflictError ''Only pending jobs can be cancelled'')
             | Some k \<Rightarrow>
                 (case j_completed_at k of
                    None \<Rightarrow> raise_tx (JobStateConflictError ''Cancelled job has no completion timestamp'')
                  | Some t \<Rightarrow> return_tx
                      \<lparr>cr_job_id = j_id k, cr_status = j_status k, cr_cancelled_at = t\<rparr>)))"

section \<open>Facts\<close>

lemma cancel_Inr:
  assumes "cancel R i s = (Inr res, s')"
  obtains j s1 k where "jr_get_job R i s = (Inr (Some j), s1)" and "j_status j = Pending"
    and "jr_cancel_pending_job R i s1 = (Inr (Some k), s')"
    and "res = \<lparr>cr_job_id = j_id k, cr_status = j_status k, cr_cancelled_at = the (j_completed_at k)\<rparr>"
proof -
  from assms obtain row s1 where get: "jr_get_job R i s = (Inr row, s1)"
    and rest: "(case row of
         None \<Rightarrow> raise_tx (JobNotFoundError ''Job not found'')
       | Some j \<Rightarrow>
           if j_status j \<noteq> Pending
           then raise_tx (JobStateConflictError ''Only pending jobs can be cancelled'')
           else bind_tx (jr_cancel_pending_job R i) (\<lambda>c.
             case c of
               None \<Rightarrow> raise_tx (JobStateConflictError ''Only pending jobs can be cancelled'')
             | Some k \<Rightarrow>
                 (case j_completed_at k of
                    None \<Rightarrow> raise_tx (JobStateConflictError ''Cancelled job has no completion timestamp'')
                  | Some t \<Rightarrow> return_tx
                      \<lparr>cr_job_id = j_id k, cr_status = j_status k, cr_cancelled_at = t\<rparr>))) s1 = (Inr res, s')"
    by (auto simp: cancel_def bind_tx_Inr_iff)
  show thesis
  proof (cases row)
    case (Some j)
    with rest have p: "j_status j = Pending" by (simp split: if_splits)
    with rest Some obtain c s2 where c: "jr_cancel_pending_job R i s1 = (Inr c, s2)"
      and fin: "(case c of
               None \<Rightarrow> raise_tx (JobStateConflictError ''Only pending jobs can be cancelled'')
             | Some k \<Rightarrow>
                 (case j_completed_at k of
                    None \<Rightarrow> raise_tx (JobStateConflictError ''Cancelled job has no completion timestamp'')
                  | Some t \<Rightarrow> return_tx
                      \<lparr>cr_job_id = j_id k, cr_status = j_status k, cr_cancelled_at = t\<rparr>)) s2 = (Inr res, s')"
      by (auto simp: bind_tx_Inr_iff)
    from fin obtain k where k: "c = Some k" by (cases c) simp_all
    with fin have "s2 = s'"
      "res = \<lparr>cr_job_id = j_id k, cr_status = j_status k, cr_cancelled_at = the (j_completed_at k)\<rparr>"
      by (simp_all split: option.splits)
    with that get Some p c k show ?thesis by blast
  qed (use rest in simp)
qed


lemma replay_key_inj: "replay_key i = replay_key k \<Longrightarrow> i = k"
  by (auto simp: replay_key_def dest: uuid_str_inj)

lemma replay_params_simps [simp]:
  "p_queue_name (replay_params j k) = j_queue_name j"
  "p_idempotency_key (replay_params j k) = Some k"
  "p_replayed_from_job_id (replay_params j k) = Some (j_id j)"
  by (simp_all add: replay_params_def)

context job_store
begin

lemma replay_uncommitted: "uncommitted (replay R i force)"
  unfolding uncommitted_def replay_def replay_inserts
  by (intro keeps_intros get_uncommitted [unfolded uncommitted_def] insert_uncommitted [unfolded uncommitted_def])

lemma replay_wf: "keeps wf_db (replay R i force)"
  unfolding replay_def replay_inserts by (intro keeps_intros get_wf insert_wf)

lemma cancel_service_wf: "keeps wf_db (cancel R i)"
  unfolding cancel_def by (intro keeps_intros get_wf cancel_wf)

lemma cancel_service_uncommitted: "uncommitted (cancel R i)"
  unfolding uncommitted_def cancel_def
  by (intro keeps_intros get_uncommitted [unfolded uncommitted_def] cancel_uncommitted [unfolded uncommitted_def])

lemma replay_Inr:
  assumes "replay R i force s = (Inr res, s')" and "wf_db (working s)"
  obtains source j b s1 where "source \<in> set (jobs (working s))" and "j_id source = i"
    and "replay_allowed (j_status source) force" and "working s1 = working s"
    and "jr_insert_job R (replay_params source (replay_key i)) s1 = (Inr (j, b), s')"
    and "committed s1 = committed s"
    and "rr_new_job_id res = j_id j" and "rr_source_job_id res = i" and "rr_status res = j_status j"
    and "rr_replayed_at res = j_created_at j"
proof -
  from assms(1) obtain s1 source where get: "jr_get_job R i s = (Inr (Some source), s1)"
    and allowed: "replay_allowed (j_status source) force"
    and rest: "bind_tx (jr_replay_job R source (replay_key i)) (\<lambda>(r, created).
        return_tx \<lparr>rr_new_job_id = j_id r, rr_source_job_id = j_id source,
                   rr_status = j_status r, rr_replayed_at = j_created_at r\<rparr>) s1 = (Inr res, s')"
    unfolding replay_def
    by (auto simp: bind_tx_Inr_iff raise_tx_def split: option.splits if_splits)
  from rest obtain j b where ins: "jr_insert_job R (replay_params source (replay_key i)) s1 = (Inr (j, b), s')"
    and res: "res = \<lparr>rr_new_job_id = j_id j, rr_source_job_id = j_id source,
                     rr_status = j_status j, rr_replayed_at = j_created_at j\<rparr>"
    by (auto simp: bind_tx_Inr_iff replay_inserts return_tx_def)
  from get_row [OF get] have src: "job_by_id i (working s) = Some source" and w: "working s1 = working s"
    by simp_all
  from src have "source \<in> set (jobs (working s))" "j_id source = i"
    by (auto dest: job_by_id_SomeD)
  moreover have "committed s1 = committed s"
    using uncommittedD [OF get_uncommitted, of i s] get by simp
  ultimately show thesis
    using that allowed w ins res by simp
qed

text \<open>
  A replay names a job of the source's queue that carries the source's replay key. It is the only
  one with that key, so replaying again names it again.
\<close>

lemma replay_row:
  assumes "replay R i force s = (Inr res, s')" and "wf_db (working s)" and "wf_db (committed s)"
  shows "\<exists>src j. src \<in> set (jobs (working s)) \<and> j_id src = i \<and> j \<in> set (jobs (working s')) \<and>
      j_id j = rr_new_job_id res \<and> idem_entry j = Some (j_queue_name src, replay_key i)"
proof -
  from assms(1,2) obtain src j b s1 where src: "src \<in> set (jobs (working s))" "j_id src = i"
    and w: "working s1 = working s" "committed s1 = committed s"
    and ins: "jr_insert_job R (replay_params src (replay_key i)) s1 = (Inr (j, b), s')"
    and id: "rr_new_job_id res = j_id j"
    by (rule replay_Inr)
  have "j \<in> set (jobs (working s')) \<and> idem_entry j = Some (j_queue_name src, replay_key i)"
  proof (cases b)
    case True
    with ins insert_created [of "replay_params src (replay_key i)" s1 j s'] w(1) assms(2)
    show ?thesis by (auto simp: idem_entry_new_job)
  next
    case False
    with ins insert_existing [of "replay_params src (replay_key i)" s1 j s'] w assms(2,3)
    show ?thesis by (auto simp: idem_entry_Some)
  qed
  with src id show ?thesis by metis
qed

lemma replay_keeps_jobs:
  assumes "replay R i force s = (Inr res, s')" and "wf_db (working s)" and "wf_db (committed s)"
  shows "set (jobs (working s)) \<subseteq> set (jobs (working s'))"
proof -
  from assms(1,2) obtain src j b t where t: "working t = working s" "committed t = committed s"
    and ins: "jr_insert_job R (replay_params src (replay_key i)) t = (Inr (j, b), s')"
    by (rule replay_Inr)
  show ?thesis
    using insert_created [of _ t j s'] insert_existing [of _ t j s'] ins t assms(2,3)
    by (cases b) auto
qed

lemma replay_twice:
  assumes "replay R i force s = (Inr res, s1)" and "replay R i force' u = (Inr res', s2)"
    and "wf_db (working s)" and "wf_db (committed s)" and "working u = working s1" and "wf_db (committed u)"
  shows "rr_new_job_id res' = rr_new_job_id res \<and> jobs (working s2) = jobs (working s1)"
proof -
  from assms(1,3) obtain src j b t1 where src: "src \<in> set (jobs (working s))" "j_id src = i"
    and t1: "working t1 = working s" "committed t1 = committed s"
    and ins1: "jr_insert_job R (replay_params src (replay_key i)) t1 = (Inr (j, b), s1)"
    and id1: "rr_new_job_id res = j_id j"
    by (rule replay_Inr)
  have wf1: "wf_db (working s1)"
    using keepsD_working [OF insert_wf _ _ ins1] assms(3,4) t1 by simp
  then have "wf_db (working u)" by (simp add: assms(5))
  with assms(2) obtain src' k c t2 where src': "src' \<in> set (jobs (working u))" "j_id src' = i"
    and t2: "working t2 = working u" "committed t2 = committed u"
    and ins2: "jr_insert_job R (replay_params src' (replay_key i)) t2 = (Inr (k, c), s2)"
    and id2: "rr_new_job_id res' = j_id k"
    by (rule replay_Inr)
  have "src \<in> set (jobs (working s1))"
    using src replay_keeps_jobs [OF assms(1,3,4)] by blast
  then have "src' = src"
    using src src' assms(5) key_inj [OF wf_db_distinct_ids [OF wf1]] by auto
  then show ?thesis
    using insert_twice [OF ins1 ins2, of "replay_key i"] id1 id2 t1 t2 assms(3-6) by simp
qed

end

end
