(* ===== verification/Queue_Service.thy ===== *)
theory Queue_Service imports Queue_Repository Validation begin

text \<open>
  The admin service for queues (\<open>services/queues.py\<close>, \<open>schemas/queues.py\<close>) over any
  \<open>QueueRepositoryProtocol\<close>.
\<close>

record queue_update_request =
  qu_paused :: "bool option"
  qu_concurrency_limit :: "int option"

definition QueueUpdateRequest :: "queue_update_request \<Rightarrow> exn + queue_update_request" where
  "QueueUpdateRequest r =
     (case qu_concurrency_limit r of
        None \<Rightarrow> Inr r
      | Some n \<Rightarrow> if 1 \<le> n \<and> n \<le> 256 then Inr r
                  else Inl (PydanticValidationError ''QueueUpdateRequest''))"

text \<open>\<open>QueueResponse\<close> has the columns of the row.\<close>

definition queue_response :: "queue_row \<Rightarrow> queue_row" where
  "queue_response q =
     \<lparr>q_name = q_name q, q_paused = q_paused q, q_concurrency_limit = q_concurrency_limit q,
      q_created_at = q_created_at q, q_updated_at = q_updated_at q\<rparr>"

definition checked_name :: "string \<Rightarrow> unit tx" where
  "checked_name n = (case validate_queue_name n of Inl e \<Rightarrow> raise_tx e | Inr _ \<Rightarrow> return_tx ())"

definition service_list_queues :: "queue_repository \<Rightarrow> queue_row list tx" where
  "service_list_queues repository = bind_tx (qr_list_queues repository) (\<lambda>rows. return_tx (map queue_response rows))"

definition upsert_or_update :: "queue_repository \<Rightarrow> string \<Rightarrow> queue_update_request \<Rightarrow> queue_row tx" where
  "upsert_or_update repository n request =
     bind_tx (checked_name n) (\<lambda>_.
     bind_tx (qr_update_queue repository n (qu_paused request) (qu_concurrency_limit request)) (\<lambda>row.
     return_tx (queue_response row)))"

definition pause :: "queue_repository \<Rightarrow> string \<Rightarrow> queue_row tx" where
  "pause repository n =
     bind_tx (checked_name n) (\<lambda>_.
     bind_tx (qr_update_queue repository n (Some True) None) (\<lambda>row. return_tx (queue_response row)))"

definition resume :: "queue_repository \<Rightarrow> string \<Rightarrow> queue_row tx" where
  "resume repository n =
     bind_tx (checked_name n) (\<lambda>_.
     bind_tx (qr_update_queue repository n (Some False) None) (\<lambda>row. return_tx (queue_response row)))"

section \<open>Facts\<close>

lemma queue_response_id [simp]: "queue_response q = q"
  by (simp add: queue_response_def)

lemma checked_name_Inr:
  "checked_name n s = (Inr u, s') \<longleftrightarrow> validate_queue_name n = Inr () \<and> s' = s"
  by (auto simp: checked_name_def split: sum.split)

lemma keeps_checked_name [wf_intros]: "keeps I (checked_name n)"
  unfolding checked_name_def by (intro keeps_intros)

context queue_store
begin

lemma pause_Inr:
  assumes "pause Q n s = (Inr q, s')"
  shows "q_name q = n \<and> q_paused q \<and> q \<in> set (queues (working s')) \<and>
    jobs (working s') = jobs (working s) \<and> validate_queue_name n = Inr ()"
proof -
  from assms have name: "validate_queue_name n = Inr ()" and upd: "qr_update_queue Q n (Some True) None s = (Inr q, s')"
    by (auto simp: pause_def bind_tx_Inr_iff checked_name_Inr)
  from update_settings [OF upd] update_frame [OF upd] name show ?thesis by simp
qed

lemma resume_Inr:
  assumes "resume Q n s = (Inr q, s')"
  shows "q_name q = n \<and> \<not> q_paused q \<and> q \<in> set (queues (working s')) \<and>
    jobs (working s') = jobs (working s)"
proof -
  from assms have upd: "qr_update_queue Q n (Some False) None s = (Inr q, s')"
    by (auto simp: resume_def bind_tx_Inr_iff checked_name_Inr)
  from update_settings [OF upd] update_frame [OF upd] show ?thesis by simp
qed

lemma pause_wf: "keeps wf_db (pause Q n)"
  unfolding pause_def by (intro keeps_intros wf_intros update_wf)

end

end
