(* ===== verification/Stats.thy ===== *)
theory Stats imports Session begin

text \<open>
  Queue statistics (\<open>repositories/stats.py\<close>, \<open>services/stats.py\<close>): exact counts with \<open>GROUP BY\<close>, the
  planner's estimates for large tables, and the age of the oldest pending job. What the catalogue and
  \<open>EXPLAIN\<close> report, and Python's \<open>int()\<close> on a plan value, are parameters.
\<close>

definition APPROXIMATE_ROW_THRESHOLD :: int where
  "APPROXIMATE_ROW_THRESHOLD = 1000000"

type_synonym counts_row = "job_status \<times> int"
type_synonym depth_row = "string \<times> job_status \<times> int"

record planner =
  reltuples :: "int option"
  explain :: "string option \<Rightarrow> job_status \<Rightarrow> json"
  py_int :: "json \<Rightarrow> exn + int"

section \<open>Exact counts\<close>

text \<open>\<open>GROUP BY k ORDER BY k\<close>: the distinct keys in order, each with its number of rows.\<close>

definition group_count :: "('a \<Rightarrow> 'k::linorder) \<Rightarrow> 'a list \<Rightarrow> ('k \<times> int) list" where
  "group_count key rows =
     map (\<lambda>k. (k, int (count_where (\<lambda>r. key r = k) rows))) (sort (remdups (map key rows)))"

definition exact_counts_by_status :: "counts_row list tx" where
  "exact_counts_by_status = execute (query (\<lambda>t d. group_count j_status (jobs d)))"

definition exact_queue_depth :: "depth_row list tx" where
  "exact_queue_depth =
     execute (query (\<lambda>t d. map (\<lambda>((q, st), n). (q, st, n))
       (group_count (\<lambda>j. (j_queue_name j, j_status j)) (jobs d))))"

section \<open>Estimates\<close>

definition estimated_row_count :: "planner \<Rightarrow> int" where
  "estimated_row_count p =
     (case reltuples p of None \<Rightarrow> 0 | Some n \<Rightarrow> if n = -1 then 0 else max n 0)"

definition uses_estimates :: "planner \<Rightarrow> bool" where
  "uses_estimates p \<longleftrightarrow> APPROXIMATE_ROW_THRESHOLD \<le> estimated_row_count p"

definition plan_rows_member :: "dict \<Rightarrow> json" where
  "plan_rows_member plan = (case map_of plan ''Plan Rows'' of None \<Rightarrow> JInt 0 | Some v \<Rightarrow> v)"

fun extract_plan_rows :: "planner \<Rightarrow> json \<Rightarrow> exn + int" where
  "extract_plan_rows p (JArr (JObj root # _)) =
     (case map_of root ''Plan'' of
        Some (JObj plan) \<Rightarrow>
          (case py_int p (plan_rows_member plan) of Inl e \<Rightarrow> Inl e | Inr rows \<Rightarrow> Inr (max 0 rows))
      | _ \<Rightarrow> Inr 0)"
| "extract_plan_rows p _ = Inr 0"

definition estimate_query_rows :: "planner \<Rightarrow> string option \<Rightarrow> job_status \<Rightarrow> int tx" where
  "estimate_query_rows p q st =
     bind_tx (execute (query (\<lambda>t d. explain p q st))) (\<lambda>plan.
       case extract_plan_rows p plan of Inl e \<Rightarrow> raise_tx e | Inr n \<Rightarrow> return_tx n)"

fun estimated_counts :: "planner \<Rightarrow> job_status list \<Rightarrow> counts_row list tx" where
  "estimated_counts p [] = return_tx []"
| "estimated_counts p (st # sts) =
     bind_tx (estimate_query_rows p None st) (\<lambda>n.
     bind_tx (estimated_counts p sts) (\<lambda>rows.
     return_tx (if 0 < n then (st, n) # rows else rows)))"

fun estimated_depth :: "planner \<Rightarrow> (string \<times> job_status) list \<Rightarrow> depth_row list tx" where
  "estimated_depth p [] = return_tx []"
| "estimated_depth p ((q, st) # rest) =
     bind_tx (estimate_query_rows p (Some q) st) (\<lambda>n.
     bind_tx (estimated_depth p rest) (\<lambda>rows.
     return_tx (if 0 < n then (q, st, n) # rows else rows)))"

definition queue_names :: "string list tx" where
  "queue_names = execute (query (\<lambda>t d. sort (map q_name (queues d))))"

section \<open>Operations\<close>

definition counts_by_status :: "planner \<Rightarrow> bool \<Rightarrow> counts_row list tx" where
  "counts_by_status p approximate =
     catch_sql ''Stats count failed''
       (if approximate
        then bind_tx (execute (query (\<lambda>t d. uses_estimates p))) (\<lambda>est.
               if est then estimated_counts p JOB_STATUSES else exact_counts_by_status)
        else exact_counts_by_status)"

definition queue_depth :: "planner \<Rightarrow> bool \<Rightarrow> depth_row list tx" where
  "queue_depth p approximate =
     catch_sql ''Queue depth failed''
       (if approximate
        then bind_tx (execute (query (\<lambda>t d. uses_estimates p))) (\<lambda>est.
               if est
               then bind_tx queue_names (\<lambda>names.
                      estimated_depth p (concat (map (\<lambda>q. map (Pair q) JOB_STATUSES) names)))
               else exact_queue_depth)
        else exact_queue_depth)"

definition oldest_pending_age :: "time option tx" where
  "oldest_pending_age =
     catch_sql ''Oldest pending age failed''
       (execute (query (\<lambda>t d.
          let created = map j_created_at (filter (\<lambda>j. j_status j = Pending) (jobs d))
          in if created = [] then None else Some (t - Min (set created)))))"

text \<open>The operations of \<open>StatsRepositoryProtocol\<close>, and the service over them.\<close>

record stats_repository =
  str_counts_by_status :: "bool \<Rightarrow> counts_row list tx"
  str_queue_depth :: "bool \<Rightarrow> depth_row list tx"
  str_oldest_pending_age :: "time option tx"

definition StatsRepository :: "planner \<Rightarrow> stats_repository" where
  "StatsRepository p =
     \<lparr>str_counts_by_status = counts_by_status p, str_queue_depth = queue_depth p,
      str_oldest_pending_age = oldest_pending_age\<rparr>"

record stats_response =
  sr_counts :: "counts_row list"
  sr_queue_depth :: "depth_row list"
  sr_oldest_pending_age :: "time option"
  sr_approximate :: bool

definition get_stats :: "stats_repository \<Rightarrow> bool \<Rightarrow> stats_response tx" where
  "get_stats repository approximate =
     bind_tx (str_counts_by_status repository approximate) (\<lambda>counts.
     bind_tx (str_queue_depth repository approximate) (\<lambda>depths.
     bind_tx (str_oldest_pending_age repository) (\<lambda>oldest.
     return_tx \<lparr>sr_counts = counts, sr_queue_depth = depths, sr_oldest_pending_age = oldest,
                sr_approximate = approximate\<rparr>)))"

section \<open>Facts\<close>

lemma StatsRepository_simps [simp]:
  "str_counts_by_status (StatsRepository p) = counts_by_status p"
  "str_queue_depth (StatsRepository p) = queue_depth p"
  "str_oldest_pending_age (StatsRepository p) = oldest_pending_age"
  by (simp_all add: StatsRepository_def)

lemma sum_count_where_keys:
  assumes "distinct ks" and "key ` set rows \<subseteq> set ks"
  shows "(\<Sum>k\<leftarrow>ks. int (count_where (\<lambda>r. key r = k) rows)) = int (length rows)"
  using assms(2)
proof (induction rows)
  case Nil
  then show ?case by (simp add: sum_list_0)
next
  case (Cons r rows)
  have split: "(\<Sum>k\<leftarrow>xs. int (count_where (\<lambda>x. key x = k) (r # rows))) =
      (\<Sum>k\<leftarrow>xs. int (count_where (\<lambda>x. key x = k) rows)) + int (count_list xs (key r))" for xs
    by (induction xs) auto
  have "count_list ks (key r) = 1"
    using Cons.prems assms(1) by (simp add: count_list_eq_length_filter distinct_length_filter Int_absorb1)
  with Cons show ?case unfolding split by simp
qed

lemma group_count_total: "(\<Sum>(k, n)\<leftarrow>group_count key rows. n) = int (length rows)"
proof -
  have "(\<Sum>(k, n)\<leftarrow>group_count key rows. n) =
      (\<Sum>k\<leftarrow>sort (remdups (map key rows)). int (count_where (\<lambda>r. key r = k) rows))"
    by (simp add: group_count_def comp_def)
  also have "\<dots> = int (length rows)"
    by (rule sum_count_where_keys) simp_all
  finally show ?thesis .
qed

lemma group_count_mem:
  "(k, n) \<in> set (group_count key rows) \<longleftrightarrow>
     k \<in> key ` set rows \<and> n = int (count_where (\<lambda>r. key r = k) rows)"
  by (auto simp: group_count_def)

lemma group_count_sorted: "sorted (map fst (group_count key rows)) \<and> distinct (map fst (group_count key rows))"
  by (simp add: group_count_def comp_def)

end
