(* ===== verification/App_State.thy ===== *)
theory App_State imports Auth Enqueue Job_Service Queue_Service Stats begin

text \<open>
  What the lifespan of the application builds when it starts (\<open>api/app.py\<close>, \<open>db/session.py\<close>): the engine,
  the services with their repositories, and the state of the application from which the dependencies of
  the routes (\<open>api/dependencies.py\<close>) take them.
\<close>

section \<open>The engine\<close>

text \<open>The arguments of \<open>create_async_engine\<close> (\<open>db/session.py\<close>).\<close>

record engine =
  en_url :: string
  en_pool_pre_ping :: bool
  en_pool_size :: int
  en_max_overflow :: int
  en_pool_timeout :: int
  en_command_timeout :: rat
  en_statement_timeout :: string
  en_lock_timeout :: string

definition create_engine :: "settings \<Rightarrow> engine" where
  "create_engine s =
     \<lparr>en_url = database_url s, en_pool_pre_ping = True, en_pool_size = db_pool_size s,
      en_max_overflow = db_max_overflow s, en_pool_timeout = db_pool_timeout_seconds s,
      en_command_timeout = of_int (db_statement_timeout_ms s) / 1000,
      en_statement_timeout = int_str (db_statement_timeout_ms s),
      en_lock_timeout = int_str (db_lock_timeout_ms s)\<rparr>"

text \<open>The connections the pool hands out at most.\<close>

definition capacity :: "engine \<Rightarrow> int" where
  "capacity en = en_pool_size en + en_max_overflow en"

section \<open>Services\<close>

text \<open>A service is what its \<open>__init__\<close> keeps.\<close>

record enqueue_service =
  es_repository :: job_repository
  es_settings :: settings

record job_service =
  js_job_repository :: job_repository
  js_attempt_repository :: attempt_repository

record app_state =
  as_settings :: settings
  as_engine :: engine
  as_enqueue_service :: enqueue_service
  as_job_service :: job_service
  as_queue_service :: queue_repository
  as_worker_service :: worker_repository
  as_stats_service :: stats_repository

text \<open>The planner is the server's, behind the statistics repository.\<close>

definition create_state :: "planner \<Rightarrow> settings \<Rightarrow> app_state" where
  "create_state p s =
     (let queue_repository = QueueRepository; job_repository = JobRepository;
          attempt_repository = AttemptRepository; worker_repository = WorkerRepository;
          stats_repository = StatsRepository p
      in \<lparr>as_settings = s, as_engine = create_engine s,
          as_enqueue_service = \<lparr>es_repository = job_repository, es_settings = s\<rparr>,
          as_job_service = \<lparr>js_job_repository = job_repository, js_attempt_repository = attempt_repository\<rparr>,
          as_queue_service = queue_repository, as_worker_service = worker_repository,
          as_stats_service = stats_repository\<rparr>)"

text \<open>\<open>lifespan\<close>: the settings given to \<open>create_app\<close>, or those of the environment, checked first.\<close>

definition lifespan :: "planner \<Rightarrow> settings option \<Rightarrow> settings \<Rightarrow> exn + app_state" where
  "lifespan p given environ =
     (case (case given of Some s \<Rightarrow> Inr s | None \<Rightarrow> load_settings environ) of
        Inl e \<Rightarrow> Inl e
      | Inr s \<Rightarrow>
          (case validate_runtime s of
             Inl e \<Rightarrow> Inl e
           | Inr _ \<Rightarrow> Inr (create_state p s)))"

section \<open>Dependencies\<close>

definition get_settings :: "app_state \<Rightarrow> settings" where
  "get_settings st = as_settings st"

definition get_enqueue_service :: "app_state \<Rightarrow> enqueue_service" where
  "get_enqueue_service st = as_enqueue_service st"

definition get_job_service :: "app_state \<Rightarrow> job_service" where
  "get_job_service st = as_job_service st"

definition get_queue_service :: "app_state \<Rightarrow> queue_repository" where
  "get_queue_service st = as_queue_service st"

definition get_stats_service :: "app_state \<Rightarrow> stats_repository" where
  "get_stats_service st = as_stats_service st"

definition get_worker_service :: "app_state \<Rightarrow> worker_repository" where
  "get_worker_service st = as_worker_service st"

section \<open>Facts\<close>

lemma create_state_simps [simp]:
  "get_settings (create_state p s) = s" "as_engine (create_state p s) = create_engine s"
  "es_repository (get_enqueue_service (create_state p s)) = JobRepository"
  "es_settings (get_enqueue_service (create_state p s)) = s"
  "js_job_repository (get_job_service (create_state p s)) = JobRepository"
  "js_attempt_repository (get_job_service (create_state p s)) = AttemptRepository"
  "get_queue_service (create_state p s) = QueueRepository"
  "get_stats_service (create_state p s) = StatsRepository p"
  "get_worker_service (create_state p s) = WorkerRepository"
  by (simp_all add: create_state_def Let_def get_settings_def get_enqueue_service_def get_job_service_def
      get_queue_service_def get_stats_service_def get_worker_service_def)

lemma lifespan_Inr: "lifespan p given environ = Inr st \<Longrightarrow> \<exists>s. validate_runtime s = Inr () \<and> st = create_state p s"
  by (auto simp: lifespan_def split: sum.splits option.splits)

end
