(* ===== verification/Api.thy ===== *)
theory Api imports App_State begin

text \<open>
  The admin API (\<open>api/app.py\<close>, \<open>api/dependencies.py\<close>, \<open>api/routers\<close>): authentication, the
  session of a request, the mapping of exceptions to responses, and the routes.
\<close>

section \<open>Responses\<close>

text \<open>
  The envelope of an error (\<open>schemas/api_errors.py\<close>). Its details are \<open>null\<close>, empty, the class of an
  unexpected exception, or pydantic's list of errors, of which the model keeps the rejected field.
\<close>

datatype error_details = No_details | Empty_details | Exception_type string | Validation_errors string

record api_error =
  ae_code :: string
  ae_message :: string
  ae_details :: error_details

datatype 'a response = Ok_response int 'a | Error_response int api_error

definition ApiError :: "string \<Rightarrow> string \<Rightarrow> error_details \<Rightarrow> exn + api_error" where
  "ApiError ec message details =
     (if ec = [] \<or> message = [] then Inl (PydanticValidationError ''ApiError'')
      else Inr \<lparr>ae_code = ec, ae_message = message, ae_details = details\<rparr>)"

text \<open>
  The exception handlers. An exception that a handler raises itself reaches the handler of unexpected
  exceptions, like every other that has no handler of its own.
\<close>

definition unexpected_exception :: "exn \<Rightarrow> 'a response" where
  "unexpected_exception e =
     Error_response 500
       \<lparr>ae_code = ''pgrelay_error'', ae_message = ''Internal server error'', ae_details = Exception_type (exn_name e)\<rparr>"

definition error_body :: "string \<Rightarrow> string \<Rightarrow> error_details \<Rightarrow> int \<Rightarrow> 'a response" where
  "error_body ec message details st =
     (case ApiError ec message details of
        Inl e \<Rightarrow> unexpected_exception e
      | Inr body \<Rightarrow> Error_response st body)"

text \<open>
  A PgRelay error answers with the status of its code. The detail of an \<open>HTTPException\<close> that is an
  envelope already is sent as it is.
\<close>

definition error_response :: "exn \<Rightarrow> 'a response" where
  "error_response e =
     (case e of
        HTTPException st (Envelope ec msg) \<Rightarrow>
          Error_response st \<lparr>ae_code = ec, ae_message = msg, ae_details = Empty_details\<rparr>
      | HTTPException st (Detail msg) \<Rightarrow> error_body ''http_error'' msg No_details st
      | _ \<Rightarrow>
          (case error_code e of
             Some ec \<Rightarrow>
               error_body ec (exn_message e) No_details
                 (case map_of ERROR_STATUS_CODES ec of None \<Rightarrow> 500 | Some st \<Rightarrow> st)
           | None \<Rightarrow> unexpected_exception e))"

definition request_validation_response :: "string \<Rightarrow> 'a response" where
  "request_validation_response errors =
     error_body ''validation_error'' ''Request validation failed'' (Validation_errors errors) 422"

definition respond :: "('a \<Rightarrow> int) \<Rightarrow> exn + 'a \<Rightarrow> 'a response" where
  "respond st r = (case r of Inl e \<Rightarrow> error_response e | Inr x \<Rightarrow> Ok_response (st x) x)"

section \<open>Requests\<close>

text \<open>
  Dependencies are resolved before the body of the route runs: authentication first, then the
  parameters, whose violations answer 422, then the route inside the session of \<open>get_session\<close>.
  \<open>parsed\<close> is what the schema makes of the parameters.
\<close>

definition parameters :: "exn + 'r \<Rightarrow> 'a response + 'r" where
  "parameters parsed =
     (case parsed of
        Inl (PydanticValidationError m) \<Rightarrow> Inl (request_validation_response m)
      | Inl e \<Rightarrow> Inl (error_response e)
      | Inr r \<Rightarrow> Inr r)"

definition run_route ::
  "exn + unit \<Rightarrow> exn + 'r \<Rightarrow> ('r \<Rightarrow> 'a tx) \<Rightarrow> ('a \<Rightarrow> int) \<Rightarrow> env \<Rightarrow> db \<Rightarrow> 'a response \<times> db" where
  "run_route auth parsed body st e d =
     (case auth of
        Inl x \<Rightarrow> (error_response x, d)
      | Inr _ \<Rightarrow>
          (case parameters parsed of
             Inl resp \<Rightarrow> (resp, d)
           | Inr r \<Rightarrow> (case transact e (body r) d of (res, d') \<Rightarrow> (respond st res, d'))))"

definition require_auth :: "app_state \<Rightarrow> string option \<Rightarrow> exn + unit" where
  "require_auth st a = require_api_token (get_settings st) a"

text \<open>A writing route depends on \<open>require_auth\<close> of its router and on \<open>require_write_auth\<close>.\<close>

definition require_write_auth :: "app_state \<Rightarrow> string option \<Rightarrow> exn + unit" where
  "require_write_auth st a =
     (case require_auth st a of Inl e \<Rightarrow> Inl e | Inr _ \<Rightarrow> require_api_write_token (get_settings st) a)"

section \<open>Routes\<close>

definition post_job ::
  "url_parser \<Rightarrow> app_state \<Rightarrow> string option \<Rightarrow> enqueue_request \<Rightarrow> env \<Rightarrow> db \<Rightarrow> enqueue_result response \<times> db" where
  "post_job urlparse st a raw =
     run_route (require_write_auth st a) (EnqueueJobRequest raw)
       (\<lambda>r. enqueue (es_repository (get_enqueue_service st)) urlparse (es_settings (get_enqueue_service st)) (Model r))
       (\<lambda>res. if er_created res then 201 else 200)"

record list_query =
  lq_filter :: job_filter
  lq_limit :: int
  lq_offset :: int
  lq_include_total :: bool

definition list_query_ok :: "list_query \<Rightarrow> exn + list_query" where
  "list_query_ok q =
     (if 1 \<le> lq_limit q \<and> lq_limit q \<le> 200 \<and> 0 \<le> lq_offset q then Inr q
      else Inl (PydanticValidationError ''query''))"

definition get_jobs :: "app_state \<Rightarrow> string option \<Rightarrow> list_query \<Rightarrow> env \<Rightarrow> db \<Rightarrow> job_list_response response \<times> db" where
  "get_jobs st a q =
     run_route (require_auth st a) (list_query_ok q)
       (\<lambda>q. service_list_jobs (js_job_repository (get_job_service st)) (lq_filter q) (nat (lq_limit q))
              (nat (lq_offset q)) (lq_include_total q)) (\<lambda>_. 200)"

text \<open>\<open>job_id\<close> is what the parser of the path made of it.\<close>

definition get_job_detail :: "app_state \<Rightarrow> string option \<Rightarrow> exn + uuid \<Rightarrow> env \<Rightarrow> db \<Rightarrow> job_row response \<times> db" where
  "get_job_detail st a job_id =
     run_route (require_auth st a) job_id (detail (js_job_repository (get_job_service st))) (\<lambda>_. 200)"

definition get_attempts :: "app_state \<Rightarrow> string option \<Rightarrow> exn + uuid \<Rightarrow> env \<Rightarrow> db \<Rightarrow> attempt_row list response \<times> db" where
  "get_attempts st a job_id =
     run_route (require_auth st a) job_id
       (attempts_for_job (js_job_repository (get_job_service st)) (js_attempt_repository (get_job_service st)))
       (\<lambda>_. 200)"

definition post_replay ::
  "app_state \<Rightarrow> string option \<Rightarrow> exn + uuid \<Rightarrow> bool \<Rightarrow> env \<Rightarrow> db \<Rightarrow> replay_response response \<times> db" where
  "post_replay st a job_id force =
     run_route (require_write_auth st a) job_id (\<lambda>i. replay (js_job_repository (get_job_service st)) i force) (\<lambda>_. 201)"

definition post_cancel :: "app_state \<Rightarrow> string option \<Rightarrow> exn + uuid \<Rightarrow> env \<Rightarrow> db \<Rightarrow> cancel_response response \<times> db" where
  "post_cancel st a job_id =
     run_route (require_write_auth st a) job_id (cancel (js_job_repository (get_job_service st))) (\<lambda>_. 200)"

definition get_queues :: "app_state \<Rightarrow> string option \<Rightarrow> env \<Rightarrow> db \<Rightarrow> queue_row list response \<times> db" where
  "get_queues st a =
     run_route (require_auth st a) (Inr ()) (\<lambda>_. service_list_queues (get_queue_service st)) (\<lambda>_. 200)"

definition put_queue ::
  "app_state \<Rightarrow> string option \<Rightarrow> string \<Rightarrow> queue_update_request \<Rightarrow> env \<Rightarrow> db \<Rightarrow> queue_row response \<times> db" where
  "put_queue st a name request =
     run_route (require_write_auth st a) (QueueUpdateRequest request)
       (upsert_or_update (get_queue_service st) name) (\<lambda>_. 200)"

definition post_pause :: "app_state \<Rightarrow> string option \<Rightarrow> string \<Rightarrow> env \<Rightarrow> db \<Rightarrow> queue_row response \<times> db" where
  "post_pause st a name =
     run_route (require_write_auth st a) (Inr name) (pause (get_queue_service st)) (\<lambda>_. 200)"

definition post_resume :: "app_state \<Rightarrow> string option \<Rightarrow> string \<Rightarrow> env \<Rightarrow> db \<Rightarrow> queue_row response \<times> db" where
  "post_resume st a name =
     run_route (require_write_auth st a) (Inr name) (resume (get_queue_service st)) (\<lambda>_. 200)"

definition get_stats_route ::
  "app_state \<Rightarrow> string option \<Rightarrow> bool \<Rightarrow> env \<Rightarrow> db \<Rightarrow> stats_response response \<times> db" where
  "get_stats_route st a approximate =
     run_route (require_auth st a) (Inr approximate) (get_stats (get_stats_service st)) (\<lambda>_. 200)"

definition get_workers :: "app_state \<Rightarrow> string option \<Rightarrow> env \<Rightarrow> db \<Rightarrow> (worker_row \<times> bool) list response \<times> db" where
  "get_workers st a =
     run_route (require_auth st a) (Inr ()) (\<lambda>_. service_list_workers (get_worker_service st)) (\<lambda>_. 200)"

text \<open>\<open>/readyz\<close> opens a session of its own and needs no token.\<close>

definition readyz :: "env \<Rightarrow> db \<Rightarrow> unit response" where
  "readyz e d =
     (case execute (query (\<lambda>t d. ())) (open_session e d) of
        (Inl (SQLAlchemyError m), _) \<Rightarrow> error_response (DatabaseUnavailableError ''Database unavailable'')
      | (r, _) \<Rightarrow> respond (\<lambda>_. 200) r)"

section \<open>Facts\<close>

text \<open>The route ran to its end.\<close>

fun is_ok :: "'a response \<Rightarrow> bool" where
  "is_ok (Ok_response _ _) = True"
| "is_ok (Error_response _ _) = False"

lemma error_body_not_ok [simp]: "\<not> is_ok (error_body c m dt st)" "\<not> is_ok (unexpected_exception e)"
  by (simp_all add: error_body_def ApiError_def unexpected_exception_def)

lemma error_response_not_ok [simp]: "\<not> is_ok (error_response e)"
  by (simp add: error_response_def split: exn.split http_detail.split option.split)

lemma parameters_Inl: "parameters parsed = Inl resp \<Longrightarrow> \<not> is_ok resp"
  by (auto simp: parameters_def request_validation_response_def split: sum.splits exn.splits)

text \<open>A refused or failed request leaves the database as it was.\<close>

lemma run_route_error:
  fixes resp :: "'a response" and parsed :: "exn + 'r"
  assumes "\<And>r. uncommitted (body r)" and "run_route auth parsed body st e d = (resp, d')"
    and "\<not> is_ok resp"
  shows "d' = d"
proof (cases auth)
  case (Inl x)
  with assms(2) show ?thesis by (simp add: run_route_def)
next
  case (Inr u)
  note auth = Inr
  show ?thesis
  proof (cases "parameters parsed :: 'a response + 'r")
    case (Inl resp')
    with assms(2) auth show ?thesis by (simp add: run_route_def)
  next
    case (Inr r)
    with assms(2) auth have resp: "resp = respond st (fst (transact e (body r) d))"
      and d': "d' = snd (transact e (body r) d)"
      by (auto simp: run_route_def split: prod.splits)
    from resp assms(3) obtain x where "fst (transact e (body r) d) = Inl x"
      by (auto simp: respond_def split: sum.splits)
    with d' transact_raise [OF assms(1)] show ?thesis by blast
  qed
qed

lemma run_route_unauthorized: "auth = Inl x \<Longrightarrow> run_route auth parsed body st e d = (error_response x, d)"
  by (simp add: run_route_def)

text \<open>A transaction that only reads.\<close>

definition reads :: "'a tx \<Rightarrow> bool" where
  "reads m \<longleftrightarrow> (\<forall>d. keeps (\<lambda>d'. d' = d) m)"

lemma run_route_reads:
  assumes "\<And>r. reads (body r)"
  shows "snd (run_route auth parsed body st e d) = d"
proof -
  have "snd (transact e (body r) d) = d" for r
    using transact_keeps [of "\<lambda>d'. d' = d" "body r" d e] assms by (simp add: reads_def)
  then show ?thesis
    by (auto simp: run_route_def split: sum.split prod.split)
      (metis snd_conv)
qed

lemma require_write_auth_Inr:
  "require_write_auth st a = Inr () \<longleftrightarrow> require_api_write_token (get_settings st) a = Inr ()"
proof (cases "require_api_token (get_settings st) a")
  case (Inl e)
  then have "require_api_token (get_settings st) a \<noteq> Inr ()" by simp
  then have "require_api_write_token (get_settings st) a \<noteq> Inr ()"
    unfolding require_api_token_Inr require_api_write_token_Inr by blast
  with Inl show ?thesis by (simp add: require_write_auth_def require_auth_def)
next
  case (Inr u)
  then show ?thesis by (simp add: require_write_auth_def require_auth_def)
qed

text \<open>
  The caller may write: it presents a write token, or no token at all is configured.
\<close>

definition write_access :: "settings \<Rightarrow> string option \<Rightarrow> bool" where
  "write_access s a \<longleftrightarrow>
     get_api_tokens s \<union> get_read_only_api_tokens s = {} \<or> (\<exists>t \<in> get_api_tokens s. a = Some (''Bearer '' @ t))"

lemma write_route_effect:
  assumes "\<And>r. uncommitted (body r)" and "snd (run_route (require_write_auth app a) parsed body st e d) \<noteq> d"
  shows "is_ok (fst (run_route (require_write_auth app a) parsed body st e d)) \<and> write_access (get_settings app) a"
proof -
  obtain resp d' where r: "run_route (require_write_auth app a) parsed body st e d = (resp, d')"
    by (cases "run_route (require_write_auth app a) parsed body st e d")
  with assms(2) run_route_error [OF assms(1) r] have "is_ok resp" by auto
  moreover have "require_write_auth app a = Inr ()"
  proof (cases "require_write_auth app a")
    case (Inl x)
    with assms(2) show ?thesis by (simp add: run_route_def)
  qed simp
  then have "write_access (get_settings app) a"
    unfolding require_write_auth_Inr require_api_write_token_Inr write_access_def .
  ultimately show ?thesis by (simp add: r)
qed

lemma reads_intro: "(\<And>I. keeps I m) \<Longrightarrow> reads m"
  by (simp add: reads_def)

lemma keeps_estimate_query [wf_intros]: "keeps I (estimate_query_rows p q st)"
  unfolding estimate_query_rows_def by (intro keeps_intros)

lemma keeps_estimated_counts [wf_intros]: "keeps I (estimated_counts p sts)"
proof (induction sts)
  case Nil
  show ?case unfolding estimated_counts.simps by (intro keeps_intros)
next
  case (Cons st sts)
  show ?case unfolding estimated_counts.simps by (intro keeps_intros keeps_estimate_query Cons.IH)
qed

lemma keeps_estimated_depth [wf_intros]: "keeps I (estimated_depth p ks)"
proof (induction ks)
  case Nil
  show ?case unfolding estimated_depth.simps by (intro keeps_intros)
next
  case (Cons k ks)
  show ?case
    by (cases k) (simp only: estimated_depth.simps, intro keeps_intros keeps_estimate_query Cons.IH)
qed

lemma keeps_get_stats: "keeps I (get_stats (StatsRepository p) approximate)"
  unfolding get_stats_def StatsRepository_simps counts_by_status_def queue_depth_def oldest_pending_age_def
    exact_counts_by_status_def exact_queue_depth_def queue_names_def
  by (intro keeps_intros wf_intros)

lemma keeps_job_reads:
  "keeps I (service_list_jobs JobRepository f limit offset include_total)" "keeps I (detail JobRepository i)"
  "keeps I (attempts_for_job JobRepository AttemptRepository i)"
  unfolding service_list_jobs_def detail_def attempts_for_job_def list_by_job_id_def JobRepository_simps repository_simps
  by (intro keeps_intros wf_intros)+

lemma keeps_other_reads: "keeps I (service_list_queues QueueRepository)" "keeps I (service_list_workers WorkerRepository)"
  unfolding service_list_queues_def service_list_workers_def list_workers_def QueueRepository_simps
    repository_simps by (intro keeps_intros wf_intros)+

lemma uncommitted_queue_routes:
  "uncommitted (upsert_or_update QueueRepository n request)" "uncommitted (pause QueueRepository n)"
  "uncommitted (resume QueueRepository n)"
  unfolding uncommitted_def upsert_or_update_def pause_def resume_def checked_name_def QueueRepository_simps
  by (intro keeps_intros uncommitted_queue_ops [unfolded uncommitted_def])+

lemma sort_key_map:
  assumes "\<And>x. k (f x) = k x"
  shows "sort_key k (map f xs) = map f (sort_key k xs)"
proof -
  have "insort_key k (f x) (map f ys) = map f (insort_key k x ys)" for x ys
    by (induction ys) (simp_all add: assms)
  then show ?thesis by (induction xs) simp_all
qed

text \<open>
  Every error is answered with an envelope that its schema accepts, and no envelope says more of an
  unexpected exception than its class.
\<close>

fun valid_error :: "'a response \<Rightarrow> bool" where
  "valid_error (Error_response st b) \<longleftrightarrow> ae_code b \<noteq> [] \<and> ae_message b \<noteq> []"
| "valid_error (Ok_response st x) \<longleftrightarrow> False"

lemma valid_error_body [simp]: "valid_error (error_body c m dt st)" "valid_error (unexpected_exception e)"
  by (simp_all add: error_body_def ApiError_def unexpected_exception_def)

lemma error_response_valid:
  assumes "\<And>st c m. e = HTTPException st (Envelope c m) \<Longrightarrow> c \<noteq> [] \<and> m \<noteq> []"
  shows "valid_error (error_response e)"
  using assms by (cases e) (auto simp: error_response_def split: http_detail.split option.split)

lemma error_response_domain:
  assumes "error_code e = Some ec" and "exn_message e \<noteq> []"
  shows "(error_response e :: 'a response) =
    Error_response (the (map_of ERROR_STATUS_CODES ec)) \<lparr>ae_code = ec, ae_message = exn_message e, ae_details = No_details\<rparr>"
  using assms
  by (cases e) (auto simp: error_response_def error_body_def ApiError_def ERROR_STATUS_CODES_def)

lemma error_response_unexpected:
  assumes "error_code e = None" and "\<nexists>st dt. e = HTTPException st dt"
  shows "(error_response e :: 'a response) = unexpected_exception e"
  using assms by (cases e) (simp_all add: error_response_def)

section \<open>What the responses show\<close>

text \<open>
  The database with other payloads, headers and metadata in its jobs and other response body
  previews in its attempts.
\<close>

definition with_secrets :: "(uuid \<Rightarrow> dict) \<Rightarrow> (uuid \<Rightarrow> dict) \<Rightarrow> (uuid \<Rightarrow> dict) \<Rightarrow> job_row \<Rightarrow> job_row" where
  "with_secrets f g h j = j\<lparr>j_payload := f (j_id j), j_headers := g (j_id j), j_metadata := h (j_id j)\<rparr>"

definition with_preview :: "(uuid \<Rightarrow> string) \<Rightarrow> attempt_row \<Rightarrow> attempt_row" where
  "with_preview p a = a\<lparr>a_response_body_preview := map_option (\<lambda>_. p (a_id a)) (a_response_body_preview a)\<rparr>"

definition disguised :: "(uuid \<Rightarrow> dict) \<Rightarrow> (uuid \<Rightarrow> dict) \<Rightarrow> (uuid \<Rightarrow> dict) \<Rightarrow> (uuid \<Rightarrow> string) \<Rightarrow> db \<Rightarrow> db" where
  "disguised f g h p d =
     d\<lparr>jobs := map (with_secrets f g h) (jobs d), attempts := map (with_preview p) (attempts d)\<rparr>"

lemma with_secrets_simps [simp]:
  "j_id (with_secrets f g h j) = j_id j" "job_response (with_secrets f g h j) = job_response j"
  "job_list_item_of (with_secrets f g h j) = job_list_item_of j"
  "j_created_at (with_secrets f g h j) = j_created_at j" "j_status (with_secrets f g h j) = j_status j"
  "j_queue_name (with_secrets f g h j) = j_queue_name j" "j_kind (with_secrets f g h j) = j_kind j"
  "j_name (with_secrets f g h j) = j_name j" "j_dedupe_key (with_secrets f g h j) = j_dedupe_key j"
  by (simp_all add: with_secrets_def job_response_def job_list_item_of_def)

lemma with_preview_simps [simp]:
  "a_job_id (with_preview p a) = a_job_id a" "a_started_at (with_preview p a) = a_started_at a"
  "attempt_response (with_preview p a) = attempt_response a"
  by (auto simp: with_preview_def attempt_response_def)

lemma job_by_id_disguised [simp]:
  "job_by_id i (disguised f g h p d) = map_option (with_secrets f g h) (job_by_id i d)"
proof -
  have "find (\<lambda>j. j_id j = i) (map (with_secrets f g h) js) =
      map_option (with_secrets f g h) (find (\<lambda>j. j_id j = i) js)" for js
    by (induction js) simp_all
  then show ?thesis by (simp add: job_by_id_def disguised_def)
qed

lemma filtered_select_disguised [simp]:
  "filtered_select q (disguised f g h p d) = map (with_secrets f g h) (filtered_select q d)"
  by (simp add: filtered_select_def disguised_def filter_map comp_def cong: option.case_cong)

lemma attempts_disguised [simp]: "attempts (disguised f g h p d) = map (with_preview p) (attempts d)"
  by (simp add: disguised_def)

lemmas reading_defs = transact_def get_session_def bind_tx_def execute_def Let_def catch_sql_def query_def
  open_session_def

lemma detail_disguised:
  "fst (transact e (detail JobRepository i) (disguised f g h p d)) = fst (transact e (detail JobRepository i) d)"
  by (auto simp: reading_defs detail_def get_job_def split: option.split)

lemma attempts_disguised_route:
  "fst (transact e (attempts_for_job JobRepository AttemptRepository i) (disguised f g h p d)) =
   fst (transact e (attempts_for_job JobRepository AttemptRepository i) d)"
  by (auto simp: reading_defs attempts_for_job_def list_by_job_id_def get_job_def to_attempt_row_def
      sort_key_map filter_map comp_def split: option.split)

lemma list_disguised:
  "fst (transact e (service_list_jobs JobRepository q l n b) (disguised f g h p d)) =
   fst (transact e (service_list_jobs JobRepository q l n b) d)"
  by (auto simp: reading_defs with_values_def service_list_jobs_def list_jobs_def row_from_model_def
      sort_key_map drop_map take_map comp_def)

lemma run_route_same:
  fixes body :: "'r \<Rightarrow> 'a tx"
  assumes "\<And>r. fst (transact e (body r) d') = fst (transact e (body r) d)"
  shows "fst (run_route auth parsed body st e d') = fst (run_route auth parsed body st e d)"
proof -
  have "fst (case transact e (body r) d0 of (res, d1) \<Rightarrow> (respond st res, d1)) = respond st (fst (transact e (body r) d0))"
    for r d0
    by (simp split: prod.split)
  then show ?thesis
    using assms by (simp add: run_route_def split: sum.split)
qed

end
