(* ===== verification/Cli.thy ===== *)
theory Cli imports Job_Service Purge_Service Validation begin

text \<open>
  The operational commands (\<open>cli/commands_jobs.py\<close>, \<open>cli/commands_doctor.py\<close>): replaying a job, waiting
  for a queue to drain, purging, and the health check of an installation.
\<close>

section \<open>How a command ends\<close>

text \<open>
  The exit code of the process and the line it prints. An exception that leaves the command ends the
  process with a traceback and code 1; a command that returns ends it with 0.
\<close>

type_synonym command_end = "int \<times> string option"

definition finish :: "exn + int \<times> string \<Rightarrow> command_end" where
  "finish r = (case r of Inl e \<Rightarrow> (1, None) | Inr (status, line) \<Rightarrow> (status, Some line))"

section \<open>Replay and purge\<close>

definition replay_async :: "settings \<Rightarrow> env \<Rightarrow> uuid \<Rightarrow> bool \<Rightarrow> db \<Rightarrow> (exn + uuid) \<times> db" where
  "replay_async environ e job_id force d =
     (case runtime_settings environ of
        Inl x \<Rightarrow> (Inl x, d)
      | Inr s \<Rightarrow>
          (case transact e (replay JobRepository job_id force) d of
             (Inl x, d') \<Rightarrow> (Inl x, d')
           | (Inr result, d') \<Rightarrow> (Inr (rr_new_job_id result), d')))"

definition replay_command :: "settings \<Rightarrow> env \<Rightarrow> uuid \<Rightarrow> bool \<Rightarrow> db \<Rightarrow> command_end \<times> db" where
  "replay_command environ e job_id force d =
     (case replay_async environ e job_id force d of
        (r, d') \<Rightarrow> (finish (map_sum id (\<lambda>i. (0, uuid_str i)) r), d'))"

text \<open>The line printed names two of the three counts.\<close>

definition purge_async :: "settings \<Rightarrow> (nat \<Rightarrow> env) \<Rightarrow> db \<Rightarrow> ((exn + nat \<times> nat) \<times> db) option" where
  "purge_async environ envs d =
     (case runtime_settings environ of
        Inl x \<Rightarrow> Some (Inl x, d)
      | Inr s \<Rightarrow>
          map_option (\<lambda>(r, d'). (map_sum id (\<lambda>summary. (ps_succeeded summary, ps_dead_letter summary)) r, d'))
            (purge_until_done JobRepository s envs d))"

definition purge_command :: "settings \<Rightarrow> (nat \<Rightarrow> env) \<Rightarrow> db \<Rightarrow> (command_end \<times> db) option" where
  "purge_command environ envs d =
     map_option (\<lambda>(r, d').
         (finish (map_sum id (\<lambda>(a, b).
            (0, ''purged succeeded='' @ nat_str a @ '' dead_letter='' @ nat_str b)) r), d'))
       (purge_async environ envs d)"

section \<open>Drain\<close>

definition status_filter :: "job_status \<Rightarrow> string \<Rightarrow> job_filter" where
  "status_filter st q =
     \<lparr>f_status = Some (status_text st), f_queue_name = Some q, f_kind = None, f_name = None,
      f_dedupe_key = None\<rparr>"

text \<open>The two listings of a round, in one session that is closed without a commit.\<close>

definition drain_probe :: "job_repository \<Rightarrow> string \<Rightarrow> nat tx" where
  "drain_probe repository q =
     bind_tx (jr_list_jobs repository (status_filter Pending q) 1 0 True) (\<lambda>pending.
     bind_tx (jr_list_jobs repository (status_filter Leased q) 1 0 True) (\<lambda>leased.
     return_tx (the_default 0 (total pending) + the_default 0 (total leased))))"

text \<open>
  \<open>obs k\<close> is the database the session of round \<open>k\<close> sees, with its environment, and \<open>clock k\<close> the time
  read after it.
\<close>

partial_function (option) drain_loop ::
  "job_repository \<Rightarrow> string \<Rightarrow> (nat \<Rightarrow> env \<times> db) \<Rightarrow> (nat \<Rightarrow> rat) \<Rightarrow> rat \<Rightarrow> nat \<Rightarrow> (exn + int) option" where
  "drain_loop repository q obs clock deadline k =
     (case fst (drain_probe repository q (open_session (fst (obs k)) (snd (obs k)))) of
        Inl e \<Rightarrow> Some (Inl e)
      | Inr n \<Rightarrow>
          if n = 0 then Some (Inr 0)
          else if deadline \<le> clock k then Some (Inr 1)
          else drain_loop repository q obs clock deadline (Suc k))"

definition drain_async ::
  "settings \<Rightarrow> string \<Rightarrow> rat \<Rightarrow> rat \<Rightarrow> (nat \<Rightarrow> env \<times> db) \<Rightarrow> (nat \<Rightarrow> rat) \<Rightarrow> (exn + int) option" where
  "drain_async environ q started timeout_seconds obs clock =
     (case validate_queue_name q of
        Inl e \<Rightarrow> Some (Inl e)
      | Inr _ \<Rightarrow>
          (case runtime_settings environ of
             Inl e \<Rightarrow> Some (Inl e)
           | Inr s \<Rightarrow> drain_loop JobRepository q obs clock (started + timeout_seconds) 0))"

definition drain_command ::
  "settings \<Rightarrow> string \<Rightarrow> rat \<Rightarrow> rat \<Rightarrow> (nat \<Rightarrow> env \<times> db) \<Rightarrow> (nat \<Rightarrow> rat) \<Rightarrow> command_end option" where
  "drain_command environ q started timeout_seconds obs clock =
     map_option (\<lambda>r. finish (map_sum id (\<lambda>c. (c, if c = 0 then ''drained'' else ''drain timed out'')) r))
       (drain_async environ q started timeout_seconds obs clock)"

section \<open>Doctor\<close>

definition required_tables :: "string list" where
  "required_tables =
     [''pgrelay_queue'', ''pgrelay_job'', ''pgrelay_attempt'', ''pgrelay_worker'',
      ''pgrelay_alembic_version'']"

text \<open>What the server says of itself: its version number, which tables exist, and the revision Alembic noted.\<close>

record server_info =
  server_version_num :: "int option"
  to_regclass :: "string \<Rightarrow> bool"
  alembic_version :: "string option"

definition stale_pending :: "time \<Rightarrow> db \<Rightarrow> bool" where
  "stale_pending t d \<longleftrightarrow> (\<exists>j \<in> set (jobs d). j_status j = Pending \<and> j_available_at j < t - minutes 10)"

definition alive_worker :: "time \<Rightarrow> db \<Rightarrow> bool" where
  "alive_worker t d \<longleftrightarrow> (\<exists>w \<in> set (workers d). t - minutes 2 < w_last_heartbeat_at w)"

text \<open>The first check that fails, or that all is well: the exit code and the line.\<close>

definition doctor_checks :: "server_info \<Rightarrow> time \<Rightarrow> db \<Rightarrow> int \<times> string" where
  "doctor_checks srv t d =
     (if (case server_version_num srv of None \<Rightarrow> True | Some v \<Rightarrow> v < 150000)
      then (1, ''PostgreSQL 15 or newer is required'')
      else case find (\<lambda>n. \<not> to_regclass srv n) required_tables of
        Some table_name \<Rightarrow> (1, ''Missing table: '' @ table_name)
      | None \<Rightarrow>
          if DEFAULT_QUEUE_NAME \<notin> q_name ` set (queues d) then (1, ''Missing queue: '' @ DEFAULT_QUEUE_NAME)
          else if stale_pending t d \<and> \<not> alive_worker t d
          then (1, ''Pending jobs are stale and no alive worker was found'')
          else (0, ''ok postgresql='' @ (case server_version_num srv of None \<Rightarrow> ''None'' | Some v \<Rightarrow> int_str v) @
                   '' migration='' @ (case alembic_version srv of None \<Rightarrow> ''None'' | Some v \<Rightarrow> v) @
                   '' queue='' @ DEFAULT_QUEUE_NAME))"

definition doctor_async :: "settings \<Rightarrow> server_info \<Rightarrow> time \<Rightarrow> db \<Rightarrow> exn + int \<times> string" where
  "doctor_async environ srv t d = map_sum id (\<lambda>s. doctor_checks srv t d) (runtime_settings environ)"

definition doctor_command :: "settings \<Rightarrow> server_info \<Rightarrow> time \<Rightarrow> db \<Rightarrow> command_end" where
  "doctor_command environ srv t d = finish (doctor_async environ srv t d)"

section \<open>The commands\<close>

text \<open>The commands of \<open>cli/app.py\<close>, with those of the group \<open>migrate\<close>, by the words that select them.\<close>

datatype command_name =
    Run_api
  | Run_worker
  | Doctor
  | Replay
  | Drain
  | Purge
  | Migrate_upgrade
  | Migrate_downgrade

definition migrate_app :: "(string list \<times> command_name) list" where
  "migrate_app = [([''upgrade''], Migrate_upgrade), ([''downgrade''], Migrate_downgrade)]"

definition cli_app :: "(string list \<times> command_name) list" where
  "cli_app =
     [([''api''], Run_api), ([''worker''], Run_worker), ([''doctor''], Doctor), ([''replay''], Replay),
      ([''drain''], Drain), ([''purge''], Purge)] @
     map (\<lambda>(words, c). (''migrate'' # words, c)) migrate_app"

lemma cli_app_commands: "distinct (map fst cli_app) \<and> distinct (map snd cli_app) \<and> snd ` set cli_app = UNIV"
  by (auto simp: cli_app_def migrate_app_def intro: command_name.exhaust)

section \<open>Facts\<close>

lemma finish_zero: "fst (finish r) = 0 \<longleftrightarrow> (\<exists>line. r = Inr (0, line))"
  by (auto simp: finish_def split: sum.split)

text \<open>The doctor is content exactly when every check passes.\<close>

lemma doctor_zero:
  "fst (doctor_command environ srv t d) = 0 \<longleftrightarrow>
     (\<exists>s. runtime_settings environ = Inr s) \<and> (\<exists>v \<ge> 150000. server_version_num srv = Some v) \<and>
     (\<forall>n \<in> set required_tables. to_regclass srv n) \<and> DEFAULT_QUEUE_NAME \<in> q_name ` set (queues d) \<and>
     (stale_pending t d \<longrightarrow> alive_worker t d)"
  unfolding doctor_command_def finish_zero
  by (cases "runtime_settings environ")
    (auto simp: doctor_async_def doctor_checks_def find_None_iff find_Some_iff not_less
      split: option.splits if_splits)

lemma list_jobs_total:
  assumes "list_jobs f limit offset True s = (Inr r, s')"
  shows "total r = Some (length (filtered_select f (working s)))" and "working s' = working s"
  using assms by (auto simp: list_jobs_def bind_tx_Inr_iff execute_Inr_iff query_def)

lemma filtered_status:
  "j \<in> set (filtered_select (status_filter st q) d) \<longleftrightarrow>
     j \<in> set (jobs d) \<and> j_status j = st \<and> j_queue_name j = q"
  by (auto simp: filtered_select_def status_filter_def passes_def status_text_inj)

lemma drain_probe_zero:
  assumes "drain_probe JobRepository q s = (Inr 0, s')" and "j \<in> set (jobs (working s))"
    and "j_queue_name j = q"
  shows "terminal (j_status j)"
proof -
  from assms(1) obtain p s1 l s2 where
    p: "list_jobs (status_filter Pending q) 1 0 True s = (Inr p, s1)" and
    l: "list_jobs (status_filter Leased q) 1 0 True s1 = (Inr l, s2)" and
    z: "the_default 0 (total p) + the_default 0 (total l) = 0"
    by (auto simp: drain_probe_def bind_tx_Inr_iff)
  from z list_jobs_total [OF p] list_jobs_total [OF l]
  have "filtered_select (status_filter Pending q) (working s) = []"
    "filtered_select (status_filter Leased q) (working s) = []"
    by simp_all
  with assms(2,3) filtered_status show ?thesis
    by (cases "j_status j") (metis empty_iff empty_set, metis empty_iff empty_set, simp_all)
qed

text \<open>The jobs of a queue that still have to run.\<close>

definition unfinished :: "string \<Rightarrow> db \<Rightarrow> job_row set" where
  "unfinished q d = {j \<in> set (jobs d). j_queue_name j = q \<and> \<not> terminal (j_status j)}"

text \<open>How a round that ends the loop ends it.\<close>

definition drain_end ::
  "job_repository \<Rightarrow> string \<Rightarrow> (nat \<Rightarrow> env \<times> db) \<Rightarrow> (nat \<Rightarrow> rat) \<Rightarrow> rat \<Rightarrow> nat \<Rightarrow> exn + int \<Rightarrow> bool" where
  "drain_end R q obs clock deadline i r \<longleftrightarrow>
     (\<exists>e. r = Inl e) \<or>
     (r = Inr 0 \<and> fst (drain_probe R q (open_session (fst (obs i)) (snd (obs i)))) = Inr 0) \<or>
     (r = Inr 1 \<and> deadline \<le> clock i)"

lemma drain_loop_ends:
  assumes "drain_loop R q obs clock deadline k = Some r"
  shows "\<exists>i \<ge> k. drain_end R q obs clock deadline i r"
proof (rule drain_loop.raw_induct [where P = "\<lambda>R q obs clock deadline k r. \<exists>i \<ge> k. drain_end R q obs clock deadline i r", OF _ assms],
    goal_cases)
  case (1 f R q obs clock deadline k r)
  show ?case
  proof (cases "fst (drain_probe R q (open_session (fst (obs k)) (snd (obs k))))")
    case (Inl e)
    with 1(2) show ?thesis by (auto simp: drain_end_def)
  next
    case (Inr n)
    show ?thesis
    proof (cases "n = 0 \<or> deadline \<le> clock k")
      case True
      with 1(2) Inr show ?thesis
        by (intro exI [of _ k]) (auto simp: drain_end_def split: if_splits)
    next
      case False
      with 1(2) Inr have "f R q obs clock deadline (Suc k) = Some r" by simp
      from 1(1) [OF this] show ?thesis using Suc_leD by blast
    qed
  qed
qed

text \<open>If the clock passes the deadline, the loop ends.\<close>

lemma drain_loop_returns:
  assumes "deadline \<le> clock m" and "k \<le> m"
  shows "drain_loop R q obs clock deadline k \<noteq> None"
  using assms(2)
proof (induction "m - k" arbitrary: k)
  case 0
  with assms(1) show ?case by (subst drain_loop.simps) (auto split: sum.split)
next
  case (Suc x)
  then have "drain_loop R q obs clock deadline (Suc k) \<noteq> None" by (intro Suc(1)) simp_all
  then show ?case by (subst drain_loop.simps) (auto split: sum.split)
qed

end
