(* ===== verification/Fixtures.thy ===== *)
theory Fixtures imports Runner Api Cli begin

text \<open>
  Concrete databases, environments and requests at which the properties are applied.
\<close>

definition fx_env :: "time \<Rightarrow> nat \<Rightarrow> env" where
  "fx_env t base =
     \<lparr>e_now = t, e_ids = (\<lambda>n k. of_nat (base + 10 * n + k)), e_faults = (\<lambda>_. False),
      e_locked = (\<lambda>_. False)\<rparr>"

definition fx_job :: "uuid \<Rightarrow> job_status \<Rightarrow> int \<Rightarrow> job_row" where
  "fx_job i st attempts_made =
     \<lparr>j_id = i, j_queue_name = ''default'', j_kind = ''handler'', j_name = ''send'', j_payload = [],
      j_headers = [], j_metadata = [], j_status = st, j_priority = 0, j_max_attempts = 3,
      j_attempt_count = attempts_made, j_available_at = 0, j_timeout_seconds = 30,
      j_idempotency_key = None, j_dedupe_key = None, j_replayed_from_job_id = None,
      j_locked_by = (if st = Leased then Some ''w1'' else None),
      j_locked_until = (if st = Leased then Some 5 else None), j_last_error_type = None,
      j_last_error_message = None, j_last_response_status = None, j_trace_id = None,
      j_created_at = 0, j_updated_at = 0,
      j_completed_at = (if terminal st then Some 1 else None)\<rparr>"

definition fx_queue :: queue_row where
  "fx_queue =
     \<lparr>q_name = ''default'', q_paused = False, q_concurrency_limit = 2, q_created_at = 0, q_updated_at = 0\<rparr>"

text \<open>A queue of limit two with one job leased to \<open>w1\<close>, two pending and two finished.\<close>

definition fx_db :: db where
  "fx_db =
     \<lparr>queues = [fx_queue],
      jobs = [fx_job 1 Leased 1, fx_job 2 Pending 0, fx_job 3 Pending 0, fx_job 4 Dead_letter 3,
              fx_job 5 Succeeded 1],
      attempts = [], workers = []\<rparr>"

lemma fx_job_simps [simp]:
  "j_id (fx_job i st n) = i" "j_status (fx_job i st n) = st" "j_attempt_count (fx_job i st n) = n"
  "j_queue_name (fx_job i st n) = ''default''" "j_idempotency_key (fx_job i st n) = None"
  "j_replayed_from_job_id (fx_job i st n) = None" "j_max_attempts (fx_job i st n) = 3"
  by (simp_all add: fx_job_def)

lemma fx_wf: "wf_db fx_db"
  by (simp add: wf_db_def schema_ok_def fx_db_def fx_queue_def queue_checks_def job_checks_def
      idem_entry_def job_ok_def)
    (simp add: fx_job_def JOB_KINDS_def JOB_KIND_HANDLER_def)

definition fx_params :: "string option \<Rightarrow> job_params" where
  "fx_params k =
     \<lparr>p_queue_name = ''default'', p_kind = ''handler'', p_name = ''send'', p_payload = [],
      p_headers = [], p_metadata = [], p_priority = 0, p_max_attempts = 2, p_timeout_seconds = 30,
      p_available_at = None, p_idempotency_key = k, p_dedupe_key = None, p_trace_id = None,
      p_replayed_from_job_id = None\<rparr>"

text \<open>The database after \<open>w2\<close> has claimed, and that claim.\<close>

definition fx_row2 :: job_row where
  "fx_row2 = lease_job 9 ''w2'' 60 (fx_job 2 Pending 0)"

definition fx_db1 :: db where
  "fx_db1 = fx_db\<lparr>jobs := [fx_job 1 Leased 1, fx_row2, fx_job 3 Pending 0, fx_job 4 Dead_letter 3,
     fx_job 5 Succeeded 1]\<rparr>"

lemma fx_claim: "transact (fx_env 9 100) (claim_jobs ''w2'' [''default''] 5 60) fx_db = (Inr [fx_row2], fx_db1)"
  by code_simp

lemma fx_claim_again: "transact (fx_env 9 200) (claim_jobs ''w3'' [''default''] 5 60) fx_db1 = (Inr [], fx_db1)"
  by code_simp

lemma fx_row2_simps [simp]: "j_id fx_row2 = 2" "j_status fx_row2 = Leased" "j_queue_name fx_row2 = ''default''"
  by (simp_all add: fx_row2_def)

section \<open>A lease that is lost and taken again\<close>

text \<open>
  A job with two attempts is claimed by \<open>w1\<close>, its lease expires and is recovered, and \<open>w1\<close> claims it
  again. The first execution, still holding the row of the first claim, then reports a failure.
\<close>

definition st_new :: job_row where
  "st_new = new_job 0 120 (fx_params (Some ''k''))"

definition st_db :: "job_row \<Rightarrow> attempt_row list \<Rightarrow> db" where
  "st_db j as = \<lparr>queues = [new_queue 0 ''default''], jobs = [j], attempts = as, workers = []\<rparr>"

definition st_first :: job_row where
  "st_first = lease_job 1 ''w1'' 5 st_new"

definition st_lost :: attempt_row where
  "st_lost = expired_attempt 10000000 300 st_first"

definition st_second :: job_row where
  "st_second = lease_job 10000000 ''w1'' 5 (recover_job 10000000 st_first)"

definition st_late :: attempt_row where
  "st_late =
     \<lparr>a_id = 510, a_job_id = 120, a_attempt_number = 1, a_worker_id = ''w1'', a_status = Attempt_failed,
      a_started_at = 10000001, a_finished_at = 10000001, a_duration_ms = 0, a_error_type = None,
      a_error_message = None, a_response_status = None, a_response_body_preview = None\<rparr>"

definition st_stuck :: job_row where
  "st_stuck = failed True 2 None None None 10000001 st_second"

lemma st_insert: "transact (fx_env 0 100) (insert_job (fx_params (Some ''k''))) empty_db = (Inr (st_new, True), st_db st_new [])"
  by code_simp

lemma st_claim: "transact (fx_env 1 200) (claim_jobs ''w1'' [''default''] 1 5) (st_db st_new []) = (Inr [st_first], st_db st_first [])"
  by code_simp

lemma st_recover: "transact (fx_env 10000000 300) (recover_expired_leases 1) (st_db st_first []) =
    (Inr 1, st_db (recover_job 10000000 st_first) [st_lost])"
  by code_simp

lemma st_claim_again: "transact (fx_env 10000000 400) (claim_jobs ''w1'' [''default''] 1 5)
    (st_db (recover_job 10000000 st_first) [st_lost]) = (Inr [st_second], st_db st_second [st_lost])"
  by code_simp

lemma st_fail: "transact (fx_env 10000001 500) (fail_job st_first ''w1'' True False 2 0 None None None None)
    (st_db st_second [st_lost]) = (Inr True, st_db st_stuck [st_lost, st_late])"
  by code_simp

lemma st_reachable: "reachable strict (st_db st_second [st_lost])"
proof -
  have 1: "reachable strict (st_db st_new [])"
    using step [OF start s_insert, of strict "fx_env 0 100" "fx_params (Some ''k'')"] by (simp only: st_insert snd_conv)
  have 2: "reachable strict (st_db st_first [])"
    using step [OF 1 s_claim, of "fx_env 1 200" "''w1''" "[''default'']" 1 5] by (simp only: st_claim snd_conv)
  have 3: "reachable strict (st_db (recover_job 10000000 st_first) [st_lost])"
    using step [OF 2 s_recover, of "fx_env 10000000 300" 1] by (simp only: st_recover snd_conv)
  show ?thesis
    using step [OF 3 s_claim, of "fx_env 10000000 400" "''w1''" "[''default'']" 1 5] by (simp only: st_claim_again snd_conv)
qed

end
