(* ===== verification/Job_Contracts.thy ===== *)
theory Job_Contracts imports Job_Sql begin

text \<open>
  The words in which the properties of jobs are stated, written down without the statements that
  implement them: what makes a job eligible, which of two jobs runs first, when a lease is over and
  when a finished job has outlived its retention. Each is proved equivalent to the condition in the
  SQL of \<open>repositories/job_sql.py\<close>.
\<close>

definition eligible :: "time \<Rightarrow> job_row \<Rightarrow> bool" where
  "eligible t j \<longleftrightarrow> j_status j = Pending \<and> j_available_at j \<le> t \<and> j_attempt_count j < j_max_attempts j"

lemma claimable_eligible: "claimable t q j \<longleftrightarrow> j_queue_name j = q \<and> eligible t j"
  by (simp add: claimable_def eligible_def)

text \<open>Higher priority first, then the earlier due time, then the older job.\<close>

definition runs_before :: "job_row \<Rightarrow> job_row \<Rightarrow> bool" where
  "runs_before j k \<longleftrightarrow>
     j_priority k < j_priority j \<or>
     (j_priority k = j_priority j \<and>
       (j_available_at j < j_available_at k \<or>
        (j_available_at j = j_available_at k \<and> j_created_at j \<le> j_created_at k)))"

lemma claim_key_runs_before: "claim_key j \<le> claim_key k \<longleftrightarrow> runs_before j k"
  by (auto simp: claim_key_def runs_before_def)

text \<open>The row of a job once a worker has claimed it.\<close>

lemma lease_job_fields:
  "r = lease_job t w ls j \<longleftrightarrow>
     r = j\<lparr>j_status := Leased, j_locked_by := Some w, j_locked_until := Some (t + seconds ls),
           j_attempt_count := j_attempt_count j + 1, j_updated_at := t\<rparr>"
  by (simp add: lease_job_def)

definition lease_over :: "time \<Rightarrow> job_row \<Rightarrow> bool" where
  "lease_over t j \<longleftrightarrow> j_status j = Leased \<and> (\<exists>u. j_locked_until j = Some u \<and> u < t)"

lemma lease_is_expired_over: "lease_is_expired t j \<longleftrightarrow> lease_over t j"
  by (auto simp: lease_is_expired_def lease_over_def split: option.split)

text \<open>What recovery makes of a job: buried when its attempts are used up, pending otherwise.\<close>

definition released :: "time \<Rightarrow> job_row \<Rightarrow> job_row \<Rightarrow> bool" where
  "released t j k \<longleftrightarrow>
     j_locked_by k = None \<and> j_locked_until k = None \<and> j_attempt_count k = j_attempt_count j \<and>
     (if j_max_attempts j \<le> j_attempt_count j
      then j_status k = Dead_letter \<and> j_completed_at k = Some t
      else j_status k = Pending \<and> j_available_at k = j_available_at j)"

lemma recover_job_released: "released t j (recover_job t j)"
  by (simp add: released_def recover_job_def Let_def)

text \<open>Succeeded jobs are kept for one number of days, dead-lettered and cancelled ones for another.\<close>

fun kept_days :: "int \<Rightarrow> int \<Rightarrow> job_status \<Rightarrow> int option" where
  "kept_days sd dd Succeeded = Some sd"
| "kept_days sd dd Dead_letter = Some dd"
| "kept_days sd dd Cancelled = Some dd"
| "kept_days sd dd Pending = None"
| "kept_days sd dd Leased = None"

definition outlived :: "time \<Rightarrow> int \<Rightarrow> int \<Rightarrow> job_row \<Rightarrow> bool" where
  "outlived t sd dd j \<longleftrightarrow>
     (\<exists>n c. kept_days sd dd (j_status j) = Some n \<and> j_completed_at j = Some c \<and> c < t - days n)"

lemma purgeable_outlived: "purgeable t sd dd j \<longleftrightarrow> outlived t sd dd j"
  by (cases "j_status j") (auto simp: purgeable_def outlived_def completed_before_def split: option.split)

lemmas contract_simps = claimable_eligible claim_key_runs_before lease_is_expired_over purgeable_outlived

end
