(* ===== verification/Attempt_Budget.thy ===== *)
theory Attempt_Budget imports System begin

text \<open>
  A job is never recorded more often than it may be attempted. Every claim counts an attempt before
  the job runs, and every recorded attempt, of a result or of a lost lease, ends a claim; so the
  attempts recorded never outnumber those counted, not counting the one that is running. The
  invariant holds for every interleaving, stale results included.
\<close>

section \<open>The budget\<close>

definition recorded :: "uuid \<Rightarrow> attempt_row list \<Rightarrow> nat" where
  "recorded i as = count_where (\<lambda>a. a_job_id a = i) as"

text \<open>The attempts counted for a job that are over.\<close>

definition spent :: "job_row \<Rightarrow> int" where
  "spent j = j_attempt_count j - (if j_status j = Leased then 1 else 0)"

definition within_budget :: "db \<Rightarrow> bool" where
  "within_budget d \<longleftrightarrow> (\<forall>j \<in> set (jobs d). int (recorded (j_id j) (attempts d)) \<le> spent j)"

lemma recorded_simps [simp]:
  "recorded i [] = 0"
  "recorded i (a # as) = (if a_job_id a = i then Suc (recorded i as) else recorded i as)"
  by (simp_all add: recorded_def)

lemma recorded_append [simp]: "recorded i (as @ bs) = recorded i as + recorded i bs"
  by (induction as) auto

lemma recorded_none: "(\<And>a. a \<in> set as \<Longrightarrow> a_job_id a \<noteq> i) \<Longrightarrow> recorded i as = 0"
  by (induction as) auto

lemma recorded_filter: "i \<notin> g \<Longrightarrow> recorded i (filter (\<lambda>a. a_job_id a \<notin> g) as) = recorded i as"
  by (induction as) auto

text \<open>One attempt for each of a list of distinct jobs.\<close>

lemma recorded_expired:
  "distinct (map j_id js) \<Longrightarrow>
    recorded i (map (\<lambda>(m, j). expired_attempt t (f m) j) (enumerate n js)) = (if i \<in> j_id ` set js then 1 else 0)"
  by (induction js arbitrary: n) (auto simp: expired_attempt_def)

lemma within_budget_start: "within_budget empty_db"
  by (simp add: within_budget_def empty_db_def)

section \<open>What keeps it\<close>

text \<open>
  Updating rows and appending attempts: a changed row must have spent as many attempts more as
  are appended for it, and none may be appended for another.
\<close>

lemma within_budget_upd_where:
  assumes "within_budget d" and "jobs d' = upd_where p f (jobs d)" and "attempts d' = attempts d @ as"
    and "\<And>j. j \<in> set (jobs d) \<Longrightarrow> p j \<Longrightarrow>
      j_id (f j) = j_id j \<and> spent j + int (recorded (j_id j) as) \<le> spent (f j)"
    and "\<And>j. j \<in> set (jobs d) \<Longrightarrow> \<not> p j \<Longrightarrow> recorded (j_id j) as = 0"
  shows "within_budget d'"
  unfolding within_budget_def assms(2)
proof
  fix k assume "k \<in> set (upd_where p f (jobs d))"
  then consider j where "j \<in> set (jobs d)" "p j" "k = f j" | "k \<in> set (jobs d)" "\<not> p k"
    by (auto simp: set_upd_where)
  then show "int (recorded (j_id k) (attempts d')) \<le> spent k"
  proof cases
    case 1
    with assms(1,3) assms(4) [of j] show ?thesis by (force simp: within_budget_def)
  next
    case 2
    with assms(1,3) assms(5) [of k] show ?thesis by (simp add: within_budget_def)
  qed
qed

lemma within_budget_same:
  "within_budget d \<Longrightarrow> jobs d' = jobs d \<Longrightarrow> attempts d' = attempts d \<Longrightarrow> within_budget d'"
  by (simp add: within_budget_def)

text \<open>The operations that record nothing leave the attempts alone.\<close>

definition same_attempts :: "attempt_row list \<Rightarrow> db \<Rightarrow> bool" where
  "same_attempts as d \<longleftrightarrow> attempts d = as"

lemma same_attempts_stmts [wf_intros]:
  "stmt_keeps (same_attempts as) (insert_job_statement p)"
  "stmt_keeps (same_attempts as) (insert_queue_sql q)"
  "stmt_keeps (same_attempts as) (claim_jobs_statement l w names n ls)"
  "stmt_keeps (same_attempts as) (EXTEND_LEASE_SQL i w ls)"
  by (rule stmt_keepsI, auto simp: same_attempts_def insert_job_statement_def insert_queue_sql_def
      claim_jobs_statement_def EXTEND_LEASE_SQL_def Let_def split: if_splits option.splits)+

lemma keeps_same_attempts:
  "keeps (same_attempts as) (insert_job p)" "keeps (same_attempts as) (claim_jobs w names n ls)"
  "keeps (same_attempts as) (extend_lease i w ls)"
  unfolding insert_job_def claim_jobs_def extend_lease_def upsert_queue_def get_queue_def
    lock_claim_queues_statement_def
  by (intro keeps_intros wf_intros)+

lemma same_attemptsD:
  "keeps (same_attempts (attempts d)) m \<Longrightarrow> m (open_session e d) = (Inr x, s) \<Longrightarrow>
    attempts (working s) = attempts d"
  using keepsD_working [of "same_attempts (attempts d)" m "open_session e d"]
  by (simp add: same_attempts_def)

named_theorems budget_intros \<open>transactions that keep the attempt budget\<close>

lemma within_budget_insert [budget_intros]:
  assumes "wf_db d" and "within_budget d"
  shows "within_budget (snd (transact e (insert_job p) d))"
proof (rule transact_cases [OF uncommitted_job_ops(1)])
  fix x s assume ins: "insert_job p (open_session e d) = (Inr x, s)"
  note att = same_attemptsD [OF keeps_same_attempts(1) ins]
  obtain j b where x: "x = (j, b)" by (cases x)
  show "within_budget (working s)"
  proof (cases b)
    case True
    with ins x have "insert_job p (open_session e d) = (Inr (j, True), s)" by simp
    from insert_job_created(1-3) [OF this] assms(1) have new: "jobs (working s) = jobs d @ [j]"
      "\<exists>i. j = new_job (e_now e) i p" "j_id j \<notin> j_id ` set (jobs d)" by auto
    have "a_job_id a \<in> j_id ` set (jobs d)" if "a \<in> set (attempts d)" for a
      using assms(1) that by (simp add: wf_db_def schema_ok_def)
    with new(3) have "recorded (j_id j) (attempts d) = 0"
      by (intro recorded_none) metis
    with assms(2) new(1,2) att show ?thesis by (auto simp: within_budget_def spent_def)
  next
    case False
    with ins x have "insert_job p (open_session e d) = (Inr (j, False), s)" by simp
    from insert_job_existing(1) [OF this] assms att show ?thesis
      by (intro within_budget_same [OF assms(2)]) simp_all
  qed
qed (rule assms(2))

lemma within_budget_claim [budget_intros]:
  assumes "wf_db d" and "within_budget d"
  shows "within_budget (snd (transact e (claim_jobs w names n ls) d))"
proof (rule transact_cases [OF uncommitted_job_ops(4)])
  fix x s assume cl: "claim_jobs w names n ls (open_session e d) = (Inr x, s)"
  have wf: "wf_db (working (open_session e d))" using assms(1) by simp
  from claim_jobs_Inr(1) [OF wf cl, unfolded open_session_simps] show "within_budget (working s)"
    by (rule within_budget_upd_where [OF assms(2), where as = "[]"])
      (auto simp: same_attemptsD [OF keeps_same_attempts(2) cl] spent_def claimable_def
        dest!: picked_jobs_claimable)
qed (rule assms(2))

lemma within_budget_extend [budget_intros]:
  assumes "within_budget d"
  shows "within_budget (snd (transact e (extend_lease i w ls) d))"
proof (rule transact_cases [OF uncommitted_state_ops(1)])
  fix x s assume ext: "extend_lease i w ls (open_session e d) = (Inr x, s)"
  from extend_lease_Inr(2) [OF ext, unfolded open_session_simps] show "within_budget (working s)"
    by (rule within_budget_upd_where [OF assms, where as = "[]"])
      (simp_all add: same_attemptsD [OF keeps_same_attempts(3) ext] spent_def)
qed (rule assms)

lemma within_budget_return [budget_intros]:
  assumes "within_budget d"
  shows "within_budget (snd (transact e (return_leased_job_to_pending i w) d))"
proof (rule transact_cases [OF uncommitted_state_ops(2)])
  fix x s assume ret: "return_leased_job_to_pending i w (open_session e d) = (Inr x, s)"
  from return_leased_Inr(2) [OF ret, unfolded open_session_simps] show "within_budget (working s)"
    by (rule within_budget_upd_where [OF assms, where as = "[]"])
      (simp_all add: return_leased_Inr(3) [OF ret] spent_def owned_def)
qed (rule assms)

text \<open>Recording a result ends the lease of the one row it updates.\<close>

lemma within_budget_record:
  assumes "wf_db d" and "within_budget d" and "jobs d' = upd_where (owned i w) f (jobs d)"
    and "\<And>j. j_id (f j) = j_id j \<and> j_status (f j) \<noteq> Leased \<and> j_attempt_count (f j) = j_attempt_count j"
    and "holds_lease i w d \<Longrightarrow> \<exists>a. attempts d' = attempts d @ [a] \<and> a_job_id a = i"
    and "\<not> holds_lease i w d \<Longrightarrow> d' = d"
  shows "within_budget d'"
proof (cases "holds_lease i w d")
  case True
  with assms(5) obtain a where a: "attempts d' = attempts d @ [a]" "a_job_id a = i" by blast
  from True obtain k where k: "k \<in> set (jobs d)" "owned i w k" by (auto simp: holds_lease_owned)
  have "owned i w j" if "j \<in> set (jobs d)" "j_id j = i" for j
    using that k key_inj [OF wf_db_distinct_ids [OF assms(1)] that(1) k(1)] by (simp add: owned_def)
  with a assms(4) show ?thesis
    by (intro within_budget_upd_where [OF assms(2,3) a(1)]) (auto simp: spent_def owned_def)
qed (use assms(2,6) in simp)

lemma within_budget_complete [budget_intros]:
  assumes "wf_db d" and "within_budget d"
  shows "within_budget (snd (transact e (complete_job job w ms r prev) d))"
proof (rule transact_cases [OF uncommitted_state_ops(3)])
  fix x s assume "complete_job job w ms r prev (open_session e d) = (Inr x, s)"
  note c = complete_job_Inr [OF this, unfolded open_session_simps]
  from c(1,3,4) show "within_budget (working s)"
    by (intro within_budget_record [OF assms c(2)]) (auto simp: completed_def)
qed (rule assms(2))

lemma within_budget_fail [budget_intros]:
  assumes "wf_db d" and "within_budget d"
  shows "within_budget (snd (transact e (fail_job job w rt timed_out delay ms et em r prev) d))"
proof (rule transact_cases [OF uncommitted_state_ops(4)])
  fix x s assume "fail_job job w rt timed_out delay ms et em r prev (open_session e d) = (Inr x, s)"
  note c = fail_job_Inr [OF this, unfolded open_session_simps]
  from c(1,3,4) show "within_budget (working s)"
    by (intro within_budget_record [OF assms c(2)]) (auto simp: failed_def)
qed (rule assms(2))

lemma within_budget_recover [budget_intros]:
  assumes "wf_db d" and "within_budget d"
  shows "within_budget (snd (transact e (recover_expired_leases n) d))"
proof (rule transact_cases [OF uncommitted_state_ops(5)])
  fix x s assume rec: "recover_expired_leases n (open_session e d) = (Inr x, s)"
  have wf: "wf_db (working (open_session e d))" using assms(1) by simp
  note c = recover_expired_leases_Inr [OF rec wf, unfolded open_session_simps]
  let ?P = "expired_jobs (e_locked e) n (e_now e) d"
  from c(3) obtain ids where att: "attempts (working s) = attempts d @
      map (\<lambda>(m, j). expired_attempt (e_now e) (ids m) j) (enumerate 0 ?P)" by blast
  have "distinct (map j_id ?P)"
    using wf_db_distinct_ids [OF assms(1)]
    by (simp add: expired_jobs_def take_map [symmetric] distinct_take distinct_map_filter distinct_map_sort_key)
  note rec1 = recorded_expired [OF this]
  show "within_budget (working s)"
    by (rule within_budget_upd_where [OF assms(2) c(2) att])
      (auto simp: rec1 spent_def recover_job_def Let_def lease_is_expired_def
        dest: expired_jobs_expired expired_id_expired [OF assms(1)])
qed (rule assms(2))

lemma within_budget_cancel [budget_intros]:
  assumes "within_budget d"
  shows "within_budget (snd (transact e (cancel_pending_job i) d))"
proof (rule transact_cases [OF uncommitted_state_ops(6)])
  fix x s assume can: "cancel_pending_job i (open_session e d) = (Inr x, s)"
  from cancel_pending_job_Inr(3) [OF can, unfolded open_session_simps] show "within_budget (working s)"
    by (rule within_budget_upd_where [OF assms, where as = "[]"])
      (simp_all add: cancel_pending_job_Inr(4) [OF can] spent_def cancelled_def)
qed (rule assms)

lemma spent_forget_source [simp]: "spent (forget_source g j) = spent j"
  by (simp add: spent_def forget_source_def split: option.split)

lemma within_budget_purge [budget_intros]:
  assumes "within_budget d"
  shows "within_budget (snd (transact e (purge_jobs sd dd n) d))"
proof (rule transact_cases [OF uncommitted_state_ops(7)])
  fix x s assume "purge_jobs sd dd n (open_session e d) = (Inr x, s)"
  from purge_jobs_Inr(1) [OF this] assms show "within_budget (working s)"
    by (simp add: within_budget_def recorded_filter)
qed (rule assms)

lemma within_budget_upsert_queue [budget_intros]:
  "within_budget d \<Longrightarrow> within_budget (snd (transact e (upsert_queue q) d))"
  by (rule transact_cases [OF uncommitted_queue_ops(2)])
    (simp_all add: upsert_queue_frame(1,2) within_budget_same [of d])

lemma within_budget_update_queue [budget_intros]:
  "within_budget d \<Longrightarrow> within_budget (snd (transact e (update_queue q p l) d))"
  by (rule transact_cases [OF uncommitted_queue_ops(3)])
    (simp_all add: update_queue_Inr(5,6) within_budget_same [of d])

lemma within_budget_register [budget_intros]:
  "within_budget d \<Longrightarrow> within_budget (snd (transact e (register_worker w qs h) d))"
  by (rule transact_cases [OF uncommitted_register_worker])
    (simp_all add: register_worker_Inr(1,2) within_budget_same [of d])

lemma within_budget_heartbeat [budget_intros]:
  "within_budget d \<Longrightarrow> within_budget (snd (transact e (heartbeat_worker w qs h) d))"
  by (rule transact_cases [OF uncommitted_heartbeat_worker])
    (simp_all add: heartbeat_worker_Inr(1,2) within_budget_same [of d])

lemma within_budget_step:
  assumes "repo_step strict d d'" and "wf_db d" and "within_budget d"
  shows "within_budget d'"
  using assms
proof (induction rule: repo_step.induct)
  case (s_scan_order js d)
  then show ?case using mset_eq_setD [OF s_scan_order(1)] by (simp add: within_budget_def)
qed (simp_all add: budget_intros)

lemma reachable_within_budget: "reachable strict d \<Longrightarrow> within_budget d"
  by (induction rule: reachable.induct) (blast intro: within_budget_start within_budget_step reachable_wf)+

end
