(* ===== verification/Job_Properties.thy ===== *)
theory Job_Properties imports Fixtures Job_Contracts Attempt_Budget begin

text \<open>
  The properties of the job repository: claiming, insertion, recording results, recovery, purging,
  and the invariants of every reachable database.
\<close>

section \<open>Claiming\<close>

text \<open>C1: claiming never takes a queue above its concurrency limit: afterwards the queue has at most
  as many leased jobs as its limit allows, or as many as it had before.\<close>

theorem claim_respects_concurrency_limit:
  assumes "wf_db d" and "q \<in> set (queues d)"
    and "transact e (claim_jobs w names n ls) d = (Inr rows, d')"
  shows "int (leased_count (q_name q) (jobs d')) \<le>
    max (q_concurrency_limit q) (int (leased_count (q_name q) (jobs d)))"
proof -
  have "leased_count (q_name q) (jobs d') \<le> slots d q + leased_count (q_name q) (jobs d)"
    unfolding claim_transact(1) [OF assms(1,3)] leased_count_after_claim [OF assms(1)]
    using count_picked_le_slots [OF assms(1,2)] by simp
  then show ?thesis using slots_bound [of d q] by linarith
qed

theorem claim_respects_concurrency_limit_witness:
  "int (leased_count ''default'' (jobs fx_db1)) \<le> max 2 (int (leased_count ''default'' (jobs fx_db)))"
  using claim_respects_concurrency_limit [OF fx_wf _ fx_claim, of fx_queue]
  by (simp add: fx_db_def fx_queue_def)



text \<open>C16: jobs are claimed in order: a claimed job precedes, by priority, then due time, then age,
  every eligible job of its queue that is left.\<close>

theorem claim_takes_jobs_in_order:
  assumes "wf_db d" and "transact e (claim_jobs w names n ls) d = (Inr rows, d')"
    and "j \<in> set (jobs d)" and "j_id j \<in> j_id ` set rows"
    and "k \<in> set (jobs d)" and "j_id k \<notin> j_id ` set rows"
    and "j_queue_name k = j_queue_name j" and "eligible (e_now e) k" and "\<not> e_locked e (j_id k)"
  shows "runs_before j k"
  using assms claimed_iff_picked [OF assms(1,2)]
  by (auto simp: claimable_eligible simp flip: claim_key_runs_before intro: picked_before_unpicked)

theorem claim_takes_jobs_in_order_witness:
  "runs_before (fx_job 2 Pending 0) (fx_job 3 Pending 0)"
  by (rule claim_takes_jobs_in_order [OF fx_wf fx_claim])
    (simp_all add: fx_db_def eligible_def fx_env_def, simp_all add: fx_job_def)

text \<open>C15: claiming is work-conserving: an eligible job of a requested, unpaused queue is left only
  when the batch is full or its queue has reached its limit.\<close>

theorem claim_leaves_no_eligible_job:
  assumes "wf_db d" and "transact e (claim_jobs w names n ls) d = (Inr rows, d')"
    and "q \<in> set (queues d)" and "\<not> q_paused q" and "q_name q \<in> set names"
    and "k \<in> set (jobs d)" and "j_queue_name k = q_name q" and "eligible (e_now e) k" and "\<not> e_locked e (j_id k)"
    and "j_id k \<notin> j_id ` set rows"
  shows "length rows = n \<or> q_concurrency_limit q \<le> int (leased_count (q_name q) (jobs d'))"
proof -
  let ?P = "picked_jobs (e_locked e) names n (e_now e) d"
  have "q \<in> set (locked_queues names d)" using assms(3-5) by (simp add: locked_queues_set)
  moreover have "k \<notin> set ?P" using assms(6,10) claimed_iff_picked [OF assms(1,2)] by blast
  ultimately have "length ?P = n \<or> count_where (\<lambda>j. j_queue_name j = q_name q) ?P = slots d q"
    using assms(1,6-9) by (intro unpicked_no_room) (simp_all add: claimable_eligible)
  then show ?thesis
    unfolding claim_transact(1,3) [OF assms(1,2)] leased_count_after_claim [OF assms(1)]
    using slots_bound [of d q] by auto
qed

theorem claim_leaves_no_eligible_job_witness:
  "q_concurrency_limit fx_queue \<le> int (leased_count ''default'' (jobs fx_db1))"
proof -
  have "length [fx_row2] = 5 \<or> q_concurrency_limit fx_queue \<le> int (leased_count (q_name fx_queue) (jobs fx_db1))"
    by (rule claim_leaves_no_eligible_job [OF fx_wf fx_claim, of _ "fx_job 3 Pending 0"])
      (simp_all add: fx_db_def eligible_def fx_env_def fx_queue_def, simp_all add: fx_job_def)
  then show ?thesis by (simp add: fx_queue_def)
qed

text \<open>Two workers that claim one after the other never get the same job.\<close>

theorem claims_are_disjoint:
  assumes "wf_db d" and "transact e (claim_jobs w names n ls) d = (Inr rows, d1)"
    and "transact e' (claim_jobs w' names' n' ls') d1 = (Inr rows', d2)"
  shows "j_id ` set rows \<inter> j_id ` set rows' = {}"
proof -
  have wf1: "wf_db d1"
    using transact_keeps [OF keeps_claim_jobs assms(1), of e w names n ls] assms(2) by simp
  note c = claim_transact [OF assms(1,2)] claim_transact [OF wf1 assms(3)]
  have leased: "j_status r = Leased \<and> r \<in> set (jobs d1)" if "r \<in> set rows" for r
    using that unfolding c(1,2) by (auto simp: set_upd_where)
  have pending: "\<exists>j \<in> set (jobs d1). j_id j = j_id r \<and> j_status j = Pending" if "r \<in> set rows'" for r
    using that unfolding c(5) by (fastforce simp: claimable_def dest: picked_jobs_claimable)
  show ?thesis
  proof (rule ccontr)
    assume "j_id ` set rows \<inter> j_id ` set rows' \<noteq> {}"
    then obtain r r' where r: "r \<in> set rows" "r' \<in> set rows'" "j_id r = j_id r'" by auto
    with leased pending obtain j where j: "j \<in> set (jobs d1)" "j_id j = j_id r" "j_status j = Pending" by metis
    moreover have "r \<in> set (jobs d1)" "j_status r = Leased" using leased r(1) by blast+
    ultimately show False
      using key_inj [OF wf_db_distinct_ids [OF wf1]] by (metis job_status.distinct(1))
  qed
qed

theorem claims_are_disjoint_witness:
  "j_id ` set [fx_row2] \<inter> j_id ` set ([] :: job_row list) = {}"
  by (rule claims_are_disjoint [OF fx_wf fx_claim fx_claim_again])

section \<open>Insertion\<close>

text \<open>C7: enqueueing is idempotent: two insertions into a queue under one idempotency key return the
  same job, and the second one adds nothing.\<close>

theorem insertion_is_idempotent:
  assumes "wf_db d" and "transact e (insert_job p) d = (Inr (j, b), d1)"
    and "transact e' (insert_job q) d1 = (Inr (k, c), d2)"
    and "p_queue_name q = p_queue_name p"
    and "p_idempotency_key p = Some x" and "p_idempotency_key q = Some x"
  shows "k = j \<and> \<not> c \<and> jobs d2 = jobs d1"
proof -
  from assms(2) obtain s1 where 1: "insert_job p (open_session e d) = (Inr (j, b), s1)" "d1 = working s1"
    by (rule transact_InrD)
  from assms(3) obtain s2 where 2: "insert_job q (open_session e' d1) = (Inr (k, c), s2)" "d2 = working s2"
    by (rule transact_InrD)
  have "wf_db d1"
    using transact_keeps [OF keeps_insert_job assms(1), of e p] assms(2) by simp
  with pg_jobs.insert_twice [of p "open_session e d" j b s1 q "open_session e' d1" k c s2 x] 1 2 assms
  show ?thesis by simp
qed

theorem insertion_is_idempotent_witness:
  "\<exists>j c d2. transact (fx_env 1 200) (insert_job (fx_params (Some ''k''))) (st_db st_new []) = (Inr (j, c), d2) \<and>
    j = st_new \<and> \<not> c \<and> jobs d2 = jobs (st_db st_new [])"
proof -
  have "map_sum id (\<lambda>_. ()) (fst (transact (fx_env 1 200) (insert_job (fx_params (Some ''k''))) (st_db st_new []))) = Inr ()"
    by code_simp
  then obtain x d2 where "transact (fx_env 1 200) (insert_job (fx_params (Some ''k''))) (st_db st_new []) = (Inr x, d2)"
    by (rule transact_evalE)
  then obtain j c where t: "transact (fx_env 1 200) (insert_job (fx_params (Some ''k''))) (st_db st_new []) = (Inr (j, c), d2)"
    by (cases x) simp
  have "j = st_new \<and> \<not> c \<and> jobs d2 = jobs (st_db st_new [])"
    by (rule insertion_is_idempotent [OF wf_empty_db st_insert t]) (simp_all add: fx_params_def)
  with t show ?thesis by metis
qed

section \<open>Invariants of every history\<close>

text \<open>C3: whatever the transactions of services, workers and commands, in any order and with any
  failures, the database stays well formed: the schema holds, a job has a lease exactly while it is
  leased and a completion time exactly when it is finished, and counts at most its attempts.\<close>

theorem reachable_databases_are_well_formed:
  assumes "reachable strict d"
  shows "wf_db d"
  by (rule reachable_wf) (rule assms)

theorem reachable_databases_are_well_formed_witness: "wf_db (st_db st_second [st_lost])"
  by (rule reachable_databases_are_well_formed [OF st_reachable])



text \<open>A finished job stays as it is until it is purged: no step takes it to another status.\<close>

theorem finished_jobs_stay_finished:
  assumes "reachable strict d" and "repo_step strict d d'"
    and "job_by_id i d = Some j" and "terminal (j_status j)"
  shows "job_by_id i d' = None \<or> (\<exists>k. job_by_id i d' = Some k \<and> j_status k = j_status j)"
proof -
  have "life_moves (life d i) (life d' i)"
    using repo_step_evolves [OF assms(2) reachable_wf [OF assms(1)]] by (simp add: evolves_def)
  with assms(3,4) show ?thesis
    by (cases "j_status j"; cases "job_by_id i d'")
      (auto simp: life_def life_moves_def split: job_status.splits
        elim: life_step_from_Done life_step_from_Dead life_step_from_Dropped)
qed

theorem finished_jobs_stay_finished_witness:
  "let d = snd (transact (fx_env 2 300) (claim_jobs ''w1'' [''default''] 1 5) (st_db (cancelled 1 st_new) []))
   in job_by_id 120 d = None \<or> (\<exists>k. job_by_id 120 d = Some k \<and> j_status k = Cancelled)"
proof -
  have 1: "reachable True (st_db st_new [])"
    using step [OF start s_insert, of True "fx_env 0 100" "fx_params (Some ''k'')"] by (simp only: st_insert snd_conv)
  have "snd (transact (fx_env 1 200) (cancel_pending_job 120) (st_db st_new [])) = st_db (cancelled 1 st_new) []"
    by code_simp
  with step [OF 1 s_cancel, of "fx_env 1 200" 120] have r: "reachable True (st_db (cancelled 1 st_new) [])" by simp
  have j: "job_by_id 120 (st_db (cancelled 1 st_new) []) = Some (cancelled 1 st_new)"
    by (simp add: job_by_id_def st_db_def cancelled_def st_new_def)
  have st: "j_status (cancelled 1 st_new) = Cancelled" by (simp add: cancelled_def)
  show ?thesis
    unfolding Let_def
    by (rule finished_jobs_stay_finished [OF r s_claim j, unfolded st]) simp
qed

text \<open>C18: as long as every failure is reported with the row of the current lease, a pending job always
  has an attempt left, so a worker can claim it.\<close>

theorem pending_jobs_can_run:
  assumes "reachable True d" and "j \<in> set (jobs d)" and "j_status j = Pending"
  shows "j_attempt_count j < j_max_attempts j"
proof -
  from assms(1) have "no_stuck d"
  proof (induction rule: reachable.induct)
    case start
    show ?case by (simp add: no_stuck_def empty_db_def)
  next
    case (step d d')
    then show ?case by (blast intro: no_stuck_step reachable_wf)
  qed
  with assms(2,3) show ?thesis by (simp add: no_stuck_def live_pending_def)
qed

theorem pending_jobs_can_run_witness: "j_attempt_count st_new < j_max_attempts st_new"
proof -
  have "reachable True (st_db st_new [])"
    using step [OF start s_insert, of True "fx_env 0 100" "fx_params (Some ''k'')"] by (simp only: st_insert snd_conv)
  then show ?thesis
    by (rule pending_jobs_can_run) (simp_all add: st_db_def st_new_def)
qed

text \<open>C4: no job is ever recorded more often than it may be attempted, whatever the interleaving and even
  when stale results come in; while it runs, one attempt is kept free for the run.\<close>

theorem attempts_stay_within_the_budget:
  assumes "reachable strict d" and "j \<in> set (jobs d)"
  shows "int (length (filter (\<lambda>a. a_job_id a = j_id j) (attempts d))) + (if j_status j = Leased then 1 else 0)
    \<le> j_max_attempts j"
proof -
  have "int (recorded (j_id j) (attempts d)) \<le> spent j"
    using reachable_within_budget [OF assms(1)] assms(2) by (simp add: within_budget_def)
  moreover have "j_attempt_count j \<le> j_max_attempts j"
    using wf_db_job_ok [OF reachable_wf [OF assms(1)] assms(2)] by (simp add: job_ok_def)
  ultimately show ?thesis by (simp add: recorded_def count_where_def spent_def split: if_splits)
qed

theorem attempts_stay_within_the_budget_witness:
  "int (length (filter (\<lambda>a. a_job_id a = j_id st_second) [st_lost])) + 1 \<le> j_max_attempts st_second"
proof -
  have "j_status st_second = Leased" by code_simp
  with attempts_stay_within_the_budget [OF st_reachable [of True], of st_second] show ?thesis
    by (simp add: st_db_def)
qed

text \<open>Without that condition it fails: the lease check names the worker, not the claim, so an
  execution whose lease was lost and taken again by its own worker still records its failure. The job
  is left pending with no attempts, which no worker ever claims and no recovery ever buries.\<close>

theorem a_stale_failure_strands_a_job:
  "\<exists>d d' j. reachable False d \<and>
     transact (fx_env 10000001 500) (fail_job st_first ''w1'' True False 2 0 None None None None) d = (Inr True, d') \<and>
     j \<in> set (jobs d') \<and> j_status j = Pending \<and> j_attempt_count j = j_max_attempts j \<and>
     (\<forall>t. \<not> eligible t j \<and> \<not> lease_over t j)"
proof -
  have "j_status st_stuck = Pending" "j_attempt_count st_stuck = j_max_attempts st_stuck"
    by code_simp+
  then have "j_status st_stuck = Pending \<and> j_attempt_count st_stuck = j_max_attempts st_stuck \<and>
      (\<forall>t. \<not> eligible t st_stuck \<and> \<not> lease_over t st_stuck)"
    by (simp add: eligible_def lease_over_def)
  moreover have "st_stuck \<in> set (jobs (st_db st_stuck [st_lost, st_late]))"
    by (simp add: st_db_def)
  ultimately show ?thesis using st_reachable [of False] st_fail by blast
qed

section \<open>Ending a lease\<close>

text \<open>C5: completing a job succeeds exactly when the worker holds its lease. Then the job is succeeded,
  its lease is gone, one attempt of this worker is recorded and every other job is as before; otherwise
  nothing changes.\<close>

theorem completion_needs_the_lease:
  assumes "wf_db d" and "transact e (complete_job job w ms r prev) d = (Inr b, d')"
  shows "b = holds_lease (j_id job) w d \<and> (\<not> b \<longrightarrow> d' = d) \<and>
    (b \<longrightarrow> (\<exists>k. job_by_id (j_id job) d = Some k \<and> job_by_id (j_id job) d' = Some (completed r (e_now e) k)) \<and>
      (\<exists>a. attempts d' = attempts d @ [a] \<and> a_job_id a = j_id job \<and> a_worker_id a = w \<and>
        a_attempt_number a = j_attempt_count job \<and> a_status a = Attempt_succeeded)) \<and>
    (\<forall>i. i \<noteq> j_id job \<longrightarrow> job_by_id i d' = job_by_id i d)"
proof -
  from assms(2) obtain s where c: "complete_job job w ms r prev (open_session e d) = (Inr b, s)" and d': "d' = working s"
    by (rule transact_InrD)
  note c = complete_job_Inr [OF c, unfolded open_session_simps, folded d']
  have by_id: "job_by_id i d' = map_option (\<lambda>k. if owned (j_id job) w k then completed r (e_now e) k else k) (job_by_id i d)" for i
    unfolding job_by_id_def c(2) by (rule find_upd_where) (simp add: completed_def)
  have other: "job_by_id i d' = job_by_id i d" if "i \<noteq> j_id job" for i
    using that by (cases "job_by_id i d") (auto simp: by_id owned_def dest: job_by_id_SomeD)
  have own: "\<exists>k. job_by_id (j_id job) d = Some k \<and> owned (j_id job) w k" if b
    using that c(1) job_by_id_iff [OF assms(1)] by (auto simp: holds_lease_owned owned_def)
  have comp: "\<exists>k. job_by_id (j_id job) d = Some k \<and> job_by_id (j_id job) d' = Some (completed r (e_now e) k)" if b
    using own [OF that] by_id by auto
  have att: "\<exists>a. attempts d' = attempts d @ [a] \<and> a_job_id a = j_id job \<and> a_worker_id a = w \<and>
        a_attempt_number a = j_attempt_count job \<and> a_status a = Attempt_succeeded" if b
    using c(3) [OF that] by blast
  show ?thesis
    by (intro conjI impI allI) (fact c(1), erule c(4), erule comp, erule att, erule other)
qed

theorem completion_needs_the_lease_witness:
  "\<exists>b d'. transact (fx_env 3 100) (complete_job (fx_job 1 Leased 1) ''w1'' 7 None None) fx_db = (Inr b, d') \<and>
    b \<and> b = holds_lease 1 ''w1'' fx_db"
proof -
  have "map_sum id id (fst (transact (fx_env 3 100) (complete_job (fx_job 1 Leased 1) ''w1'' 7 None None) fx_db)) = Inr True"
    by code_simp
  then obtain b d' where t: "transact (fx_env 3 100) (complete_job (fx_job 1 Leased 1) ''w1'' 7 None None) fx_db = (Inr b, d')"
    and b: "id b = True"
    by (rule transact_evalE)
  have "b = holds_lease (j_id (fx_job 1 Leased 1)) ''w1'' fx_db"
    by (rule completion_needs_the_lease [OF fx_wf t, THEN conjunct1])
  with b have "b" "b = holds_lease 1 ''w1'' fx_db" by simp_all
  with t show ?thesis by (intro exI conjI)
qed

text \<open>C6: recording a failure succeeds exactly when the worker holds the lease; the job is retried
  after the delay when the failure is retryable and attempts are left, and dead-lettered otherwise; one
  attempt is recorded. Without the lease nothing changes.\<close>

theorem failure_is_retried_or_buried:
  assumes "wf_db d" and "transact e (fail_job job w retryable timed_out delay ms et em r prev) d = (Inr b, d')"
  shows "b = holds_lease (j_id job) w d \<and> (\<not> b \<longrightarrow> d' = d) \<and>
    (b \<longrightarrow> (\<exists>k. job_by_id (j_id job) d' = Some k \<and> j_locked_by k = None \<and> j_last_error_type k = et \<and>
        (if retryable \<and> j_attempt_count job < j_max_attempts job
         then j_status k = Pending \<and> j_available_at k = e_now e + seconds delay
         else j_status k = Dead_letter \<and> j_completed_at k = Some (e_now e))) \<and>
      (\<exists>a. attempts d' = attempts d @ [a] \<and> a_job_id a = j_id job \<and> a_worker_id a = w \<and>
        a_status a = (if timed_out then Attempt_timeout else Attempt_failed)))"
proof -
  let ?again = "retryable \<and> j_attempt_count job < j_max_attempts job"
  from assms(2) obtain s where c: "fail_job job w retryable timed_out delay ms et em r prev (open_session e d) = (Inr b, s)"
    and d': "d' = working s"
    by (rule transact_InrD)
  note c = fail_job_Inr [OF c, unfolded open_session_simps, folded d']
  have by_id: "job_by_id i d' = map_option (\<lambda>k. if owned (j_id job) w k then failed ?again delay et em r (e_now e) k else k)
      (job_by_id i d)" for i
    unfolding job_by_id_def c(2) by (rule find_upd_where) (simp add: failed_def)
  have own: "\<exists>k. job_by_id (j_id job) d = Some k \<and> owned (j_id job) w k" if b
    using that c(1) job_by_id_iff [OF assms(1)] by (auto simp: holds_lease_owned owned_def)
  have new: "\<exists>k. job_by_id (j_id job) d' = Some (failed ?again delay et em r (e_now e) k)" if b
    using own [OF that] by_id by auto
  have att: "\<exists>a. attempts d' = attempts d @ [a] \<and> a_job_id a = j_id job \<and> a_worker_id a = w \<and>
        a_status a = (if timed_out then Attempt_timeout else Attempt_failed)" if b
    using c(3) [OF that] by blast
  have job: "\<exists>k. job_by_id (j_id job) d' = Some k \<and> j_locked_by k = None \<and> j_last_error_type k = et \<and>
        (if ?again then j_status k = Pending \<and> j_available_at k = e_now e + seconds delay
         else j_status k = Dead_letter \<and> j_completed_at k = Some (e_now e))" if b
  proof -
    from new [OF that] obtain k where "job_by_id (j_id job) d' = Some (failed ?again delay et em r (e_now e) k)"
      by (rule exE)
    then show ?thesis
      by (intro exI [of _ "failed ?again delay et em r (e_now e) k"]) (simp add: failed_def)
  qed
  show ?thesis
    by (intro conjI impI) (fact c(1), erule c(4), erule job, erule att)
qed

theorem failure_is_retried_or_buried_witness:
  "\<exists>b d'. transact (fx_env 3 100) (fail_job (fx_job 1 Leased 1) ''w1'' True False 4 7 None None None None) fx_db = (Inr b, d') \<and>
    (\<exists>k. job_by_id 1 d' = Some k \<and> j_status k = Pending \<and> j_available_at k = 3 + seconds 4)"
proof -
  have "map_sum id id (fst (transact (fx_env 3 100) (fail_job (fx_job 1 Leased 1) ''w1'' True False 4 7 None None None None) fx_db)) = Inr True"
    by code_simp
  then obtain b d' where t: "transact (fx_env 3 100) (fail_job (fx_job 1 Leased 1) ''w1'' True False 4 7 None None None None) fx_db = (Inr b, d')"
    and b: "id b = True"
    by (rule transact_evalE)
  from b have "b" by simp
  from failure_is_retried_or_buried [OF fx_wf t, THEN conjunct2, THEN conjunct2, THEN mp, OF this, THEN conjunct1]
  have "\<exists>k. job_by_id 1 d' = Some k \<and> j_status k = Pending \<and> j_available_at k = 3 + seconds 4"
    by (auto simp: fx_env_def)
  with t show ?thesis by (intro exI [of _ b] exI [of _ d'] conjI)
qed

section \<open>Recovery\<close>



section \<open>Purging\<close>



text \<open>C29: purging until done returns whatever the batch size, on any well-formed database; it reports
  exactly the rows it deleted, and leaves no job that was past its retention when it began.\<close>

theorem purge_until_done_finishes:
  assumes "wf_db d" and "0 < purge_batch_size s" and "\<And>i. T \<le> e_now (envs i)"
  shows "\<exists>r d'. purge_until_done JobRepository s envs d = Some (r, d') \<and> wf_db d' \<and>
    (\<forall>res. r = Inr res \<longrightarrow> length (jobs d') + summary_total res = length (jobs d) \<and>
       (\<forall>j \<in> set (jobs d'). \<not> outlived T (retention_succeeded_days s) (retention_dead_letter_days s) j))"
proof -
  obtain r d' where p: "purge_until_done JobRepository s envs d = Some (r, d')" "wf_db d'"
    "\<forall>res. r = Inr res \<longrightarrow> length (jobs d') + summary_total res = length (jobs d)"
    using pg_jobs.purge_loop_returns [OF assms(1,2), of envs 0 no_results]
    unfolding purge_until_done_def by auto
  have "\<not> purgeable T (retention_succeeded_days s) (retention_dead_letter_days s) j"
    if "r = Inr res" "j \<in> set (jobs d')" for res j
    by (rule purge_loop_complete [OF p(1) [unfolded purge_until_done_def that(1)] assms that(2)])
  with p show ?thesis unfolding purgeable_outlived [symmetric] by blast
qed

theorem purge_until_done_finishes_witness:
  "\<exists>r d'. purge_until_done JobRepository (default_settings [])  (\<lambda>k. fx_env (days 40 + int k) 100) fx_db = Some (r, d') \<and> wf_db d'"
  using purge_until_done_finishes [OF fx_wf, of "default_settings []" "days 40" "\<lambda>k. fx_env (days 40 + int k) 100"]
  by (auto simp: default_settings_def fx_env_def)

end
