(* ===== verification/Claim_Steps.thy ===== *)
theory Claim_Steps imports System begin

text \<open>
  Claims that run at the same time. The transaction of a worker's claim loop (\<open>worker/runner.py\<close>) recovers
  a batch of expired leases and then, when it has room, claims jobs: \<open>claim_jobs\<close> (\<open>repositories/jobs.py\<close>)
  executes two statements, of which the first locks the unpaused queues it was given, in name order, and
  the second counts the leases, picks the rows and leases them. PostgreSQL runs each statement of a READ COMMITTED transaction on the snapshot
  taken when the statement starts, makes \<open>FOR UPDATE\<close> wait for the holder of a row and look at the
  row again when it has it, lets \<open>SKIP LOCKED\<close> pass over the rows others hold, and keeps every lock until
  the transaction ends. The step relation has one rule for each of these points, any number of claimers,
  and every other transaction of the repository in between.
\<close>

section \<open>Claimers\<close>

record claim_call =
  cc_worker :: string
  cc_names :: "string list"
  cc_batch :: nat
  cc_lease :: int

text \<open>
  Where a claimer is: past the recovery, in the first statement of its claim with the queues it still
  has to lock, between the statements, in the second statement with its snapshot and the queues it still
  has to lock, or done with the rows it has leased but not committed.
\<close>

datatype phase =
    Idle
  | Recovered
  | Locking claim_call "string list"
  | Locked claim_call
  | Claiming claim_call db "string list"
  | Leasing claim_call "uuid set"

text \<open>
  The committed database, the locks, and for each claimer its phase, the \<open>now()\<close> of its transaction, the
  rows it has recovered and the attempts it has inserted for them, none of which others see yet.
\<close>

record cluster =
  base :: db
  queue_holder :: "string \<Rightarrow> nat option"
  row_holder :: "uuid \<Rightarrow> nat option"
  phases :: "nat \<Rightarrow> phase"
  tx_now :: "nat \<Rightarrow> time"
  tx_recovered :: "nat \<Rightarrow> uuid set"
  tx_lapsed :: "nat \<Rightarrow> attempt_row list"

text \<open>The jobs and queues as a claimer reads them: the committed ones with its own recoveries.\<close>

definition tx_view :: "nat \<Rightarrow> cluster \<Rightarrow> db" where
  "tx_view c cl =
     (base cl)\<lparr>jobs := upd_where (\<lambda>j. j_id j \<in> tx_recovered cl c) (recover_job (tx_now cl c)) (jobs (base cl))\<rparr>"

definition needed :: "claim_call \<Rightarrow> db \<Rightarrow> string list" where
  "needed k d = map q_name (locked_queues (cc_names k) d)"

definition enter :: "nat \<Rightarrow> phase \<Rightarrow> cluster \<Rightarrow> cluster" where
  "enter c p cl = cl\<lparr>phases := (phases cl)(c := p)\<rparr>"

definition acquire :: "nat \<Rightarrow> string \<Rightarrow> cluster \<Rightarrow> cluster" where
  "acquire c q cl = cl\<lparr>queue_holder := (queue_holder cl)(q \<mapsto> c)\<rparr>"

definition free_for :: "nat \<Rightarrow> string \<Rightarrow> cluster \<Rightarrow> bool" where
  "free_for c q cl \<longleftrightarrow> queue_holder cl q = None \<or> queue_holder cl q = Some c"

text \<open>The end of a transaction gives up its locks.\<close>

definition forget :: "nat \<Rightarrow> ('a \<Rightarrow> nat option) \<Rightarrow> 'a \<Rightarrow> nat option" where
  "forget c h x = (if h x = Some c then None else h x)"

definition release :: "nat \<Rightarrow> cluster \<Rightarrow> cluster" where
  "release c cl =
     cl\<lparr>queue_holder := forget c (queue_holder cl), row_holder := forget c (row_holder cl),
        phases := (phases cl)(c := Idle), tx_recovered := (tx_recovered cl)(c := {}),
        tx_lapsed := (tx_lapsed cl)(c := [])\<rparr>"

text \<open>A queue row is read again once it is locked; the other rows stay those of the snapshot.\<close>

definition refresh :: "string \<Rightarrow> db \<Rightarrow> db \<Rightarrow> db" where
  "refresh q d snap =
     snap\<lparr>queues := map (\<lambda>r. if q_name r = q then the_default r (find (\<lambda>r'. q_name r' = q) (queues d)) else r)
       (queues snap)\<rparr>"

text \<open>
  The rows of the snapshot that \<open>FOR UPDATE OF j SKIP LOCKED\<close> passes over: those other transactions
  have locked, and those whose current version no longer satisfies the condition.
\<close>

definition skipped :: "(uuid \<Rightarrow> bool) \<Rightarrow> cluster \<Rightarrow> nat \<Rightarrow> db \<Rightarrow> uuid \<Rightarrow> bool" where
  "skipped busy cl c snap i \<longleftrightarrow>
     busy i \<or> row_holder cl i \<notin> {None, Some c} \<or>
     \<not> (\<exists>j \<in> set (jobs (tx_view c cl)). \<exists>s \<in> set (jobs snap).
          j_id j = i \<and> j_id s = i \<and> claimable (tx_now cl c) (j_queue_name s) j)"

definition picked_ids :: "(uuid \<Rightarrow> bool) \<Rightarrow> cluster \<Rightarrow> nat \<Rightarrow> claim_call \<Rightarrow> db \<Rightarrow> uuid set" where
  "picked_ids busy cl c k snap =
     j_id ` set (picked_jobs (skipped busy cl c snap) (cc_names k) (cc_batch k) (tx_now cl c) snap)"

definition hold_rows :: "nat \<Rightarrow> uuid set \<Rightarrow> cluster \<Rightarrow> cluster" where
  "hold_rows c U cl = cl\<lparr>row_holder := (\<lambda>i. if i \<in> U then Some c else row_holder cl i)\<rparr>"

definition keep_recovery :: "nat \<Rightarrow> time \<Rightarrow> uuid set \<Rightarrow> attempt_row list \<Rightarrow> cluster \<Rightarrow> cluster" where
  "keep_recovery c t I as cl =
     cl\<lparr>tx_now := (tx_now cl)(c := t), tx_recovered := (tx_recovered cl)(c := I), tx_lapsed := (tx_lapsed cl)(c := as)\<rparr>"

text \<open>Recoveries and leases become visible to the others at the commit.\<close>

definition lease_rows :: "time \<Rightarrow> claim_call \<Rightarrow> uuid set \<Rightarrow> db \<Rightarrow> db" where
  "lease_rows t k U d =
     d\<lparr>jobs := upd_where (\<lambda>j. j_id j \<in> U) (lease_job t (cc_worker k) (cc_lease k)) (jobs d)\<rparr>"

section \<open>The other transactions\<close>

inductive other_step :: "db \<Rightarrow> db \<Rightarrow> bool" where
  o_insert: "other_step d (snd (transact e (insert_job p) d))"
| o_extend: "other_step d (snd (transact e (extend_lease i w ls) d))"
| o_return: "other_step d (snd (transact e (return_leased_job_to_pending i w) d))"
| o_complete: "other_step d (snd (transact e (complete_job job w ms r prev) d))"
| o_fail: "other_step d (snd (transact e (fail_job job w rt timed_out delay ms et em r prev) d))"
| o_cancel: "other_step d (snd (transact e (cancel_pending_job i) d))"
| o_purge: "other_step d (snd (transact e (purge_jobs sd dd n) d))"
| o_upsert_queue: "other_step d (snd (transact e (upsert_queue q) d))"
| o_update_queue: "other_step d (snd (transact e (update_queue q paused limit) d))"
| o_register: "other_step d (snd (transact e (register_worker w qs host) d))"
| o_heartbeat: "other_step d (snd (transact e (heartbeat_worker w qs host) d))"
| o_scan_order: "mset js = mset (jobs d) \<Longrightarrow> other_step d (d\<lparr>jobs := js\<rparr>)"

text \<open>They wait for, or skip, the rows claimers hold.\<close>

definition respects_locks :: "cluster \<Rightarrow> db \<Rightarrow> bool" where
  "respects_locks cl d \<longleftrightarrow>
     (\<forall>q \<in> set (queues (base cl)). queue_holder cl (q_name q) \<noteq> None \<longrightarrow> q \<in> set (queues d)) \<and>
     (\<forall>j \<in> set (jobs (base cl)). row_holder cl (j_id j) \<noteq> None \<longrightarrow> j \<in> set (jobs d))"

section \<open>Steps\<close>

text \<open>
  A transaction starts with its recovery, which skips the rows others have locked (\<open>busy\<close> are those of
  transactions that are not claimers). A worker with no free slot then goes straight to its commit
  (\<open>c_full\<close>), the others claim. A commit inserts the attempts of the recovery and fails when one of their
  identifiers has been taken meanwhile; a transaction can be rolled back at any point.

  In a \<open>strict\<close> run the second statement of a claim finds no queue to claim from that the first one has
  not locked. Nothing in the code ensures that: a queue that is resumed or created between the two
  statements is one.
\<close>

inductive cluster_step :: "bool \<Rightarrow> cluster \<Rightarrow> cluster \<Rightarrow> bool" for strict :: bool where
  c_recover: "phases cl c = Idle \<Longrightarrow>
    RECOVER_EXPIRED_LEASES_SQL (\<lambda>i. busy i \<or> row_holder cl i \<noteq> None) n t new_ids (base cl) = Inr (rows, d) \<Longrightarrow>
    attempts d = attempts (base cl) @ as \<Longrightarrow>
    cluster_step strict cl (enter c Recovered (hold_rows c (set rows) (keep_recovery c t (set rows) as cl)))"
| c_full: "phases cl c = Recovered \<Longrightarrow>
    cluster_step strict cl (enter c (Leasing k {}) cl)"
| c_begin: "phases cl c = Recovered \<Longrightarrow>
    cluster_step strict cl (enter c (Locking k (needed k (base cl))) cl)"
| c_lock: "phases cl c = Locking k (q # qs) \<Longrightarrow> free_for c q cl \<Longrightarrow>
    cluster_step strict cl (enter c (Locking k qs) (acquire c q cl))"
| c_locked: "phases cl c = Locking k [] \<Longrightarrow>
    cluster_step strict cl (enter c (Locked k) cl)"
| c_start: "phases cl c = Locked k \<Longrightarrow>
    (strict \<longrightarrow> (\<forall>q \<in> set (needed k (base cl)). queue_holder cl q = Some c)) \<Longrightarrow>
    cluster_step strict cl (enter c (Claiming k (tx_view c cl) (needed k (base cl))) cl)"
| c_queue: "phases cl c = Claiming k snap (q # qs) \<Longrightarrow> free_for c q cl \<Longrightarrow>
    cluster_step strict cl (enter c (Claiming k (refresh q (base cl) snap) qs) (acquire c q cl))"
| c_claim: "phases cl c = Claiming k snap [] \<Longrightarrow> U = picked_ids busy cl c k snap \<Longrightarrow>
    cluster_step strict cl (enter c (Leasing k U) (hold_rows c U cl))"
| c_commit: "phases cl c = Leasing k U \<Longrightarrow>
    insert_attempt_rows (tx_lapsed cl c) (tx_view c cl) = Inr d \<Longrightarrow>
    cluster_step strict cl (release c (cl\<lparr>base := lease_rows (tx_now cl c) k U d\<rparr>))"
| c_abort: "cluster_step strict cl (release c cl)"
| c_other: "other_step (base cl) d \<Longrightarrow> respects_locks cl d \<Longrightarrow>
    cluster_step strict cl (cl\<lparr>base := d\<rparr>)"

definition quiet_cluster :: "db \<Rightarrow> cluster" where
  "quiet_cluster d =
     \<lparr>base = d, queue_holder = (\<lambda>_. None), row_holder = (\<lambda>_. None), phases = (\<lambda>_. Idle), tx_now = (\<lambda>_. 0),
      tx_recovered = (\<lambda>_. {}), tx_lapsed = (\<lambda>_. [])\<rparr>"

inductive cluster_run :: "bool \<Rightarrow> cluster \<Rightarrow> bool" for strict :: bool where
  cluster_start: "reachable False d \<Longrightarrow> cluster_run strict (quiet_cluster d)"
| cluster_more: "cluster_run strict cl \<Longrightarrow> cluster_step strict cl cl' \<Longrightarrow> cluster_run strict cl'"

text \<open>A claimer waits when the next queue it has to lock is held by another.\<close>

fun next_queue :: "phase \<Rightarrow> string option" where
  "next_queue (Locking k (q # qs)) = Some q"
| "next_queue (Claiming k snap (q # qs)) = Some q"
| "next_queue p = None"

definition waits_for :: "cluster \<Rightarrow> nat \<Rightarrow> nat \<Rightarrow> bool" where
  "waits_for cl c c' \<longleftrightarrow>
     c' \<noteq> c \<and> (\<exists>q. next_queue (phases cl c) = Some q \<and> queue_holder cl q = Some c')"

lemma enter_simps [simp]:
  "base (enter c p cl) = base cl" "queue_holder (enter c p cl) = queue_holder cl"
  "row_holder (enter c p cl) = row_holder cl" "phases (enter c p cl) c' = (if c' = c then p else phases cl c')"
  "tx_now (enter c p cl) = tx_now cl" "tx_recovered (enter c p cl) = tx_recovered cl"
  "tx_lapsed (enter c p cl) = tx_lapsed cl" "tx_view c' (enter c p cl) = tx_view c' cl"
  by (simp_all add: enter_def tx_view_def)

lemma acquire_simps [simp]:
  "base (acquire c q cl) = base cl" "row_holder (acquire c q cl) = row_holder cl"
  "phases (acquire c q cl) = phases cl"
  "queue_holder (acquire c q cl) r = (if r = q then Some c else queue_holder cl r)"
  "tx_now (acquire c q cl) = tx_now cl" "tx_recovered (acquire c q cl) = tx_recovered cl"
  "tx_lapsed (acquire c q cl) = tx_lapsed cl" "tx_view c' (acquire c q cl) = tx_view c' cl"
  by (simp_all add: acquire_def tx_view_def)

lemma hold_rows_simps [simp]:
  "base (hold_rows c U cl) = base cl" "queue_holder (hold_rows c U cl) = queue_holder cl"
  "phases (hold_rows c U cl) = phases cl"
  "row_holder (hold_rows c U cl) i = (if i \<in> U then Some c else row_holder cl i)"
  "tx_now (hold_rows c U cl) = tx_now cl" "tx_recovered (hold_rows c U cl) = tx_recovered cl"
  "tx_lapsed (hold_rows c U cl) = tx_lapsed cl" "tx_view c' (hold_rows c U cl) = tx_view c' cl"
  by (simp_all add: hold_rows_def tx_view_def)

lemma keep_recovery_simps [simp]:
  "base (keep_recovery c t I as cl) = base cl" "queue_holder (keep_recovery c t I as cl) = queue_holder cl"
  "row_holder (keep_recovery c t I as cl) = row_holder cl" "phases (keep_recovery c t I as cl) = phases cl"
  "tx_now (keep_recovery c t I as cl) c' = (if c' = c then t else tx_now cl c')"
  "tx_recovered (keep_recovery c t I as cl) c' = (if c' = c then I else tx_recovered cl c')"
  "tx_lapsed (keep_recovery c t I as cl) c' = (if c' = c then as else tx_lapsed cl c')"
  by (simp_all add: keep_recovery_def)

lemma forget_Some [simp]: "forget c h x = Some c' \<longleftrightarrow> h x = Some c' \<and> c' \<noteq> c"
  by (auto simp: forget_def)

lemma release_simps [simp]:
  "base (release c cl) = base cl" "queue_holder (release c cl) = forget c (queue_holder cl)"
  "row_holder (release c cl) = forget c (row_holder cl)"
  "phases (release c cl) c' = (if c' = c then Idle else phases cl c')"
  "tx_now (release c cl) = tx_now cl"
  "tx_recovered (release c cl) c' = (if c' = c then {} else tx_recovered cl c')"
  "tx_lapsed (release c cl) c' = (if c' = c then [] else tx_lapsed cl c')"
  by (simp_all add: release_def)

lemma refresh_jobs [simp]: "jobs (refresh q d snap) = jobs snap"
  by (simp add: refresh_def)

lemma quiet_cluster_simps [simp]:
  "base (quiet_cluster d) = d" "queue_holder (quiet_cluster d) q = None"
  "row_holder (quiet_cluster d) i = None" "phases (quiet_cluster d) c = Idle"
  "tx_recovered (quiet_cluster d) c = {}" "tx_lapsed (quiet_cluster d) c = []"
  by (simp_all add: quiet_cluster_def)

lemma tx_view_simps [simp]:
  "queues (tx_view c cl) = queues (base cl)" "attempts (tx_view c cl) = attempts (base cl)"
  by (simp_all add: tx_view_def)

lemma jobs_tx_view:
  "jobs (tx_view c cl) = upd_where (\<lambda>j. j_id j \<in> tx_recovered cl c) (recover_job (tx_now cl c)) (jobs (base cl))"
  by (simp add: tx_view_def)

lemma tx_view_none: "tx_recovered cl c = {} \<Longrightarrow> tx_view c cl = base cl"
  by (simp add: tx_view_def upd_where_none)

lemma needed_tx_view [simp]: "needed k (tx_view c cl) = needed k (base cl)"
  by (simp add: needed_def locked_queues_def)

section \<open>The other transactions take no leases\<close>

lemma other_step_repo: "other_step d d' \<Longrightarrow> repo_step False d d'"
  by (induction rule: other_step.induct) (simp_all add: repo_step.intros)

definition no_new_leases :: "db \<Rightarrow> db \<Rightarrow> bool" where
  "no_new_leases d d' \<longleftrightarrow> (\<forall>q. leased_count q (jobs d') \<le> leased_count q (jobs d))"

named_theorems lease_intros \<open>transactions that take no leases\<close>

lemma no_new_leases_refl [simp]: "no_new_leases d d"
  by (simp add: no_new_leases_def)

lemma no_new_leases_same_jobs: "jobs d' = jobs d \<Longrightarrow> no_new_leases d d'"
  by (simp add: no_new_leases_def)

lemma no_new_leases_upd_where:
  assumes "jobs d' = upd_where p f (jobs d)"
    and "\<And>j. p j \<Longrightarrow> j_status (f j) = Leased \<Longrightarrow> j_status j = Leased \<and> j_queue_name (f j) = j_queue_name j"
  shows "no_new_leases d d'"
  unfolding no_new_leases_def leased_count_def assms(1) count_where_upd_where
  by (auto intro!: count_where_mono dest: assms(2) split: if_splits)

lemma no_new_leases_insert [lease_intros]:
  assumes "wf_db d"
  shows "no_new_leases d (snd (transact e (insert_job p) d))"
proof (rule transact_cases [OF uncommitted_job_ops(1)])
  fix x s assume ins: "insert_job p (open_session e d) = (Inr x, s)"
  obtain j b where x: "x = (j, b)" by (cases x)
  show "no_new_leases d (working s)"
  proof (cases b)
    case True
    with ins x assms insert_job_created(1,2) [of p "open_session e d" j s]
    have "jobs (working s) = jobs d @ [j]" "j_status j = Pending" by auto
    then show ?thesis by (simp add: no_new_leases_def leased_count_def count_where_def)
  next
    case False
    with ins x assms insert_job_existing(1) [of p "open_session e d" j s] show ?thesis
      by (intro no_new_leases_same_jobs) simp
  qed
qed simp

lemma no_new_leases_extend [lease_intros]: "no_new_leases d (snd (transact e (extend_lease i w ls) d))"
proof (rule transact_cases [OF uncommitted_state_ops(1)])
  fix x s assume "extend_lease i w ls (open_session e d) = (Inr x, s)"
  from extend_lease_Inr(2) [OF this, unfolded open_session_simps] show "no_new_leases d (working s)"
    by (rule no_new_leases_upd_where) simp
qed simp

lemma no_new_leases_return [lease_intros]:
  "no_new_leases d (snd (transact e (return_leased_job_to_pending i w) d))"
proof (rule transact_cases [OF uncommitted_state_ops(2)])
  fix x s assume "return_leased_job_to_pending i w (open_session e d) = (Inr x, s)"
  from return_leased_Inr(2) [OF this, unfolded open_session_simps] show "no_new_leases d (working s)"
    by (rule no_new_leases_upd_where) simp
qed simp

lemma no_new_leases_complete [lease_intros]:
  "no_new_leases d (snd (transact e (complete_job job w ms r prev) d))"
proof (rule transact_cases [OF uncommitted_state_ops(3)])
  fix x s assume "complete_job job w ms r prev (open_session e d) = (Inr x, s)"
  from complete_job_Inr(2) [OF this, unfolded open_session_simps] show "no_new_leases d (working s)"
    by (rule no_new_leases_upd_where) (simp add: completed_def)
qed simp

lemma no_new_leases_fail [lease_intros]:
  "no_new_leases d (snd (transact e (fail_job job w rt timed_out delay ms et em r prev) d))"
proof (rule transact_cases [OF uncommitted_state_ops(4)])
  fix x s assume "fail_job job w rt timed_out delay ms et em r prev (open_session e d) = (Inr x, s)"
  from fail_job_Inr(2) [OF this, unfolded open_session_simps] show "no_new_leases d (working s)"
    by (rule no_new_leases_upd_where) (simp add: failed_def split: if_splits)
qed simp

lemma no_new_leases_cancel [lease_intros]: "no_new_leases d (snd (transact e (cancel_pending_job i) d))"
proof (rule transact_cases [OF uncommitted_state_ops(6)])
  fix x s assume "cancel_pending_job i (open_session e d) = (Inr x, s)"
  from cancel_pending_job_Inr(3) [OF this, unfolded open_session_simps] show "no_new_leases d (working s)"
    by (rule no_new_leases_upd_where) (simp add: cancelled_def)
qed simp

lemma no_new_leases_purge [lease_intros]: "no_new_leases d (snd (transact e (purge_jobs sd dd n) d))"
proof (rule transact_cases [OF uncommitted_state_ops(7)])
  fix x s assume "purge_jobs sd dd n (open_session e d) = (Inr x, s)"
  from purge_jobs_Inr(1) [OF this] obtain g where w: "working s = delete_jobs g d" by simp
  have "count_where p (map (forget_source g) (filter (\<lambda>j. j_id j \<notin> g) js)) \<le> count_where p js"
    if "\<And>j. p (forget_source g j) = p j" for p js
    by (induction js) (simp_all add: that le_SucI)
  then show "no_new_leases d (working s)"
    by (simp add: no_new_leases_def leased_count_def w)
qed simp

lemma no_new_leases_upsert_queue [lease_intros]:
  "no_new_leases d (snd (transact e (upsert_queue q) d))"
  by (rule transact_cases [OF uncommitted_queue_ops(2)])
    (auto intro!: no_new_leases_same_jobs dest!: upsert_queue_frame(1))

lemma no_new_leases_update_queue [lease_intros]:
  "no_new_leases d (snd (transact e (update_queue q p l) d))"
  by (rule transact_cases [OF uncommitted_queue_ops(3)])
    (auto intro!: no_new_leases_same_jobs dest!: update_queue_Inr(5))

lemma no_new_leases_register [lease_intros]:
  "no_new_leases d (snd (transact e (register_worker w qs h) d))"
  by (rule transact_cases [OF uncommitted_register_worker])
    (auto intro!: no_new_leases_same_jobs dest!: register_worker_Inr(1))

lemma no_new_leases_heartbeat [lease_intros]:
  "no_new_leases d (snd (transact e (heartbeat_worker w qs h) d))"
  by (rule transact_cases [OF uncommitted_heartbeat_worker])
    (auto intro!: no_new_leases_same_jobs dest!: heartbeat_worker_Inr(1))

lemma no_new_leases_scan_order [lease_intros]:
  assumes "mset js = mset (jobs d)"
  shows "no_new_leases d (d\<lparr>jobs := js\<rparr>)"
proof -
  have "length (filter p js) = length (filter p (jobs d))" for p
    using assms by (metis mset_filter size_mset)
  then show ?thesis
    by (simp add: no_new_leases_def leased_count_def count_where_def)
qed

lemma other_step_leases: "other_step d d' \<Longrightarrow> wf_db d \<Longrightarrow> no_new_leases d d'"
  by (induction rule: other_step.induct) (simp_all add: lease_intros)

lemma other_step_wf: "other_step d d' \<Longrightarrow> wf_db d \<Longrightarrow> wf_db d'"
  by (blast intro: other_step_repo wf_repo_step)


end
