(* ===== verification/Concurrent_Claims.thy ===== *)
theory Concurrent_Claims imports Claim_Steps begin

text \<open>
  What claims that run at the same time guarantee: the rows a claimer holds, the concurrency limits in
  strict runs, disjointness, and the order in which queues are locked.
\<close>

section \<open>The rows claimers hold\<close>

text \<open>
  A claimer has locked the rows it has recovered, and for everyone else they are still leased, under a
  lease that has expired. It has locked the rows it leases, which are pending with attempts left as it
  reads them.
\<close>

definition rows_lapsed :: "cluster \<Rightarrow> bool" where
  "rows_lapsed cl \<longleftrightarrow>
     (\<forall>c i. i \<in> tx_recovered cl c \<longrightarrow> row_holder cl i = Some c \<and>
        (\<exists>j \<in> set (jobs (base cl)). j_id j = i \<and> lease_is_expired (tx_now cl c) j))"

definition rows_pending :: "cluster \<Rightarrow> bool" where
  "rows_pending cl \<longleftrightarrow>
     (\<forall>c k U i. phases cl c = Leasing k U \<longrightarrow> i \<in> U \<longrightarrow> row_holder cl i = Some c \<and>
        (\<exists>j \<in> set (jobs (tx_view c cl)). j_id j = i \<and> j_status j = Pending \<and> j_attempt_count j < j_max_attempts j))"

definition rows_held :: "cluster \<Rightarrow> bool" where
  "rows_held cl \<longleftrightarrow>
     (\<forall>i c. row_holder cl i = Some c \<longrightarrow>
        i \<in> tx_recovered cl c \<or> (\<exists>k U. phases cl c = Leasing k U \<and> i \<in> U)) \<and>
     (\<forall>c. phases cl c = Idle \<longrightarrow> tx_recovered cl c = {})"

definition cluster_ok :: "cluster \<Rightarrow> bool" where
  "cluster_ok cl \<longleftrightarrow> wf_db (base cl) \<and> rows_lapsed cl \<and> rows_pending cl \<and> rows_held cl"

lemma cluster_okD:
  assumes "cluster_ok cl"
  shows "wf_db (base cl)" and "rows_lapsed cl" and "rows_pending cl" and "rows_held cl"
  using assms by (simp_all add: cluster_ok_def)

lemma rows_lapsedD:
  assumes "rows_lapsed cl" and "i \<in> tx_recovered cl c"
  shows "row_holder cl i = Some c"
    and "\<exists>j \<in> set (jobs (base cl)). j_id j = i \<and> lease_is_expired (tx_now cl c) j"
  using assms unfolding rows_lapsed_def by blast+

lemma rows_pendingD:
  assumes "rows_pending cl" and "phases cl c = Leasing k U" and "i \<in> U"
  shows "row_holder cl i = Some c"
    and "\<exists>j \<in> set (jobs (tx_view c cl)). j_id j = i \<and> j_status j = Pending \<and> j_attempt_count j < j_max_attempts j"
  using assms unfolding rows_pending_def by blast+

lemma picked_idsD:
  assumes "i \<in> picked_ids busy cl c k snap"
  shows "row_holder cl i = None \<or> row_holder cl i = Some c"
    and "\<exists>j \<in> set (jobs (tx_view c cl)). \<exists>s \<in> set (jobs snap). j_id j = i \<and> j_id s = i \<and>
      claimable (tx_now cl c) (j_queue_name s) j"
  using assms by (auto simp: picked_ids_def skipped_def dest!: picked_jobs_claimable)

lemma recover_job_simps [simp]:
  "j_id (recover_job t j) = j_id j" "j_queue_name (recover_job t j) = j_queue_name j"
  "j_attempt_count (recover_job t j) = j_attempt_count j" "j_max_attempts (recover_job t j) = j_max_attempts j"
  "j_status (recover_job t j) \<noteq> Leased"
  by (simp_all add: recover_job_def Let_def)

lemma recovered_rows:
  assumes "wf_db d" and "RECOVER_EXPIRED_LEASES_SQL locked n t new_ids d = Inr (rows, d')" and "i \<in> set rows"
  shows "\<not> locked i" and "\<exists>j \<in> set (jobs d). j_id j = i \<and> lease_is_expired t j"
  using assms(3) expired_jobs_expired unfolding recover_sql_Inr(1) [OF assms(1,2)] by fastforce+

section \<open>What a claimer reads\<close>

lemma tx_view_row:
  "j \<in> set (jobs (tx_view c cl)) \<longleftrightarrow>
     (\<exists>b \<in> set (jobs (base cl)). j = (if j_id b \<in> tx_recovered cl c then recover_job (tx_now cl c) b else b))"
  by (auto simp: jobs_tx_view set_upd_where image_iff)

lemma tx_view_transfer:
  assumes "j \<in> set (jobs (tx_view c cl))" and "tx_recovered cl' c = tx_recovered cl c" and "tx_now cl' c = tx_now cl c"
    and "\<And>b. b \<in> set (jobs (base cl)) \<Longrightarrow> j_id b = j_id j \<Longrightarrow> b \<in> set (jobs (base cl'))"
  shows "j \<in> set (jobs (tx_view c cl'))"
  using assms by (fastforce simp: tx_view_row split: if_splits)

lemma tx_view_base_row:
  assumes "j \<in> set (jobs (tx_view c cl))"
  obtains b where "b \<in> set (jobs (base cl))" and "j_id b = j_id j"
  using assms by (auto simp: tx_view_row split: if_splits)

lemma tx_view_keep_recovery [simp]: "c' \<noteq> c \<Longrightarrow> tx_view c' (keep_recovery c t I as cl) = tx_view c' cl"
  by (simp add: tx_view_def)

lemma tx_view_release: "c' \<noteq> c \<Longrightarrow> tx_view c' (release c cl) = tx_view c' cl"
  by (simp add: tx_view_def)

lemma wf_tx_view:
  assumes "wf_db (base cl)" and "rows_lapsed cl"
  shows "wf_db (tx_view c cl)"
  unfolding tx_view_def
proof (rule wf_db_upd_where [OF assms(1)])
  fix j assume "j \<in> set (jobs (base cl))" "j_id j \<in> tx_recovered cl c"
  with rows_lapsedD(2) [OF assms(2)] have "lease_is_expired (tx_now cl c) j"
    by (metis assms(1) key_inj wf_db_distinct_ids)
  then show "same_keys j (recover_job (tx_now cl c) j)" and "job_ok j \<Longrightarrow> job_ok (recover_job (tx_now cl c) j)"
    by (auto simp: recover_job_def Let_def same_keys_def job_ok_def lease_is_expired_def)
qed

section \<open>The commit\<close>

lemma jobs_lease_rows:
  "jobs (lease_rows t k U d) = upd_where (\<lambda>j. j_id j \<in> U) (lease_job t (cc_worker k) (cc_lease k)) (jobs d)"
  by (simp add: lease_rows_def)

lemma queues_lease_rows [simp]: "queues (lease_rows t k U d) = queues d"
  by (simp add: lease_rows_def)

lemma insert_attempt_rows_frame:
  assumes "insert_attempt_rows as d = Inr d'"
  shows "jobs d' = jobs d" and "queues d' = queues d"
  using insert_attempt_rows_Inr [OF assms] by simp_all

lemma wf_commit:
  assumes "cluster_ok cl" and "phases cl c = Leasing k U" and "insert_attempt_rows as (tx_view c cl) = Inr d"
  shows "wf_db (lease_rows t k U d)"
  unfolding lease_rows_def
proof (rule wf_db_upd_where)
  have view: "wf_db (tx_view c cl)" using assms(1) by (simp add: wf_tx_view cluster_ok_def)
  then show "wf_db d" using assms(3) by (rule wf_insert_attempt_rows)
  fix j assume "j \<in> set (jobs d)" "j_id j \<in> U"
  with rows_pendingD(2) [OF _ assms(2)] assms(1) insert_attempt_rows_frame(1) [OF assms(3)]
  have "j_status j = Pending \<and> j_attempt_count j < j_max_attempts j"
    by (metis cluster_ok_def key_inj view wf_db_distinct_ids)
  then show "same_keys j (lease_job t (cc_worker k) (cc_lease k) j)"
    and "job_ok j \<Longrightarrow> job_ok (lease_job t (cc_worker k) (cc_lease k) j)"
    by (auto simp: lease_job_def same_keys_def job_ok_def)
qed

text \<open>A commit leaves the rows the claimer does not hold.\<close>

lemma commit_keeps_row:
  assumes "cluster_ok cl" and "phases cl c = Leasing k U" and "insert_attempt_rows as (tx_view c cl) = Inr d"
    and "j \<in> set (jobs (base cl))" and "row_holder cl (j_id j) \<noteq> Some c"
  shows "j \<in> set (jobs (lease_rows t k U d))"
proof -
  have "j_id j \<notin> tx_recovered cl c" "j_id j \<notin> U"
    using rows_lapsedD(1) [OF cluster_okD(2) [OF assms(1)]] rows_pendingD(1) [OF cluster_okD(3) [OF assms(1)] assms(2)]
      assms(5) by blast+
  with assms(4) show ?thesis
    by (auto simp: jobs_lease_rows insert_attempt_rows_frame(1) [OF assms(3)] jobs_tx_view set_upd_where)
qed

lemma cluster_step_wf: "cluster_step strict cl cl' \<Longrightarrow> cluster_ok cl \<Longrightarrow> wf_db (base cl')"
proof (induction rule: cluster_step.induct)
  case (c_commit cl c k U d)
  then show ?case by (simp add: wf_commit)
next
  case (c_other cl d)
  then show ?case by (simp add: other_step_wf cluster_ok_def)
qed (simp_all add: cluster_ok_def)

lemma rows_held_step: "cluster_step strict cl cl' \<Longrightarrow> cluster_ok cl \<Longrightarrow> rows_held cl'"
proof (induction rule: cluster_step.induct)
  case (c_recover cl c busy n t new_ids rows d as)
  then have rh: "rows_held cl" by (simp add: cluster_ok_def)
  have free: "row_holder cl i \<noteq> Some c" for i
    using rh c_recover.hyps(1) unfolding rows_held_def by (metis empty_iff phase.distinct(9))
  then show ?case
    using rh by (auto simp: rows_held_def)
next
  case (c_claim cl c k snap U busy)
  then show ?case by (fastforce simp: rows_held_def cluster_ok_def)
qed (fastforce simp: rows_held_def cluster_ok_def)+

lemma rows_lapsed_step:
  assumes "cluster_step strict cl cl'" and "cluster_ok cl"
  shows "rows_lapsed cl'"
  using assms
proof (induction rule: cluster_step.induct)
  case (c_recover cl c busy n t new_ids rows d as)
  then have wf: "wf_db (base cl)" and rl: "rows_lapsed cl" by (simp_all add: cluster_ok_def)
  note rec = recovered_rows [OF wf c_recover.hyps(2)]
  have "i \<notin> set rows" if "i \<in> tx_recovered cl c'" for c' i
    using rows_lapsedD(1) [OF rl that] rec(1) [of i] by auto
  with rec(2) rows_lapsedD [OF rl] show ?case
    by (auto simp: rows_lapsed_def)
next
  case (c_claim cl c k snap U busy)
  then have rl: "rows_lapsed cl" by (simp add: cluster_ok_def)
  have "c' = c" if "i \<in> tx_recovered cl c'" "i \<in> U" for c' i
    using rows_lapsedD(1) [OF rl that(1)] picked_idsD(1) [of i busy cl c k snap] that(2) c_claim.hyps(2) by auto
  with rows_lapsedD [OF rl] show ?case
    by (auto simp: rows_lapsed_def)
next
  case (c_commit cl c k U d)
  then have rl: "rows_lapsed cl" by (simp add: cluster_ok_def)
  have "row_holder cl i = Some c' \<and>
      (\<exists>j \<in> set (jobs (lease_rows (tx_now cl c) k U d)). j_id j = i \<and> lease_is_expired (tx_now cl c') j)"
    if "i \<in> tx_recovered cl c'" "c' \<noteq> c" for c' i
    using rows_lapsedD [OF rl that(1)] commit_keeps_row [OF c_commit.prems c_commit.hyps] that(2)
    by (metis option.inject)
  then show ?case by (auto simp: rows_lapsed_def)
next
  case (c_other cl d)
  then have rl: "rows_lapsed cl" by (simp add: cluster_ok_def)
  have "row_holder cl i = Some c \<and> (\<exists>j \<in> set (jobs d). j_id j = i \<and> lease_is_expired (tx_now cl c) j)"
    if "i \<in> tx_recovered cl c" for c i
    using rows_lapsedD [OF rl that] c_other.hyps(2) unfolding respects_locks_def by (metis option.distinct(1))
  then show ?case by (simp add: rows_lapsed_def)
qed (auto simp: cluster_ok_def rows_lapsed_def)

text \<open>What a claimer reads of the rows it holds does not change.\<close>

lemma held_view_row:
  assumes "row_holder cl i = Some c" and "tx_recovered cl' c = tx_recovered cl c" and "tx_now cl' c = tx_now cl c"
    and keep: "\<And>b. b \<in> set (jobs (base cl)) \<Longrightarrow> row_holder cl (j_id b) = Some c \<Longrightarrow> b \<in> set (jobs (base cl'))"
    and "j \<in> set (jobs (tx_view c cl))" and "j_id j = i"
  shows "j \<in> set (jobs (tx_view c cl'))"
  by (rule tx_view_transfer [OF assms(5,2,3)]) (simp add: keep assms(1,6))

lemma rows_pending_step:
  assumes "cluster_step strict cl cl'" and "cluster_ok cl"
  shows "rows_pending cl'"
  using assms
proof (induction rule: cluster_step.induct)
  case (c_recover cl c busy n t new_ids rows d as)
  then have wf: "wf_db (base cl)" and rp: "rows_pending cl" by (simp_all add: cluster_ok_def)
  have "row_holder cl i = Some c' \<and> i \<notin> set rows" if "phases cl c' = Leasing k U" "i \<in> U" for c' k U i
    using rows_pendingD(1) [OF rp that] recovered_rows(1) [OF wf c_recover.hyps(2), of i] by auto
  with rows_pendingD(2) [OF rp] show ?case
    by (auto simp: rows_pending_def)
next
  case (c_claim cl c k snap U busy)
  then have rp: "rows_pending cl" by (simp add: cluster_ok_def)
  have "row_holder (hold_rows c U cl) i = Some c' \<and>
      (\<exists>j \<in> set (jobs (tx_view c' cl)). j_id j = i \<and> j_status j = Pending \<and> j_attempt_count j < j_max_attempts j)"
    if "phases (enter c (Leasing k U) (hold_rows c U cl)) c' = Leasing k' U'" "i \<in> U'" for c' k' U' i
  proof (cases "c' = c")
    case True
    with that have "i \<in> U" by simp
    with picked_idsD(2) [of i busy cl c k snap] c_claim.hyps(2) True show ?thesis
      by (auto simp: claimable_def)
  next
    case False
    with that have own: "phases cl c' = Leasing k' U'" by simp
    from rows_pendingD(1) [OF rp own that(2)] picked_idsD(1) [of i busy cl c k snap] c_claim.hyps(2) False
    have "i \<notin> U" by auto
    with rows_pendingD [OF rp own that(2)] show ?thesis by simp
  qed
  then show ?case by (simp only: rows_pending_def enter_simps hold_rows_simps) blast
next
  case (c_commit cl c k U d)
  then have rp: "rows_pending cl" by (simp add: cluster_ok_def)
  let ?cl = "cl\<lparr>base := lease_rows (tx_now cl c) k U d\<rparr>"
  have "row_holder cl i = Some c' \<and> (\<exists>j \<in> set (jobs (tx_view c' (release c ?cl))). j_id j = i \<and>
      j_status j = Pending \<and> j_attempt_count j < j_max_attempts j)"
    if own: "phases cl c' = Leasing k' U'" "i \<in> U'" and "c' \<noteq> c" for c' k' U' i
  proof
    show h: "row_holder cl i = Some c'" by (rule rows_pendingD(1) [OF rp own])
    have "b \<in> set (jobs (base (release c ?cl)))" if "b \<in> set (jobs (base cl))" "row_holder cl (j_id b) = Some c'" for b
      using commit_keeps_row [OF c_commit.prems c_commit.hyps that(1)] that(2) \<open>c' \<noteq> c\<close> by simp
    note keep = this
    have same: "j \<in> set (jobs (tx_view c' (release c ?cl)))"
      if "j \<in> set (jobs (tx_view c' cl))" "j_id j = i" for j
    proof (rule held_view_row [where cl = cl and i = i])
      show "tx_recovered (release c ?cl) c' = tx_recovered cl c'" "tx_now (release c ?cl) c' = tx_now cl c'"
        using \<open>c' \<noteq> c\<close> by simp_all
    qed (fact h keep that)+
    from rows_pendingD(2) [OF rp own] obtain j where j: "j \<in> set (jobs (tx_view c' cl))" "j_id j = i"
      "j_status j = Pending \<and> j_attempt_count j < j_max_attempts j" by blast
    show "\<exists>j \<in> set (jobs (tx_view c' (release c ?cl))). j_id j = i \<and>
        j_status j = Pending \<and> j_attempt_count j < j_max_attempts j"
      by (rule bexI [OF _ same]) (use j in simp_all)
  qed
  then show ?case by (auto simp: rows_pending_def)
next
  case (c_abort cl c)
  then show ?case by (auto simp: cluster_ok_def rows_pending_def tx_view_release)
next
  case (c_other cl d)
  then have rp: "rows_pending cl" by (simp add: cluster_ok_def)
  have "row_holder cl i = Some c \<and> (\<exists>j \<in> set (jobs (tx_view c (cl\<lparr>base := d\<rparr>))). j_id j = i \<and>
      j_status j = Pending \<and> j_attempt_count j < j_max_attempts j)"
    if own: "phases cl c = Leasing k U" "i \<in> U" for c k U i
  proof
    show h: "row_holder cl i = Some c" by (rule rows_pendingD(1) [OF rp own])
    have "b \<in> set (jobs (base (cl\<lparr>base := d\<rparr>)))" if "b \<in> set (jobs (base cl))" "row_holder cl (j_id b) = Some c" for b
      using c_other.hyps(2) that by (simp add: respects_locks_def)
    note keep = this
    have same: "j \<in> set (jobs (tx_view c (cl\<lparr>base := d\<rparr>)))"
      if "j \<in> set (jobs (tx_view c cl))" "j_id j = i" for j
    proof (rule held_view_row [where cl = cl and i = i])
      show "tx_recovered (cl\<lparr>base := d\<rparr>) c = tx_recovered cl c" "tx_now (cl\<lparr>base := d\<rparr>) c = tx_now cl c"
        by simp_all
    qed (fact h keep that)+
    from rows_pendingD(2) [OF rp own] obtain j where j: "j \<in> set (jobs (tx_view c cl))" "j_id j = i"
      "j_status j = Pending \<and> j_attempt_count j < j_max_attempts j" by blast
    show "\<exists>j \<in> set (jobs (tx_view c (cl\<lparr>base := d\<rparr>))). j_id j = i \<and>
        j_status j = Pending \<and> j_attempt_count j < j_max_attempts j"
      by (rule bexI [OF _ same]) (use j in simp_all)
  qed
  then show ?case by (simp add: rows_pending_def)
qed (auto simp: cluster_ok_def rows_pending_def)

lemma cluster_ok_step: "cluster_step strict cl cl' \<Longrightarrow> cluster_ok cl \<Longrightarrow> cluster_ok cl'"
  using cluster_step_wf rows_lapsed_step rows_pending_step rows_held_step by (metis cluster_ok_def)

lemma cluster_run_ok: "cluster_run strict cl \<Longrightarrow> cluster_ok cl"
proof (induction rule: cluster_run.induct)
  case (cluster_start d)
  then show ?case
    by (simp add: cluster_ok_def rows_lapsed_def rows_pending_def rows_held_def reachable_wf)
next
  case (cluster_more cl cl')
  then show ?case by (blast intro: cluster_ok_step)
qed

section \<open>Concurrency limits in strict runs\<close>

text \<open>How many rows of a queue a claimer is about to lease.\<close>

definition claimed_in :: "uuid set \<Rightarrow> string \<Rightarrow> db \<Rightarrow> nat" where
  "claimed_in U q d = count_where (\<lambda>j. j_id j \<in> U \<and> j_queue_name j = q) (jobs d)"

text \<open>
  A claimer in its second statement holds every queue it claims from, and its snapshot counts no fewer
  leases there than the database has without those it has recovered.
\<close>

definition snaps_current :: "cluster \<Rightarrow> bool" where
  "snaps_current cl \<longleftrightarrow>
     (\<forall>c k snap todo. phases cl c = Claiming k snap todo \<longrightarrow>
        wf_db snap \<and> set todo \<subseteq> set (needed k snap) \<and>
        (\<forall>q \<in> set (locked_queues (cc_names k) snap).
           queue_holder cl (q_name q) = Some c \<and> q \<in> set (queues (base cl)) \<and>
           leased_count (q_name q) (jobs (tx_view c cl)) \<le> leased_count (q_name q) (jobs snap)))"

text \<open>The rows it leases fit: it holds their queue, and the queue has room for all of them.\<close>

definition leases_fit :: "cluster \<Rightarrow> bool" where
  "leases_fit cl \<longleftrightarrow>
     (\<forall>c k U q. phases cl c = Leasing k U \<longrightarrow> 0 < claimed_in U q (base cl) \<longrightarrow>
        queue_holder cl q = Some c \<and>
        (\<exists>r \<in> set (queues (base cl)). q_name r = q \<and>
           int (leased_count q (jobs (tx_view c cl)) + claimed_in U q (base cl)) \<le> q_concurrency_limit r))"

lemma claimed_in_lease_rows [simp]: "claimed_in V q (lease_rows t k U d) = claimed_in V q d"
  by (auto simp: claimed_in_def jobs_lease_rows count_where_upd_where intro: count_where_cong)

lemma claimed_in_tx_view [simp]: "claimed_in V q (tx_view c cl) = claimed_in V q (base cl)"
  by (auto simp: claimed_in_def jobs_tx_view count_where_upd_where intro: count_where_cong)

lemma claimed_in_same_jobs: "jobs d' = jobs d \<Longrightarrow> claimed_in V q d' = claimed_in V q d"
  by (simp add: claimed_in_def)

lemma claimed_in_none [simp]: "claimed_in {} q d = 0"
  by (simp add: claimed_in_def count_where_zero)

text \<open>The leases of a queue are those a claimer sees and those it has recovered.\<close>

lemma leased_count_tx_view:
  assumes "cluster_ok cl"
  shows "leased_count q (jobs (tx_view c cl)) + claimed_in (tx_recovered cl c) q (base cl) =
    leased_count q (jobs (base cl))"
proof -
  have lapsed: "j_status j = Leased" if "j \<in> set (jobs (base cl))" "j_id j \<in> tx_recovered cl c" for j
  proof -
    from rows_lapsedD(2) [OF cluster_okD(2) [OF assms] that(2)] obtain b where
      "b \<in> set (jobs (base cl))" "j_id b = j_id j" "lease_is_expired (tx_now cl c) b" by blast
    with key_inj [OF wf_db_distinct_ids [OF cluster_okD(1) [OF assms]]] that(1) show ?thesis
      by (auto simp: lease_is_expired_def)
  qed
  have "count_where (\<lambda>j. if j_id j \<in> R then False else j_status j = Leased \<and> j_queue_name j = q) js +
      count_where (\<lambda>j. j_id j \<in> R \<and> j_queue_name j = q) js =
      count_where (\<lambda>j. j_status j = Leased \<and> j_queue_name j = q) js"
    if "\<And>j. j \<in> set js \<Longrightarrow> j_id j \<in> R \<Longrightarrow> j_status j = Leased" for R js
    using that by (induction js) auto
  from this [OF lapsed] show ?thesis
    by (simp add: leased_count_def claimed_in_def jobs_tx_view count_where_upd_where cong: if_cong)
qed

lemma leased_count_commit:
  assumes "cluster_ok cl" and "phases cl c = Leasing k U" and "insert_attempt_rows as (tx_view c cl) = Inr d"
  shows "leased_count q (jobs (lease_rows t k U d)) =
    leased_count q (jobs (tx_view c cl)) + claimed_in U q (base cl)"
proof -
  have wf: "wf_db (tx_view c cl)" using assms(1) by (simp add: wf_tx_view cluster_ok_def)
  have pending: "j_status j = Pending" if "j \<in> set (jobs (tx_view c cl))" "j_id j \<in> U" for j
    using that assms rows_pendingD(2) [OF _ assms(2) that(2)] by (metis cluster_ok_def key_inj wf wf_db_distinct_ids)
  have "count_where (\<lambda>j. if j_id j \<in> U then j_queue_name j = q else j_status j = Leased \<and> j_queue_name j = q) js =
      count_where (\<lambda>j. j_status j = Leased \<and> j_queue_name j = q) js +
      count_where (\<lambda>j. j_id j \<in> U \<and> j_queue_name j = q) js"
    if "\<And>j. j \<in> set js \<Longrightarrow> j_id j \<in> U \<Longrightarrow> j_status j = Pending" for js
    using that by (induction js) auto
  from this [OF pending] have "leased_count q (jobs (lease_rows t k U d)) =
      leased_count q (jobs (tx_view c cl)) + claimed_in U q (tx_view c cl)"
    by (simp add: leased_count_def claimed_in_def jobs_lease_rows insert_attempt_rows_frame(1) [OF assms(3)]
        count_where_upd_where cong: if_cong)
  then show ?thesis by simp
qed

text \<open>The rows claimers hold stay in their queues.\<close>

lemma claimed_in_le:
  assumes "wf_db d" and "\<And>j. j \<in> set (jobs d) \<Longrightarrow> j_id j \<in> U \<Longrightarrow> j \<in> set (jobs d')"
  shows "claimed_in U q d \<le> claimed_in U q d'"
  unfolding claimed_in_def
  by (rule count_where_image [where f = j_id and g = j_id])
    (auto simp: wf_db_distinct_ids [OF assms(1)] dest: assms(2))

lemma claimed_in_other:
  assumes "wf_db (base cl)" and "wf_db d" and "respects_locks cl d"
    and held: "\<And>i. i \<in> U \<Longrightarrow> row_holder cl i = Some c \<and> (\<exists>j \<in> set (jobs (base cl)). j_id j = i)"
  shows "claimed_in U q d = claimed_in U q (base cl)"
proof (rule antisym)
  have kept: "j \<in> set (jobs d)" if "j \<in> set (jobs (base cl))" "j_id j \<in> U" for j
    using assms(3) held [OF that(2)] that(1) by (simp add: respects_locks_def)
  then show "claimed_in U q (base cl) \<le> claimed_in U q d"
    by (intro claimed_in_le assms(1)) 
  show "claimed_in U q d \<le> claimed_in U q (base cl)"
  proof (rule claimed_in_le [OF assms(2)])
    fix j assume j: "j \<in> set (jobs d)" "j_id j \<in> U"
    from held [OF j(2)] obtain b where b: "b \<in> set (jobs (base cl))" "j_id b = j_id j" by blast
    with kept j(2) have "b \<in> set (jobs d)" by simp
    with b j(1) key_inj [OF wf_db_distinct_ids [OF assms(2)]] show "j \<in> set (jobs (base cl))" by metis
  qed
qed

lemma leased_held:
  assumes "cluster_ok cl" and "phases cl c = Leasing k U" and "i \<in> U"
  shows "row_holder cl i = Some c \<and> (\<exists>j \<in> set (jobs (base cl)). j_id j = i)"
  using rows_pendingD [OF cluster_okD(3) [OF assms(1)] assms(2,3)] by (blast elim: tx_view_base_row)

lemma recovered_held:
  assumes "cluster_ok cl" and "i \<in> tx_recovered cl c"
  shows "row_holder cl i = Some c \<and> (\<exists>j \<in> set (jobs (base cl)). j_id j = i)"
  using rows_lapsedD [OF cluster_okD(2) [OF assms(1)] assms(2)] by blast

text \<open>The picked rows of a snapshot that is current fit into their queue.\<close>

lemma claimed_in_picked:
  assumes "wf_db (tx_view c cl)" and "wf_db snap"
  shows "claimed_in (picked_ids busy cl c k snap) q (tx_view c cl) \<le>
    count_where (\<lambda>j. j_queue_name j = q)
      (picked_jobs (skipped busy cl c snap) (cc_names k) (cc_batch k) (tx_now cl c) snap)"
  unfolding claimed_in_def
proof (rule count_where_image [where f = j_id and g = j_id])
  show "distinct (map j_id (jobs (tx_view c cl)))"
    using assms(1) by (rule wf_db_distinct_ids)
  let ?P = "picked_jobs (skipped busy cl c snap) (cc_names k) (cc_batch k) (tx_now cl c) snap"
  have "j_id j \<in> j_id ` {s \<in> set ?P. j_queue_name s = q}"
    if j: "j \<in> set (jobs (tx_view c cl))" "j_id j \<in> picked_ids busy cl c k snap" "j_queue_name j = q" for j
  proof -
    from j(2) obtain s where s: "s \<in> set ?P" "j_id s = j_id j" by (auto simp: picked_ids_def)
    from picked_idsD(2) [OF j(2)] obtain j' s' where b: "j' \<in> set (jobs (tx_view c cl))" "s' \<in> set (jobs snap)"
      "j_id j' = j_id j" "j_id s' = j_id j" "claimable (tx_now cl c) (j_queue_name s') j'" by blast
    from b j(1) key_inj [OF wf_db_distinct_ids [OF assms(1)]] have "j' = j" by blast
    moreover from b s picked_jobs_claimable [OF s(1)] key_inj [OF wf_db_distinct_ids [OF assms(2)]] have "s' = s"
      by metis
    ultimately show ?thesis using b s j(3) by (auto simp: claimable_def image_iff intro!: bexI [of _ s])
  qed
  then show "j_id ` {j \<in> set (jobs (tx_view c cl)). j_id j \<in> picked_ids busy cl c k snap \<and> j_queue_name j = q}
      \<subseteq> j_id ` {s \<in> set ?P. j_queue_name s = q}"
    by blast
qed

lemma picked_fit:
  assumes "cluster_ok cl" and "snaps_current cl" and ph: "phases cl c = Claiming k snap []"
    and pos: "0 < claimed_in (picked_ids busy cl c k snap) q (base cl)"
  shows "queue_holder cl q = Some c \<and>
    (\<exists>r \<in> set (queues (base cl)). q_name r = q \<and>
      int (leased_count q (jobs (tx_view c cl)) + claimed_in (picked_ids busy cl c k snap) q (base cl))
        \<le> q_concurrency_limit r)"
proof -
  let ?P = "picked_jobs (skipped busy cl c snap) (cc_names k) (cc_batch k) (tx_now cl c) snap"
  have wf: "wf_db (tx_view c cl)" "wf_db snap"
    using assms(1,2) ph wf_tx_view unfolding cluster_ok_def snaps_current_def by blast+
  note le = claimed_in_picked [OF wf, of busy k q, unfolded claimed_in_tx_view]
  with pos have "0 < count_where (\<lambda>j. j_queue_name j = q) ?P" by linarith
  then obtain s where s: "s \<in> set ?P" "j_queue_name s = q" by (auto simp: count_where_pos)
  from picked_jobs_candidate [OF s(1)] s(2) obtain r where
    r: "r \<in> set (locked_queues (cc_names k) snap)" "q_name r = q" by (metis queue_candidates_queue)
  with assms(2) ph have cur: "queue_holder cl q = Some c" "r \<in> set (queues (base cl))"
    "leased_count q (jobs (tx_view c cl)) \<le> leased_count q (jobs snap)"
    unfolding snaps_current_def by blast+
  have "count_where (\<lambda>j. j_queue_name j = q) ?P \<le> slots snap r"
    using count_picked_le_slots [OF wf(2)] r by (auto simp: locked_queues_set)
  with le pos slots_bound [of snap r, unfolded r(2)] cur(3)
  have "int (leased_count q (jobs (tx_view c cl)) + claimed_in (picked_ids busy cl c k snap) q (base cl))
      \<le> q_concurrency_limit r" by linarith
  with cur r(2) show ?thesis by blast
qed

lemma refresh_current:
  assumes "wf_db (base cl)" and "snaps_current cl" and ph: "phases cl c = Claiming k snap (q # qs)"
  shows "refresh q (base cl) snap = snap"
proof -
  have cur: "wf_db snap" "q \<in> set (needed k snap)"
    "\<forall>r \<in> set (locked_queues (cc_names k) snap). r \<in> set (queues (base cl))"
    using assms(2) ph unfolding snaps_current_def by fastforce+
  have "the_default r (find (\<lambda>r'. q_name r' = q) (queues (base cl))) = r"
    if r: "r \<in> set (queues snap)" "q_name r = q" for r
  proof -
    from cur(2) obtain r0 where r0: "r0 \<in> set (locked_queues (cc_names k) snap)" "q_name r0 = q"
      by (auto simp: needed_def)
    with r key_inj [OF wf_db_distinct_queues [OF cur(1)]] have "r0 = r"
      by (metis locked_queues_set)
    with r0 cur(3) find_key_mem [OF wf_db_distinct_queues [OF assms(1)], of r] show ?thesis by auto
  qed
  then have "queues (refresh q (base cl) snap) = queues snap"
    by (simp add: refresh_def map_idI)
  then show ?thesis by (simp add: refresh_def)
qed

lemma snaps_currentD:
  assumes "snaps_current cl" and "phases cl c = Claiming k snap todo"
  shows "wf_db snap" and "set todo \<subseteq> set (needed k snap)"
    and "r \<in> set (locked_queues (cc_names k) snap) \<Longrightarrow>
      queue_holder cl (q_name r) = Some c \<and> r \<in> set (queues (base cl)) \<and>
      leased_count (q_name r) (jobs (tx_view c cl)) \<le> leased_count (q_name r) (jobs snap)"
  using assms unfolding snaps_current_def by blast+

lemma snaps_currentI:
  assumes "\<And>c k snap todo. phases cl c = Claiming k snap todo \<Longrightarrow>
      wf_db snap \<and> set todo \<subseteq> set (needed k snap)"
    and "\<And>c k snap todo r. phases cl c = Claiming k snap todo \<Longrightarrow>
      r \<in> set (locked_queues (cc_names k) snap) \<Longrightarrow>
      queue_holder cl (q_name r) = Some c \<and> r \<in> set (queues (base cl)) \<and>
      leased_count (q_name r) (jobs (tx_view c cl)) \<le> leased_count (q_name r) (jobs snap)"
  shows "snaps_current cl"
  using assms unfolding snaps_current_def by blast

lemma leases_fitD:
  assumes "leases_fit cl" and "phases cl c = Leasing k U" and "0 < claimed_in U q (base cl)"
  shows "queue_holder cl q = Some c"
    and "\<exists>r \<in> set (queues (base cl)). q_name r = q \<and>
      int (leased_count q (jobs (tx_view c cl)) + claimed_in U q (base cl)) \<le> q_concurrency_limit r"
  using assms unfolding leases_fit_def by blast+

text \<open>A commit takes no queue another claimer holds further than that claimer saw it.\<close>

lemma commit_leaves_held_queues:
  assumes ok: "cluster_ok cl" and "leases_fit cl" and ph: "phases cl c = Leasing k U"
    and ins: "insert_attempt_rows (tx_lapsed cl c) (tx_view c cl) = Inr d"
    and "queue_holder cl q = Some c'" and "c' \<noteq> c"
  defines "cl' \<equiv> release c (cl\<lparr>base := lease_rows (tx_now cl c) k U d\<rparr>)"
  shows "leased_count q (jobs (tx_view c' cl')) \<le> leased_count q (jobs (tx_view c' cl))"
proof -
  have "claimed_in U q (base cl) = 0"
    using leases_fitD(1) [OF assms(2) ph, of q] assms(5,6) by fastforce
  then have "leased_count q (jobs (base cl')) \<le> leased_count q (jobs (base cl))"
    using leased_count_commit [OF ok ph ins, of q "tx_now cl c"] leased_count_tx_view [OF ok, of q c]
    by (simp add: cl'_def)
  moreover have "cluster_ok cl'"
    unfolding cl'_def using c_commit [OF ph ins] ok by (rule cluster_ok_step)
  moreover have "claimed_in (tx_recovered cl' c') q (base cl') = claimed_in (tx_recovered cl c') q (base cl)"
    using assms(6) by (simp add: cl'_def claimed_in_same_jobs [OF insert_attempt_rows_frame(1) [OF ins]])
  ultimately show ?thesis
    using leased_count_tx_view [of cl' q c'] leased_count_tx_view [OF ok, of q c'] by linarith
qed

text \<open>The other transactions give up leases at most.\<close>

lemma other_leaves_held_queues:
  assumes ok: "cluster_ok cl" and st: "other_step (base cl) d" "respects_locks cl d"
  shows "leased_count q (jobs (tx_view c (cl\<lparr>base := d\<rparr>))) \<le> leased_count q (jobs (tx_view c cl))"
proof -
  have wf: "wf_db (base cl)" "wf_db d" using ok st(1) by (simp_all add: other_step_wf cluster_ok_def)
  have "cluster_ok (cl\<lparr>base := d\<rparr>)"
    using c_other [OF st] ok by (rule cluster_ok_step)
  from leased_count_tx_view [OF this, of q c] leased_count_tx_view [OF ok, of q c]
  have "leased_count q (jobs (tx_view c (cl\<lparr>base := d\<rparr>))) + claimed_in (tx_recovered cl c) q d = leased_count q (jobs d)"
    "leased_count q (jobs (tx_view c cl)) + claimed_in (tx_recovered cl c) q (base cl) = leased_count q (jobs (base cl))"
    by simp_all
  moreover have "claimed_in (tx_recovered cl c) q d = claimed_in (tx_recovered cl c) q (base cl)"
    by (rule claimed_in_other [OF wf st(2)]) (rule recovered_held [OF ok])
  moreover have "leased_count q (jobs d) \<le> leased_count q (jobs (base cl))"
    using other_step_leases [OF st(1) wf(1)] by (simp add: no_new_leases_def)
  ultimately show ?thesis by linarith
qed

lemma snaps_current_step:
  assumes "cluster_step True cl cl'" and "cluster_ok cl" and "snaps_current cl" and "leases_fit cl"
  shows "snaps_current cl'"
  using assms
proof (induction rule: cluster_step.induct)
  case (c_lock cl c k q qs)
  then show ?case
    by (intro snaps_currentI) (auto simp: free_for_def dest: snaps_currentD split: if_splits)
next
  case (c_start cl c k)
  have new: "queue_holder cl (q_name r) = Some c" "r \<in> set (queues (base cl))"
    if "r \<in> set (locked_queues (cc_names k) (tx_view c cl))" for r
    using c_start.hyps(2) that by (auto simp: needed_def locked_queues_set)
  from c_start.prems(1) have "wf_db (tx_view c cl)" by (simp add: cluster_ok_def wf_tx_view)
  with new c_start.prems(2) show ?case
    by (intro snaps_currentI) (auto dest: snaps_currentD split: if_splits)
next
  case (c_queue cl c k snap q qs)
  then have same: "refresh q (base cl) snap = snap"
    by (intro refresh_current) (simp_all add: cluster_ok_def)
  note cur = snaps_currentD [OF c_queue.prems(2) c_queue.hyps(1)]
  show ?case
    using c_queue.hyps(2) c_queue.prems(2) cur unfolding same
    by (intro snaps_currentI) (auto simp: free_for_def dest: snaps_currentD split: if_splits)
next
  case (c_recover cl c busy n t new_ids rows d as)
  then show ?case
    by (intro snaps_currentI) (auto dest: snaps_currentD split: if_splits)
next
  case (c_commit cl c k U d)
  note le = commit_leaves_held_queues [OF c_commit.prems(1,3) c_commit.hyps]
  have q: "queues d = queues (base cl)"
    by (simp add: insert_attempt_rows_frame(2) [OF c_commit.hyps(2)])
  show ?case
    using c_commit.prems(2) le
    by (intro snaps_currentI) (auto simp: q dest: snaps_currentD intro: order_trans split: if_splits)
next
  case (c_abort cl c)
  then show ?case
    by (intro snaps_currentI) (auto simp: tx_view_release dest: snaps_currentD split: if_splits)
next
  case (c_other cl d)
  note le = other_leaves_held_queues [OF c_other.prems(1) c_other.hyps]
  show ?case
    using c_other.hyps(2) c_other.prems(2) le
    by (intro snaps_currentI)
      (auto simp: respects_locks_def dest: snaps_currentD intro: order_trans)
qed (fastforce simp: snaps_current_def)+

lemma leases_fitI:
  assumes "\<And>c k U q. phases cl c = Leasing k U \<Longrightarrow> 0 < claimed_in U q (base cl) \<Longrightarrow>
      queue_holder cl q = Some c \<and>
      (\<exists>r \<in> set (queues (base cl)). q_name r = q \<and>
         int (leased_count q (jobs (tx_view c cl)) + claimed_in U q (base cl)) \<le> q_concurrency_limit r)"
  shows "leases_fit cl"
  using assms unfolding leases_fit_def by blast

lemma leases_fit_step:
  assumes "cluster_step True cl cl'" and "cluster_ok cl" and "snaps_current cl" and "leases_fit cl"
  shows "leases_fit cl'"
  using assms
proof (induction rule: cluster_step.induct)
  case (c_claim cl c k snap U busy)
  note fit = picked_fit [OF c_claim.prems(1,2) c_claim.hyps(1), of busy, folded c_claim.hyps(2)]
  show ?case
    using c_claim.prems(3) fit
    by (intro leases_fitI) (auto dest: leases_fitD simp del: of_nat_add split: if_splits)
next
  case (c_commit cl c k U d)
  let ?cl = "release c (cl\<lparr>base := lease_rows (tx_now cl c) k U d\<rparr>)"
  have q: "queues d = queues (base cl)"
    by (simp add: insert_attempt_rows_frame(2) [OF c_commit.hyps(2)])
  have same: "claimed_in V q d = claimed_in V q (base cl)" for V q
    by (simp add: claimed_in_same_jobs [OF insert_attempt_rows_frame(1) [OF c_commit.hyps(2)]])
  have "queue_holder cl q = Some c' \<and> (\<exists>r \<in> set (queues (base cl)). q_name r = q \<and>
      int (leased_count q (jobs (tx_view c' ?cl)) + claimed_in U' q (base cl)) \<le> q_concurrency_limit r)"
    if own: "phases cl c' = Leasing k' U'" "0 < claimed_in U' q (base cl)" and "c' \<noteq> c" for c' k' U' q
  proof -
    note fit = leases_fitD [OF c_commit.prems(3) own]
    from commit_leaves_held_queues [OF c_commit.prems(1,3) c_commit.hyps fit(1) \<open>c' \<noteq> c\<close>] fit show ?thesis
      by force
  qed
  then show ?case
    by (intro leases_fitI) (auto simp: q same split: if_splits)
next
  case (c_recover cl c busy n t new_ids rows d as)
  then show ?case
    by (intro leases_fitI) (auto dest: leases_fitD simp del: of_nat_add split: if_splits)
next
  case (c_abort cl c)
  then show ?case
    by (intro leases_fitI) (auto simp: tx_view_release dest: leases_fitD simp del: of_nat_add split: if_splits)
next
  case (c_full cl c k)
  then show ?case
    by (intro leases_fitI) (auto dest: leases_fitD simp del: of_nat_add split: if_splits)
next
  case (c_other cl d)
  then have wf: "wf_db (base cl)" "wf_db d" by (simp_all add: other_step_wf cluster_ok_def)
  have "queue_holder cl q = Some c \<and> (\<exists>r \<in> set (queues d). q_name r = q \<and>
      int (leased_count q (jobs (tx_view c (cl\<lparr>base := d\<rparr>))) + claimed_in U q d) \<le> q_concurrency_limit r)"
    if own: "phases cl c = Leasing k U" and pos: "0 < claimed_in U q d" for c k U q
  proof -
    have m: "claimed_in U q d = claimed_in U q (base cl)"
      by (rule claimed_in_other [OF wf c_other.hyps(2)]) (rule leased_held [OF c_other.prems(1) own])
    with pos have "0 < claimed_in U q (base cl)" by simp
    from leases_fitD [OF c_other.prems(3) own this] obtain r where
      r: "queue_holder cl q = Some c" "r \<in> set (queues (base cl))" "q_name r = q"
        "int (leased_count q (jobs (tx_view c cl)) + claimed_in U q (base cl)) \<le> q_concurrency_limit r" by blast
    moreover from r(1-3) c_other.hyps(2) have "r \<in> set (queues d)" by (auto simp: respects_locks_def)
    moreover from r(4) m other_leaves_held_queues [OF c_other.prems(1) c_other.hyps, of q c]
    have "int (leased_count q (jobs (tx_view c (cl\<lparr>base := d\<rparr>))) + claimed_in U q d) \<le> q_concurrency_limit r"
      by linarith
    ultimately show ?thesis by blast
  qed
  then show ?case by (intro leases_fitI) simp
qed (fastforce simp: leases_fit_def free_for_def)+

lemma strict_run_invariants:
  assumes "cluster_run True cl"
  shows "snaps_current cl \<and> leases_fit cl"
  using assms
proof (induction rule: cluster_run.induct)
  case (cluster_start d)
  then show ?case by (simp add: snaps_current_def leases_fit_def)
next
  case (cluster_more cl cl')
  then show ?case
    using cluster_run_ok snaps_current_step leases_fit_step by blast
qed

text \<open>A step takes no queue further above its limit.\<close>

lemma strict_step_limit:
  assumes run: "cluster_run True cl" and st: "cluster_step True cl cl'" and r: "r \<in> set (queues (base cl'))"
  shows "int (leased_count (q_name r) (jobs (base cl'))) \<le>
    max (q_concurrency_limit r) (int (leased_count (q_name r) (jobs (base cl))))"
proof -
  from run have ok: "cluster_ok cl" and fit: "leases_fit cl"
    by (simp_all add: cluster_run_ok strict_run_invariants)
  from st ok fit r show ?thesis
  proof (induction rule: cluster_step.induct)
    case (c_commit cl c k U d)
    note lc = leased_count_commit [OF c_commit.prems(1) c_commit.hyps, of "q_name r" "tx_now cl c"]
    have q: "queues d = queues (base cl)"
      by (simp add: insert_attempt_rows_frame(2) [OF c_commit.hyps(2)])
    show ?case
    proof (cases "claimed_in U (q_name r) (base cl) = 0")
      case True
      with lc leased_count_tx_view [OF c_commit.prems(1), of "q_name r" c] show ?thesis by simp
    next
      case False
      with leases_fitD(2) [OF c_commit.prems(2) c_commit.hyps(1), of "q_name r"] obtain r' where
        r': "r' \<in> set (queues (base cl))" "q_name r' = q_name r"
          "int (leased_count (q_name r) (jobs (tx_view c cl)) + claimed_in U (q_name r) (base cl))
            \<le> q_concurrency_limit r'"
        by auto
      from c_commit.prems(1) have "wf_db (base cl)" by (simp add: cluster_ok_def)
      with r'(1,2) c_commit.prems(3) have "r' = r"
        using key_inj [OF wf_db_distinct_queues] by (simp add: q)
      with r'(3) show ?thesis by (simp add: lc)
    qed
  next
    case (c_other cl d)
    then have "no_new_leases (base cl) d" by (simp add: other_step_leases cluster_ok_def)
    then show ?case by (simp add: no_new_leases_def le_max_iff_disj)
  qed simp_all
qed

section \<open>Two claimers never lease one job\<close>

lemma leasing_disjoint:
  assumes "cluster_run strict cl" and "phases cl c = Leasing k U" and "phases cl c' = Leasing k' U'" and "c \<noteq> c'"
  shows "U \<inter> U' = {}"
proof -
  note h = rows_pendingD(1) [OF cluster_okD(3) [OF cluster_run_ok [OF assms(1)]]]
  from h [OF assms(2)] h [OF assms(3)] assms(4) show ?thesis by fastforce
qed

lemma leasing_not_recovered:
  assumes "cluster_run strict cl" and "phases cl c = Leasing k U" and "c \<noteq> c'"
  shows "U \<inter> tx_recovered cl c' = {}"
proof -
  note ok = cluster_run_ok [OF assms(1)]
  from rows_pendingD(1) [OF cluster_okD(3) [OF ok] assms(2)] rows_lapsedD(1) [OF cluster_okD(2) [OF ok], of _ c'] assms(3)
  show ?thesis by fastforce
qed

section \<open>No deadlock\<close>

text \<open>In its first statement a claimer locks queues in increasing order of their names.\<close>

definition locks_ordered :: "cluster \<Rightarrow> bool" where
  "locks_ordered cl \<longleftrightarrow>
     (\<forall>q c. queue_holder cl q = Some c \<longrightarrow> phases cl c \<notin> {Idle, Recovered}) \<and>
     (\<forall>c k todo. phases cl c = Locking k todo \<longrightarrow> sorted_wrt (<) todo \<and>
        (\<forall>q r. queue_holder cl q = Some c \<longrightarrow> r \<in> set todo \<longrightarrow> q < r))"

lemma sorted_needed: "wf_db d \<Longrightarrow> sorted_wrt (<) (needed k d)"
  using distinct_locked_queues [of d "cc_names k"]
  by (simp add: needed_def strict_sorted_iff locked_queues_def)

lemma locks_ordered_step:
  assumes "cluster_step True cl cl'" and "cluster_ok cl" and "snaps_current cl" and "locks_ordered cl"
  shows "locks_ordered cl'"
  using assms
proof (induction rule: cluster_step.induct)
  case (c_begin cl c k)
  then have "sorted_wrt (<) (needed k (base cl))" by (simp add: sorted_needed cluster_ok_def)
  with c_begin show ?case unfolding locks_ordered_def by (auto split: if_splits)
next
  case (c_lock cl c k q qs)
  then show ?case unfolding locks_ordered_def free_for_def by (fastforce split: if_splits)
next
  case (c_queue cl c k snap q qs)
  then show ?case unfolding locks_ordered_def free_for_def by (fastforce split: if_splits)
qed (auto simp: locks_ordered_def split: if_splits)

lemma strict_run_ordered:
  assumes "cluster_run True cl"
  shows "locks_ordered cl"
  using assms
proof (induction rule: cluster_run.induct)
  case (cluster_start d)
  then show ?case by (simp add: locks_ordered_def)
next
  case (cluster_more cl cl')
  then show ?case using cluster_run_ok strict_run_invariants locks_ordered_step by blast
qed

text \<open>Only claimers in their first statement wait, and along a chain of them the awaited names grow.\<close>

lemma waits_forD:
  assumes "cluster_run True cl" and "waits_for cl c c'"
  obtains k q qs where "phases cl c = Locking k (q # qs)" "queue_holder cl q = Some c'"
proof -
  from assms(2) obtain q where q: "c' \<noteq> c" "next_queue (phases cl c) = Some q" "queue_holder cl q = Some c'"
    by (auto simp: waits_for_def)
  have "\<exists>k qs. phases cl c = Locking k (q # qs)"
  proof (cases "phases cl c" rule: next_queue.cases)
    case (2 k snap q' qs)
    with q strict_run_invariants [OF assms(1)] snaps_currentD(2,3) [of cl c k snap "q' # qs"] have False
      by (auto simp: needed_def)
    then show ?thesis ..
  qed (use q(2) in auto)
  with q(3) that show ?thesis by blast
qed

lemma waiting_names_grow:
  assumes run: "cluster_run True cl" and "(waits_for cl)\<^sup>+\<^sup>+ c c'" and "waits_for cl c' c''"
  shows "the (next_queue (phases cl c)) < the (next_queue (phases cl c'))"
  using assms(2,3)
proof (induction arbitrary: c'' rule: tranclp_induct)
  case (base y)
  from waits_forD [OF run base(1)] obtain k q qs where
    1: "phases cl c = Locking k (q # qs)" "queue_holder cl q = Some y" .
  from waits_forD [OF run base(2)] obtain l r rs where 2: "phases cl y = Locking l (r # rs)" .
  from strict_run_ordered [OF run] 1 2 show ?case by (auto simp: locks_ordered_def)
next
  case (step y z)
  from waits_forD [OF run step.hyps(2)] obtain k q qs where
    1: "phases cl y = Locking k (q # qs)" "queue_holder cl q = Some z" .
  from waits_forD [OF run step.prems] obtain l r rs where 2: "phases cl z = Locking l (r # rs)" .
  from strict_run_ordered [OF run] 1 2 have "q < r" by (auto simp: locks_ordered_def)
  with step.IH [OF step.hyps(2)] 1 2 show ?case by simp
qed

lemma no_waiting_cycle:
  assumes "cluster_run True cl"
  shows "\<not> (waits_for cl)\<^sup>+\<^sup>+ c c"
proof
  assume cyc: "(waits_for cl)\<^sup>+\<^sup>+ c c"
  then obtain c'' where "waits_for cl c c''" by (meson tranclpD)
  from waiting_names_grow [OF assms cyc this] show False by simp
qed

end
