(* ===== verification/Lone_Claim.thy ===== *)
theory Lone_Claim imports Concurrent_Claims Runner begin

text \<open>
  The steps of a recovery and a claim, with nobody in their way, are the transaction of the claim loop
  (\<open>claim_transaction\<close>): the concurrent model contains the sequential one.
\<close>

section \<open>A claim that runs alone\<close>

text \<open>
  A claimer whose queues are free goes through both statements without waiting; with nobody else
  around, its steps are the transaction of the claim loop.
\<close>

definition acquire_all :: "nat \<Rightarrow> string set \<Rightarrow> cluster \<Rightarrow> cluster" where
  "acquire_all c Q cl = cl\<lparr>queue_holder := (\<lambda>q. if q \<in> Q then Some c else queue_holder cl q)\<rparr>"

lemma acquire_all_simps [simp]:
  "base (acquire_all c Q cl) = base cl" "row_holder (acquire_all c Q cl) = row_holder cl"
  "phases (acquire_all c Q cl) = phases cl"
  "queue_holder (acquire_all c Q cl) q = (if q \<in> Q then Some c else queue_holder cl q)"
  "acquire_all c {} cl = cl" "tx_now (acquire_all c Q cl) = tx_now cl"
  "tx_recovered (acquire_all c Q cl) = tx_recovered cl" "tx_lapsed (acquire_all c Q cl) = tx_lapsed cl"
  "tx_view c' (acquire_all c Q cl) = tx_view c' cl"
  by (simp_all add: acquire_all_def tx_view_def)

lemma enter_enter [simp]: "enter c p (enter c p' cl) = enter c p cl"
  by (simp add: enter_def)

lemma enter_acquire: "enter c p (acquire c q (enter c p' cl)) = enter c p (acquire_all c {q} cl)"
  by (simp add: enter_def acquire_def acquire_all_def fun_eq_iff)

lemma acquire_all_enter: "acquire_all c Q (enter c p cl) = enter c p (acquire_all c Q cl)"
  by (auto simp: enter_def acquire_all_def fun_eq_iff intro!: cluster.equality)

lemma acquire_all_twice: "acquire_all c Q (acquire_all c R cl) = acquire_all c (Q \<union> R) cl"
  by (simp add: acquire_all_def fun_eq_iff)

abbreviation cluster_steps :: "bool \<Rightarrow> cluster \<Rightarrow> cluster \<Rightarrow> bool" where
  "cluster_steps strict \<equiv> (cluster_step strict)\<^sup>*\<^sup>*"

lemma cluster_steps_run: "cluster_steps strict cl cl' \<Longrightarrow> cluster_run strict cl \<Longrightarrow> cluster_run strict cl'"
  by (induction rule: rtranclp_induct) (auto intro: cluster_more)

lemma lock_all:
  assumes "\<And>q. q \<in> set qs \<Longrightarrow> free_for c q cl"
  shows "cluster_steps strict (enter c (Locking k qs) cl) (enter c (Locking k []) (acquire_all c (set qs) cl))"
  using assms
proof (induction qs arbitrary: cl)
  case (Cons q qs)
  have "cluster_step strict (enter c (Locking k (q # qs)) cl) (enter c (Locking k qs) (acquire_all c {q} cl))"
    using c_lock [of "enter c (Locking k (q # qs)) cl" c k q qs strict] Cons.prems
    by (simp add: enter_acquire free_for_def)
  moreover have "cluster_steps strict (enter c (Locking k qs) (acquire_all c {q} cl))
      (enter c (Locking k []) (acquire_all c (set qs) (acquire_all c {q} cl)))"
    using Cons.prems by (intro Cons.IH) (auto simp: free_for_def)
  ultimately show ?case
    by (simp add: acquire_all_twice converse_rtranclp_into_rtranclp)
qed simp

lemma refresh_same:
  assumes "wf_db d" and "queues snap = queues d"
  shows "refresh q d snap = snap"
proof -
  have "the_default r (find (\<lambda>r'. q_name r' = q) (queues d)) = r" if "r \<in> set (queues d)" "q_name r = q" for r
    using find_key_mem [OF wf_db_distinct_queues [OF assms(1)] that(1)] that(2) by simp
  then have "map (\<lambda>r. if q_name r = q then the_default r (find (\<lambda>r'. q_name r' = q) (queues d)) else r)
      (queues snap) = queues snap"
    unfolding assms(2) by (intro map_idI) simp
  then show ?thesis by (simp add: refresh_def)
qed

lemma lock_all_again:
  assumes "wf_db (base cl)" and snap: "queues snap = queues (base cl)"
    and "\<And>q. q \<in> set qs \<Longrightarrow> queue_holder cl q = Some c"
  shows "cluster_steps strict (enter c (Claiming k snap qs) cl) (enter c (Claiming k snap []) cl)"
  using assms(3)
proof (induction qs)
  case (Cons q qs)
  have same: "enter c p (acquire c q (enter c p' cl)) = enter c p cl" for p p'
    using Cons.prems by (simp add: enter_acquire) (auto simp: acquire_all_def enter_def intro!: cluster.equality)
  have "cluster_step strict (enter c (Claiming k snap (q # qs)) cl) (enter c (Claiming k snap qs) cl)"
    using c_queue [of "enter c (Claiming k snap (q # qs)) cl" c k snap q qs strict] Cons.prems
    by (simp add: same free_for_def refresh_same [OF assms(1) snap])
  moreover have "cluster_steps strict (enter c (Claiming k snap qs) cl) (enter c (Claiming k snap []) cl)"
    using Cons.prems by (intro Cons.IH) simp
  ultimately show ?case by (rule converse_rtranclp_into_rtranclp)
qed simp

text \<open>The cluster once claimer \<open>c\<close> has leased its rows, and not yet committed.\<close>

definition claimed :: "(uuid \<Rightarrow> bool) \<Rightarrow> nat \<Rightarrow> claim_call \<Rightarrow> cluster \<Rightarrow> cluster" where
  "claimed busy c k cl =
     (let cl1 = acquire_all c (set (needed k (base cl))) cl; U = picked_ids busy cl1 c k (tx_view c cl)
      in enter c (Leasing k U) (hold_rows c U cl1))"

lemma skipped_enter [simp]: "skipped busy (enter c' p cl) c snap = skipped busy cl c snap"
  by (rule ext) (simp add: skipped_def)

lemma picked_ids_enter [simp]: "picked_ids busy (enter c' p cl) c k snap = picked_ids busy cl c k snap"
  by (simp add: picked_ids_def)

lemma hold_rows_enter: "enter c p (hold_rows c U (enter c p' cl)) = enter c p (hold_rows c U cl)"
  by (auto simp: enter_def hold_rows_def fun_eq_iff intro!: cluster.equality)

lemma claim_without_waiting:
  assumes "wf_db (base cl)" and "phases cl c = Recovered"
    and free: "\<And>q. q \<in> set (needed k (base cl)) \<Longrightarrow> free_for c q cl"
  shows "cluster_steps strict cl (claimed busy c k cl)"
proof -
  let ?qs = "needed k (base cl)" and ?cl1 = "acquire_all c (set (needed k (base cl))) cl"
  let ?snap = "tx_view c cl"
  have "cluster_step strict cl (enter c (Locking k ?qs) cl)"
    using assms(2) by (rule c_begin)
  also have "cluster_steps strict \<dots> (enter c (Locking k []) ?cl1)"
    using free by (rule lock_all)
  also have "cluster_step strict \<dots> (enter c (Locked k) ?cl1)"
    using c_locked [of "enter c (Locking k []) ?cl1" c k strict] by simp
  also have "cluster_step strict \<dots> (enter c (Claiming k ?snap ?qs) ?cl1)"
    using c_start [of "enter c (Locked k) ?cl1" c k strict] by simp
  also have "cluster_steps strict \<dots> (enter c (Claiming k ?snap []) ?cl1)"
    using lock_all_again [of ?cl1 ?snap ?qs c strict k] assms(1) by simp
  also have "cluster_step strict \<dots> (claimed busy c k cl)"
    using c_claim [of "enter c (Claiming k ?snap []) ?cl1" c k ?snap
        "picked_ids busy ?cl1 c k ?snap" busy strict]
    by (simp add: claimed_def Let_def hold_rows_enter)
  finally show ?thesis .
qed

text \<open>The cluster once claimer \<open>c\<close> has recovered the rows \<open>I\<close>.\<close>

definition recovered :: "nat \<Rightarrow> time \<Rightarrow> uuid set \<Rightarrow> attempt_row list \<Rightarrow> cluster \<Rightarrow> cluster" where
  "recovered c t I as cl = enter c Recovered (hold_rows c I (keep_recovery c t I as cl))"

lemma recovered_simps [simp]:
  "base (recovered c t I as cl) = base cl" "phases (recovered c t I as cl) c = Recovered"
  "queue_holder (recovered c t I as cl) = queue_holder cl" "tx_now (recovered c t I as cl) c = t"
  "tx_recovered (recovered c t I as cl) c = I" "tx_lapsed (recovered c t I as cl) c = as"
  "row_holder (recovered c t I as cl) i = (if i \<in> I then Some c else row_holder cl i)"
  by (simp_all add: recovered_def)

lemma tx_view_recovered:
  "tx_view c (recovered c t I as cl) =
     (base cl)\<lparr>jobs := upd_where (\<lambda>j. j_id j \<in> I) (recover_job t) (jobs (base cl))\<rparr>"
  by (simp add: recovered_def tx_view_def)

lemma recover_statement:
  assumes "RECOVER_EXPIRED_LEASES_SQL locked n t new_ids d = Inr (rows, d')"
  obtains as where "attempts d' = attempts d @ as"
    and "insert_attempt_rows as (d\<lparr>jobs := upd_where (\<lambda>j. j_id j \<in> set rows) (recover_job t) (jobs d)\<rparr>) = Inr d'"
proof -
  let ?P = "expired_jobs locked n t d"
  let ?as = "map (\<lambda>(n, j). expired_attempt t (new_ids n) j) (enumerate 0 ?P)"
  let ?d = "d\<lparr>jobs := upd_where (\<lambda>j. j_id j \<in> j_id ` set ?P) (recover_job t) (jobs d)\<rparr>"
  from assms have rows: "rows = map j_id ?P" and ins: "insert_attempt_rows ?as ?d = Inr d'"
    by (auto simp: RECOVER_EXPIRED_LEASES_SQL_def Let_def map_sum_def split: sum.splits)
  from that [of ?as] insert_attempt_rows_Inr [OF ins] ins rows show ?thesis by simp
qed

text \<open>A recovery that finds nothing.\<close>

lemma recover_nothing:
  assumes "phases cl c = Idle"
  shows "cluster_step strict cl (recovered c t {} [] cl)"
proof -
  have st: "RECOVER_EXPIRED_LEASES_SQL locked 0 t new_ids d = Inr ([], d)" for locked new_ids d
    by (simp add: RECOVER_EXPIRED_LEASES_SQL_def expired_jobs_def upd_where_none)
  from c_recover [OF assms st, of "[]"] show ?thesis
    by (simp add: recovered_def)
qed

lemma picked_jobs_cong:
  assumes "\<And>j. j \<in> set (jobs d) \<Longrightarrow> claimable t (j_queue_name j) j \<Longrightarrow> busy (j_id j) = busy' (j_id j)"
  shows "picked_jobs busy names n t d = picked_jobs busy' names n t d"
proof -
  have "queue_candidates busy t d q = queue_candidates busy' t d q" for q
    unfolding queue_candidates_def
    by (intro arg_cong [where f = "take (slots d q)"] filter_cong refl) (auto simp: assms claimable_def)
  then have "queue_candidates busy t d = queue_candidates busy' t d" by (rule ext)
  then show ?thesis by (simp add: picked_jobs_def)
qed

lemma picked_jobs_same:
  assumes "jobs d' = jobs d" and "queues d' = queues d"
  shows "picked_jobs busy names n t d' = picked_jobs busy names n t d"
proof -
  have "queue_candidates busy t d' = queue_candidates busy t d"
    by (rule ext) (simp add: queue_candidates_def slots_def assms)
  then show ?thesis by (simp add: picked_jobs_def locked_queues_def assms)
qed

lemma claim_jobs_result:
  assumes "wf_db (working s)" and "claim_jobs w names n ls s = (Inr rows, s')"
    and "k = \<lparr>cc_worker = w, cc_names = names, cc_batch = n, cc_lease = ls\<rparr>"
  shows "working s' =
    lease_rows (now s) k (j_id ` set (picked_jobs (locked_rows s) names n (now s) (working s))) (working s)"
proof -
  let ?P = "picked_jobs (locked_rows s) names n (now s) (working s)"
  from assms(2) obtain i d where
    st: "claim_jobs_statement (locked_rows s) w names n ls (now s) i (working s) = Inr (rows, d)" and "working s' = d"
    by (auto simp: claim_jobs_def bind_tx_Inr_iff execute_Inr_iff execute_skip_locked_Inr_iff
        lock_claim_queues_statement_def query_def)
  moreover have "upd_where (\<lambda>j. j_id j \<in> j_id ` set ?P) f (jobs (working s)) =
      upd_where (\<lambda>j. j \<in> set ?P) f (jobs (working s))" for f
    using picked_id_claimable [OF assms(1)] by (intro upd_where_cong) auto
  ultimately show ?thesis
    using claim_jobs_statement_Inr(1) [OF assms(1) st] by (simp add: lease_rows_def assms(3))
qed

text \<open>The transaction of the claim loop: what its two parts do to the database.\<close>

lemma claim_transaction_parts:
  assumes "wf_db d" and "transact e (claim_transaction JobRepository s w inflight) d = (Inr rows, d')"
  defines "k \<equiv> \<lparr>cc_worker = w, cc_names = get_queue_names s, cc_batch = claim_batch_size s inflight,
      cc_lease = worker_lease_seconds s\<rparr>"
  obtains gone d1 where
    "RECOVER_EXPIRED_LEASES_SQL (e_locked e) (nat (worker_batch_size s)) (e_now e) (e_ids e 0) d = Inr (gone, d1)"
    and "wf_db d1"
    and "d' = (if 0 < claim_batch_size s inflight
       then lease_rows (e_now e) k
         (j_id ` set (picked_jobs (e_locked e) (cc_names k) (cc_batch k) (e_now e) d1)) d1 else d1)"
proof -
  from assms(2) obtain s' where run: "claim_transaction JobRepository s w inflight (open_session e d) = (Inr rows, s')"
    and d': "d' = working s'" by (rule transact_InrD)
  from run obtain n s1 where rec: "recover_expired_leases (nat (worker_batch_size s)) (open_session e d) = (Inr n, s1)"
    and cl: "(if 0 < claim_batch_size s inflight
      then claim_jobs w (get_queue_names s) (claim_batch_size s inflight) (worker_lease_seconds s)
      else return_tx []) s1 = (Inr rows, s')"
    by (auto simp: claim_transaction_def recover_def bind_tx_Inr_iff JobRepository_simps cong: if_cong)
  from rec obtain gone where st: "RECOVER_EXPIRED_LEASES_SQL (e_locked e) (nat (worker_batch_size s)) (e_now e)
      (e_ids e 0) d = Inr (gone, working s1)"
    and s1: "now s1 = e_now e" "locked_rows s1 = e_locked e"
    by (auto simp: recover_expired_leases_def bind_tx_Inr_iff execute_skip_locked_Inr_iff)
  have wf: "wf_db (working s1)" by (rule recover_sql_Inr(3) [OF assms(1) st])
  show thesis
  proof (rule that [OF st wf])
    show "d' = (if 0 < claim_batch_size s inflight
       then lease_rows (e_now e) k
         (j_id ` set (picked_jobs (e_locked e) (cc_names k) (cc_batch k) (e_now e) (working s1))) (working s1)
       else working s1)"
      using cl d' claim_jobs_result [OF wf, of w "get_queue_names s" "claim_batch_size s inflight"
          "worker_lease_seconds s" rows s' k] s1
      by (auto simp: k_def split: if_splits)
  qed
qed

lemma commit_alone:
  assumes "phases cl c = Leasing k U" and "insert_attempt_rows (tx_lapsed cl c) (tx_view c cl) = Inr d1"
    and alone: "\<And>c'. c' \<noteq> c \<Longrightarrow> phases cl c' = Idle" "\<And>q. queue_holder cl q \<in> {None, Some c}"
      "\<And>i. row_holder cl i \<in> {None, Some c}"
  obtains cl' where "cluster_step strict cl cl'" and "base cl' = lease_rows (tx_now cl c) k U d1"
    and "\<And>c'. phases cl' c' = Idle" and "\<And>q. queue_holder cl' q = None" and "\<And>i. row_holder cl' i = None"
proof -
  let ?cl = "release c (cl\<lparr>base := lease_rows (tx_now cl c) k U d1\<rparr>)"
  have "cluster_step strict cl ?cl" using assms(1,2) by (rule c_commit)
  then show thesis
  proof (rule that)
    show "phases ?cl c' = Idle" for c' using alone(1) by simp
    show "queue_holder ?cl q = None" for q using alone(2) [of q] by (auto simp: forget_def)
    show "row_holder ?cl i = None" for i using alone(3) [of i] by (auto simp: forget_def)
  qed simp
qed

text \<open>A worker alone: the steps from a quiet database to the next are its transaction.\<close>

lemma lone_claim:
  assumes wf: "wf_db d" and tx: "transact e (claim_transaction JobRepository s w inflight) d = (Inr rows, d')"
  obtains cl where "cluster_steps strict (quiet_cluster d) cl" and "base cl = d'"
    and "\<And>c. phases cl c = Idle" and "\<And>q. queue_holder cl q = None" and "\<And>i. row_holder cl i = None"
proof -
  define k where "k = \<lparr>cc_worker = w, cc_names = get_queue_names s, cc_batch = claim_batch_size s inflight,
      cc_lease = worker_lease_seconds s\<rparr>"
  from claim_transaction_parts [OF wf tx, folded k_def] obtain gone d1 where
    rec: "RECOVER_EXPIRED_LEASES_SQL (e_locked e) (nat (worker_batch_size s)) (e_now e) (e_ids e 0) d = Inr (gone, d1)"
    and wf1: "wf_db d1" and d': "d' = (if 0 < claim_batch_size s inflight
       then lease_rows (e_now e) k
         (j_id ` set (picked_jobs (e_locked e) (cc_names k) (cc_batch k) (e_now e) d1)) d1 else d1)" .
  from recover_statement [OF rec] obtain as where as: "attempts d1 = attempts d @ as"
    and ins: "insert_attempt_rows as (d\<lparr>jobs := upd_where (\<lambda>j. j_id j \<in> set gone) (recover_job (e_now e)) (jobs d)\<rparr>) = Inr d1" .
  let ?r = "recovered 0 (e_now e) (set gone) as (quiet_cluster d)"
  have view: "insert_attempt_rows as (tx_view 0 ?r) = Inr d1" using ins by (simp add: tx_view_recovered)
  have first: "cluster_step strict (quiet_cluster d) ?r"
    unfolding recovered_def
    by (rule c_recover [where busy = "e_locked e" and n = "nat (worker_batch_size s)" and new_ids = "e_ids e 0" and d = d1])
      (simp_all add: rec as)
  show thesis
  proof (cases "0 < claim_batch_size s inflight")
    case False
    let ?f = "enter 0 (Leasing k {}) ?r"
    have "cluster_step strict ?r ?f" by (rule c_full) simp
    with first have steps: "cluster_steps strict (quiet_cluster d) ?f" by simp
    obtain cl where cl: "cluster_step strict ?f cl" "base cl = lease_rows (tx_now ?f 0) k {} d1"
      "\<And>c'. phases cl c' = Idle" "\<And>q. queue_holder cl q = None" "\<And>i. row_holder cl i = None"
      by (rule commit_alone [of ?f 0 k "{}" d1 strict]) (use view in \<open>simp_all add: recovered_def\<close>)
    have "base cl = d'" using cl(2) d' False by (simp add: lease_rows_def upd_where_none)
    with that [of cl] steps cl show ?thesis by (metis rtranclp.rtrancl_into_rtrancl)
  next
    case True
    let ?c = "claimed (e_locked e) 0 k ?r" and ?cl1 = "acquire_all 0 (set (needed k d)) ?r"
    let ?U = "picked_ids (e_locked e) ?cl1 0 k (tx_view 0 ?r)"
    note same = insert_attempt_rows_frame [OF view]
    have "skipped (e_locked e) ?cl1 0 (tx_view 0 ?r) (j_id j) = e_locked e (j_id j)"
      if "j \<in> set (jobs (tx_view 0 ?r))" "claimable (e_now e) (j_queue_name j) j" for j
      using that by (auto simp: skipped_def)
    then have "?U = j_id ` set (picked_jobs (e_locked e) (cc_names k) (cc_batch k) (e_now e) (tx_view 0 ?r))"
      unfolding picked_ids_def
      by (subst picked_jobs_cong [where busy' = "e_locked e"]) simp_all
    also have "\<dots> = j_id ` set (picked_jobs (e_locked e) (cc_names k) (cc_batch k) (e_now e) d1)"
      by (simp only: picked_jobs_same [OF same])
    finally have U: "?U = \<dots>" .
    have ph: "phases ?c 0 = Leasing k ?U" "tx_now ?c 0 = e_now e" "tx_lapsed ?c 0 = as" "tx_view 0 ?c = tx_view 0 ?r"
      by (simp_all add: claimed_def Let_def)
    have alone: "phases ?c c' = Idle" if "c' \<noteq> 0" for c'
      using that by (simp add: claimed_def Let_def recovered_def)
    have held: "queue_holder ?c q \<in> {None, Some 0}" "row_holder ?c i \<in> {None, Some 0}" for q i
      by (simp_all add: claimed_def Let_def)
    have "cluster_steps strict ?r ?c"
      using wf by (intro claim_without_waiting) (simp_all add: free_for_def)
    with first have steps: "cluster_steps strict (quiet_cluster d) ?c" by simp
    obtain cl where cl: "cluster_step strict ?c cl" "base cl = lease_rows (tx_now ?c 0) k ?U d1"
      "\<And>c'. phases cl c' = Idle" "\<And>q. queue_holder cl q = None" "\<And>i. row_holder cl i = None"
      by (rule commit_alone [of ?c 0 k ?U d1 strict]) (use view ph alone held in simp_all)
    have "base cl = d'" using cl(2) d' True by (simp add: U ph(2))
    with that [of cl] steps cl show ?thesis by (metis rtranclp.rtrancl_into_rtrancl)
  qed
qed

end
