(* ===== verification/Claim_Life.thy ===== *)
theory Claim_Life imports Concurrent_Claims Attempt_Budget begin

text \<open>
  The arguments about single transactions hold for claims that interleave: every step of a cluster moves
  every job along its life, a commit by a recovery and a claim at most, and no job is recorded more often
  than it may be attempted.
\<close>

section \<open>The attempts of a recovery\<close>

definition lapsed_recorded :: "cluster \<Rightarrow> bool" where
  "lapsed_recorded cl \<longleftrightarrow>
     (\<forall>c i. recorded i (tx_lapsed cl c) = (if i \<in> tx_recovered cl c then 1 else 0))"

lemma recovery_attempts:
  assumes "wf_db d" and "RECOVER_EXPIRED_LEASES_SQL locked n t new_ids d = Inr (rows, d')"
    and "attempts d' = attempts d @ as"
  shows "recorded i as = (if i \<in> set rows then 1 else 0)"
proof -
  let ?P = "expired_jobs locked n t d"
  have "distinct (map j_id ?P)"
    using wf_db_distinct_ids [OF assms(1)]
    by (simp add: expired_jobs_def take_map [symmetric] distinct_take distinct_map_filter distinct_map_sort_key)
  moreover have "as = map (\<lambda>(m, j). expired_attempt t (new_ids m) j) (enumerate 0 ?P)"
    using assms(3) recover_sql_Inr(2) [OF assms(1,2)] by simp
  ultimately show ?thesis
    using recorded_expired [of ?P i t new_ids 0] recover_sql_Inr(1) [OF assms(1,2)] by simp
qed

lemma lapsed_recorded_step:
  assumes "cluster_step strict cl cl'" and "wf_db (base cl)" and "lapsed_recorded cl"
  shows "lapsed_recorded cl'"
  using assms
proof (induction rule: cluster_step.induct)
  case (c_recover cl c busy n t new_ids rows d as)
  then show ?case by (simp add: lapsed_recorded_def recovery_attempts)
qed (simp_all add: lapsed_recorded_def)

lemma cluster_run_lapsed: "cluster_run strict cl \<Longrightarrow> lapsed_recorded cl"
proof (induction rule: cluster_run.induct)
  case (cluster_start d)
  then show ?case by (simp add: lapsed_recorded_def)
next
  case (cluster_more cl cl')
  then show ?case
    using lapsed_recorded_step cluster_okD(1) [OF cluster_run_ok] by blast
qed

section \<open>A commit is a recovery and a claim\<close>

lemma recovered_row_expired:
  assumes "cluster_ok cl" and "j \<in> set (jobs (base cl))" and "j_id j \<in> tx_recovered cl c"
  shows "lease_is_expired (tx_now cl c) j"
  using rows_lapsedD(2) [OF cluster_okD(2) [OF assms(1)] assms(3)] assms(2)
    key_inj [OF wf_db_distinct_ids [OF cluster_okD(1) [OF assms(1)]]] by metis

lemma leased_row_pending:
  assumes "cluster_ok cl" and "phases cl c = Leasing k U" and "j \<in> set (jobs (tx_view c cl))" and "j_id j \<in> U"
  shows "j_status j = Pending \<and> j_attempt_count j < j_max_attempts j"
  using rows_pendingD(2) [OF cluster_okD(3) [OF assms(1)] assms(2,4)] assms(3)
    key_inj [OF wf_db_distinct_ids [OF wf_tx_view [OF cluster_okD(1,2) [OF assms(1)]]]] by metis

lemma commit_evolves:
  assumes ok: "cluster_ok cl" and ph: "phases cl c = Leasing k U"
    and ins: "insert_attempt_rows as (tx_view c cl) = Inr d"
  shows "evolves (base cl) d" and "evolves d (lease_rows t k U d)"
proof -
  show "evolves (base cl) d"
  proof (rule evolves_upd_where)
    show "jobs d = upd_where (\<lambda>j. j_id j \<in> tx_recovered cl c) (recover_job (tx_now cl c)) (jobs (base cl))"
      using insert_attempt_rows_frame(1) [OF ins] by (simp add: jobs_tx_view)
    fix j assume "j \<in> set (jobs (base cl))" "j_id j \<in> tx_recovered cl c"
    from recovered_row_expired [OF ok this]
    show "life_moves (life_of (Some j)) (life_of (Some (recover_job (tx_now cl c) j)))"
      by (auto simp: recover_job_def Let_def lease_is_expired_def intro!: life_moves_step life_step.requeued life_step.buried)
  qed simp
  show "evolves d (lease_rows t k U d)"
  proof (rule evolves_upd_where)
    show "jobs (lease_rows t k U d) = upd_where (\<lambda>j. j_id j \<in> U) (lease_job t (cc_worker k) (cc_lease k)) (jobs d)"
      by (rule jobs_lease_rows)
    fix j assume "j \<in> set (jobs d)" "j_id j \<in> U"
    with leased_row_pending [OF ok ph] insert_attempt_rows_frame(1) [OF ins]
    show "life_moves (life_of (Some j)) (life_of (Some (lease_job t (cc_worker k) (cc_lease k) j)))"
      by (auto intro!: life_moves_step life_step.claimed)
  qed simp
qed

lemma cluster_step_evolves:
  assumes "cluster_step strict cl cl'" and "cluster_ok cl"
  shows "\<exists>d. evolves (base cl) d \<and> evolves d (base cl')"
  using assms
proof (induction rule: cluster_step.induct)
  case (c_commit cl c k U d)
  with commit_evolves [OF c_commit.prems c_commit.hyps] show ?case by auto
next
  case (c_other cl d)
  then have "evolves (base cl) d"
    using repo_step_evolves [OF other_step_repo] by (simp add: cluster_ok_def)
  then show ?case by (intro exI [of _ d]) simp
qed (auto intro: evolves_refl)

section \<open>The budget\<close>

lemma commit_budget:
  assumes ok: "cluster_ok cl" and lapsed: "lapsed_recorded cl" and budget: "within_budget (base cl)"
    and ph: "phases cl c = Leasing k U" and ins: "insert_attempt_rows (tx_lapsed cl c) (tx_view c cl) = Inr d"
  shows "within_budget (lease_rows t k U d)"
proof -
  have "within_budget d"
  proof (rule within_budget_upd_where [OF budget])
    show "jobs d = upd_where (\<lambda>j. j_id j \<in> tx_recovered cl c) (recover_job (tx_now cl c)) (jobs (base cl))"
      using insert_attempt_rows_frame(1) [OF ins] by (simp add: jobs_tx_view)
    show "attempts d = attempts (base cl) @ tx_lapsed cl c"
      using insert_attempt_rows_Inr [OF ins] by simp
    show "j_id (recover_job (tx_now cl c) j) = j_id j \<and>
        spent j + int (recorded (j_id j) (tx_lapsed cl c)) \<le> spent (recover_job (tx_now cl c) j)"
      if "j \<in> set (jobs (base cl))" "j_id j \<in> tx_recovered cl c" for j
      using recovered_row_expired [OF ok that] lapsed that(2)
      by (auto simp: lapsed_recorded_def spent_def lease_is_expired_def)
    show "recorded (j_id j) (tx_lapsed cl c) = 0" if "j_id j \<notin> tx_recovered cl c" for j
      using lapsed that by (simp add: lapsed_recorded_def)
  qed
  then show ?thesis
  proof (rule within_budget_upd_where)
    show "jobs (lease_rows t k U d) = upd_where (\<lambda>j. j_id j \<in> U) (lease_job t (cc_worker k) (cc_lease k)) (jobs d)"
      by (rule jobs_lease_rows)
    show "attempts (lease_rows t k U d) = attempts d @ []"
      by (simp add: lease_rows_def)
    show "j_id (lease_job t (cc_worker k) (cc_lease k) j) = j_id j \<and>
        spent j + int (recorded (j_id j) []) \<le> spent (lease_job t (cc_worker k) (cc_lease k) j)"
      if "j \<in> set (jobs d)" "j_id j \<in> U" for j
      using leased_row_pending [OF ok ph, of j] that insert_attempt_rows_frame(1) [OF ins] by (simp add: spent_def)
  qed simp
qed

lemma cluster_run_budget: "cluster_run strict cl \<Longrightarrow> within_budget (base cl)"
proof (induction rule: cluster_run.induct)
  case (cluster_start d)
  then show ?case by (simp add: reachable_within_budget)
next
  case (cluster_more cl cl')
  note ok = cluster_run_ok [OF cluster_more.hyps(1)] and lapsed = cluster_run_lapsed [OF cluster_more.hyps(1)]
  from cluster_more.hyps(2) ok lapsed cluster_more.IH show ?case
  proof (induction rule: cluster_step.induct)
    case (c_commit cl c k U d)
    then show ?case by (simp add: commit_budget)
  next
    case (c_other cl d)
    then show ?case using within_budget_step [OF other_step_repo] by (simp add: cluster_ok_def)
  qed simp_all
qed

end
