(* ===== verification/Claim_Properties.thy ===== *)
theory Claim_Properties imports Fixtures Lone_Claim Claim_Life begin

text \<open>
  The properties of claims that run at the same time, and a run in which two of them pass the limit of
  a queue that is resumed while they are under way.
\<close>

section \<open>A queue of limit one with two pending jobs\<close>

definition rc_job :: "uuid \<Rightarrow> job_row" where
  "rc_job i = new_job 0 i (fx_params None)"

definition rc_queue :: "bool \<Rightarrow> queue_row" where
  "rc_queue paused = (new_queue 0 ''default'')\<lparr>q_paused := paused, q_concurrency_limit := 1, q_updated_at := 1\<rparr>"

definition rc_db :: "bool \<Rightarrow> job_row list \<Rightarrow> db" where
  "rc_db paused js = \<lparr>queues = [rc_queue paused], jobs = js, attempts = [], workers = []\<rparr>"

lemma rc_insert:
  "transact (fx_env 0 100) (insert_job (fx_params None)) empty_db = (Inr (rc_job 120, True), st_db (rc_job 120) [])"
  by code_simp

lemma rc_insert_again:
  "transact (fx_env 0 200) (insert_job (fx_params None)) (st_db (rc_job 120) []) =
     (Inr (rc_job 220, True), (st_db (rc_job 120) [])\<lparr>jobs := [rc_job 120, rc_job 220]\<rparr>)"
  by code_simp

lemma rc_limit:
  "snd (transact (fx_env 1 300) (update_queue ''default'' (Some True) (Some 1))
      ((st_db (rc_job 120) [])\<lparr>jobs := [rc_job 120, rc_job 220]\<rparr>)) = rc_db True [rc_job 120, rc_job 220]"
  "snd (transact (fx_env 1 300) (update_queue ''default'' (Some False) (Some 1))
      ((st_db (rc_job 120) [])\<lparr>jobs := [rc_job 120, rc_job 220]\<rparr>)) = rc_db False [rc_job 120, rc_job 220]"
  by code_simp+

lemma rc_resume:
  "snd (transact (fx_env 1 400) (update_queue ''default'' (Some False) None) (rc_db True [rc_job 120, rc_job 220])) =
     rc_db False [rc_job 120, rc_job 220]"
  by code_simp

lemma rc_reachable: "reachable strict (rc_db paused [rc_job 120, rc_job 220])"
proof -
  have 1: "reachable strict (st_db (rc_job 120) [])"
    using step [OF start s_insert, of strict "fx_env 0 100" "fx_params None"] by (simp only: rc_insert snd_conv)
  have 2: "reachable strict ((st_db (rc_job 120) [])\<lparr>jobs := [rc_job 120, rc_job 220]\<rparr>)"
    using step [OF 1 s_insert, of "fx_env 0 200" "fx_params None"] by (simp only: rc_insert_again snd_conv)
  show ?thesis
    using step [OF 2 s_update_queue, of "fx_env 1 300" "''default''" "Some paused" "Some 1"]
    by (cases paused) (simp_all only: rc_limit)
qed

definition rc_call :: claim_call where
  "rc_call = \<lparr>cc_worker = ''w1'', cc_names = [''default''], cc_batch = 1, cc_lease = 60\<rparr>"

lemma rc_job_simps [simp]:
  "j_id (rc_job i) = i" "j_status (rc_job i) = Pending" "j_queue_name (rc_job i) = ''default''"
  "claim_key (rc_job i) = (0, 0, 0)" "claimable 2 q (rc_job i) \<longleftrightarrow> q = ''default''"
  by (auto simp: rc_job_def new_job_def fx_params_def claim_key_def claimable_def)

lemma rc_db_simps [simp]:
  "q_name (rc_queue p) = ''default''" "q_paused (rc_queue p) = p" "q_concurrency_limit (rc_queue p) = 1"
  "jobs (rc_db p js) = js" "queues (rc_db p js) = [rc_queue p]" "(rc_db p js)\<lparr>jobs := js'\<rparr> = rc_db p js'"
  by (simp_all add: rc_db_def rc_queue_def new_queue_def)

lemma rc_needed [simp]: "needed rc_call (rc_db p js) = (if p then [] else [''default''])"
  by (simp add: needed_def rc_call_def locked_queues_def)

lemma rc_refresh [simp]: "refresh ''default'' (rc_db p js') (rc_db p js) = rc_db p js"
  by (simp add: refresh_def rc_db_def)

lemma rc_picked:
  "picked_jobs busy [''default''] (Suc 0) 2 (rc_db False [rc_job 120, rc_job 220]) =
     take (Suc 0) (filter (\<lambda>j. \<not> busy (j_id j)) [rc_job 120, rc_job 220])"
  by (simp add: picked_jobs_def queue_candidates_def locked_queues_def slots_def leased_count_def)

section \<open>Concurrency limits\<close>

text \<open>C2: however many workers claim at the same time, and whatever other transactions run in between, no
  step takes a queue further above its concurrency limit, as long as no queue becomes claimable between
  the two statements of a claim.\<close>

theorem concurrent_claims_respect_the_limit:
  assumes "cluster_run True cl" and "cluster_step True cl cl'" and "r \<in> set (queues (base cl'))"
  shows "int (leased_count (q_name r) (jobs (base cl'))) \<le>
    max (q_concurrency_limit r) (int (leased_count (q_name r) (jobs (base cl))))"
  by (rule strict_step_limit) (rule assms)+

text \<open>A claimer whose recovery finds nothing, and then with its claim done but not committed.\<close>

definition rc_begun :: cluster where
  "rc_begun = recovered 0 2 {} [] (quiet_cluster (rc_db False [rc_job 120, rc_job 220]))"

definition rc_claimed :: cluster where
  "rc_claimed = claimed (\<lambda>_. False) 0 rc_call rc_begun"

lemma rc_begun_simps [simp]:
  "base rc_begun = rc_db False [rc_job 120, rc_job 220]" "phases rc_begun 0 = Recovered"
  "queue_holder rc_begun q = None" "row_holder rc_begun i = None" "tx_now rc_begun 0 = 2"
  "tx_view 0 rc_begun = rc_db False [rc_job 120, rc_job 220]" "tx_lapsed rc_begun 0 = []" "tx_recovered rc_begun 0 = {}"
  by (simp_all add: rc_begun_def tx_view_none)

lemma rc_claimed_run: "cluster_run strict rc_claimed"
proof -
  have "cluster_run strict rc_begun"
    unfolding rc_begun_def by (rule cluster_more [OF cluster_start [OF rc_reachable] recover_nothing]) simp
  moreover have "cluster_steps strict rc_begun rc_claimed"
    unfolding rc_claimed_def using reachable_wf [OF rc_reachable]
    by (intro claim_without_waiting) (simp_all add: free_for_def)
  ultimately show ?thesis by (rule cluster_steps_run [rotated])
qed

lemma rc_claimed_phase [simp]: "phases rc_claimed 0 = Leasing rc_call {120}"
  by (simp add: rc_claimed_def claimed_def Let_def picked_ids_def) (simp add: rc_call_def rc_picked skipped_def)

lemma rc_claimed_simps [simp]:
  "base rc_claimed = rc_db False [rc_job 120, rc_job 220]" "queue_holder rc_claimed ''default'' = Some 0"
  "tx_view 0 rc_claimed = rc_db False [rc_job 120, rc_job 220]" "tx_lapsed rc_claimed 0 = []"
  "tx_recovered rc_claimed 0 = {}" "tx_now rc_claimed 0 = 2"
  by (simp_all add: rc_claimed_def claimed_def Let_def)

lemma rc_claimed_other [simp]: "phases rc_claimed (Suc 0) = Idle"
  by (simp add: rc_claimed_def claimed_def Let_def) (simp add: rc_begun_def recovered_def)

theorem concurrent_claims_respect_the_limit_witness:
  "\<exists>cl cl'. cluster_run True cl \<and> cluster_step True cl cl' \<and> phases cl 0 = Leasing rc_call {120} \<and>
     int (leased_count ''default'' (jobs (base cl'))) \<le> max 1 0"
proof -
  let ?cl' = "release 0 (rc_claimed\<lparr>base := lease_rows 2 rc_call {120} (base rc_claimed)\<rparr>)"
  have st: "cluster_step True rc_claimed ?cl'"
    using c_commit [of rc_claimed 0 rc_call "{120}" "base rc_claimed" True] by simp
  have "int (leased_count ''default'' (jobs (base ?cl'))) \<le> max 1 (int (leased_count ''default'' (jobs (base rc_claimed))))"
    using concurrent_claims_respect_the_limit [OF rc_claimed_run st, of "hd (queues (base rc_claimed))"] by simp
  with rc_claimed_run st show ?thesis
    by (intro exI [of _ rc_claimed] exI [of _ ?cl'] conjI) (simp_all add: leased_count_def)
qed

section \<open>No job is leased twice\<close>

text \<open>C9: in every run, strict or not, the rows a claimer leases have attempts left and, in the committed
  database until it commits, are pending or under an expired lease it has recovered itself; no other
  claimer leases or recovers any of them.\<close>

theorem concurrent_claims_are_disjoint:
  assumes "cluster_run strict cl" and "phases cl c = Leasing k U" and "i \<in> U"
  shows "(\<exists>j \<in> set (jobs (base cl)). j_id j = i \<and> j_attempt_count j < j_max_attempts j \<and>
      (if i \<in> tx_recovered cl c then lease_is_expired (tx_now cl c) j else j_status j = Pending)) \<and>
    (\<forall>c'. c' \<noteq> c \<longrightarrow> i \<notin> tx_recovered cl c' \<and> (\<forall>k' V. phases cl c' = Leasing k' V \<longrightarrow> i \<notin> V))"
proof -
  note ok = cluster_run_ok [OF assms(1)]
  from rows_pendingD(2) [OF cluster_okD(3) [OF ok] assms(2,3)] obtain b where b: "b \<in> set (jobs (base cl))"
    "j_id b = i" "j_attempt_count b < j_max_attempts b" "i \<notin> tx_recovered cl c \<longrightarrow> j_status b = Pending"
    by (auto simp: tx_view_row split: if_splits)
  have "lease_is_expired (tx_now cl c) b" if "i \<in> tx_recovered cl c"
    using rows_lapsedD(2) [OF cluster_okD(2) [OF ok] that] b(1,2)
      key_inj [OF wf_db_distinct_ids [OF cluster_okD(1) [OF ok]]] by metis
  moreover have "i \<notin> tx_recovered cl c'" if "c' \<noteq> c" for c'
    using leasing_not_recovered [OF assms(1,2), of c'] assms(3) that by auto
  moreover have "i \<notin> V" if "c' \<noteq> c" "phases cl c' = Leasing k' V" for c' k' V
    using leasing_disjoint [OF assms(1,2) that(2)] assms(3) that(1) by auto
  ultimately show ?thesis using b by auto
qed

theorem concurrent_claims_are_disjoint_witness:
  "\<exists>cl. cluster_run False cl \<and> phases cl 0 = Leasing rc_call {120} \<and>
     (\<exists>j \<in> set (jobs (base cl)). j_id j = 120 \<and> j_status j = Pending)"
proof -
  have "phases rc_claimed 0 = Leasing rc_call {120}" by simp
  from concurrent_claims_are_disjoint [OF rc_claimed_run this, of 120] rc_claimed_run [of False] this
  show ?thesis by (intro exI [of _ rc_claimed]) auto
qed

section \<open>The life of a job\<close>



section \<open>No deadlock\<close>

text \<open>Claimers never wait for one another in a circle, so a claim that waits for a queue goes on once
  those ahead of it have ended, as long as no queue becomes claimable between the two statements of a
  claim.\<close>

theorem claimers_never_deadlock:
  assumes "cluster_run True cl"
  shows "\<not> (waits_for cl)\<^sup>+\<^sup>+ c c"
  by (rule no_waiting_cycle) (rule assms)

text \<open>The witness: claimer 1 waits for the queue claimer 0 holds.\<close>

theorem claimers_never_deadlock_witness:
  "\<exists>cl. cluster_run True cl \<and> waits_for cl 1 0 \<and> \<not> (waits_for cl)\<^sup>+\<^sup>+ 1 1"
proof -
  let ?b = "recovered (Suc 0) 2 {} [] rc_claimed"
  let ?cl = "enter (Suc 0) (Locking rc_call (needed rc_call (base ?b))) ?b"
  have "cluster_run True ?b"
    by (rule cluster_more [OF rc_claimed_run recover_nothing]) simp
  then have run: "cluster_run True ?cl"
    by (rule cluster_more [OF _ c_begin]) simp
  moreover have "waits_for ?cl 1 0"
    by (simp add: waits_for_def)
  ultimately show ?thesis using claimers_never_deadlock [OF run] by blast
qed

section \<open>A queue that is resumed in between\<close>

text \<open>
  The queue is paused when two claimers run their first statement, so neither locks it. It is resumed;
  both start their second statement and count no leases; one leases a job and commits while the other
  waits for the queue; the other then leases the second job, on its old count.
\<close>

lemma rc_resume_step: "other_step (rc_db True [rc_job 120, rc_job 220]) (rc_db False [rc_job 120, rc_job 220])"
  using o_update_queue [of "rc_db True [rc_job 120, rc_job 220]" "fx_env 1 400" "''default''" "Some False" None]
  by (simp only: rc_resume)

definition rc_leased :: "uuid \<Rightarrow> job_row" where
  "rc_leased i = lease_job 2 ''w1'' 60 (rc_job i)"

lemma rc_leased_simps [simp]:
  "j_id (rc_leased i) = i" "j_status (rc_leased i) = Leased" "j_queue_name (rc_leased i) = ''default''"
  "\<not> claimable t q (rc_leased i)"
  by (simp_all add: rc_leased_def claimable_def)

lemma rc_lease_rows:
  "lease_rows 2 rc_call {120} (rc_db False [rc_job 120, rc_job 220]) = rc_db False [rc_leased 120, rc_job 220]"
  "lease_rows 2 rc_call {220} (rc_db False [rc_leased 120, rc_job 220]) = rc_db False [rc_leased 120, rc_leased 220]"
  by (simp_all add: lease_rows_def rc_call_def rc_leased_def)

text \<open>Two claimers, the holder of the queue and those of the two rows.\<close>

definition rc_cluster :: "phase \<Rightarrow> phase \<Rightarrow> time \<Rightarrow> time \<Rightarrow> nat option \<Rightarrow> nat option \<Rightarrow> nat option \<Rightarrow> db \<Rightarrow> cluster" where
  "rc_cluster p0 p1 t0 t1 h r1 r2 d =
     \<lparr>base = d, queue_holder = (\<lambda>q. if q = ''default'' then h else None),
      row_holder = (\<lambda>i. if i = 120 then r1 else if i = 220 then r2 else None),
      phases = (\<lambda>c. if c = 0 then p0 else if c = 1 then p1 else Idle),
      tx_now = (\<lambda>c. if c = 0 then t0 else if c = 1 then t1 else 0), tx_recovered = (\<lambda>_. {}), tx_lapsed = (\<lambda>_. [])\<rparr>"

lemma rc_cluster_simps [simp]:
  "base (rc_cluster p0 p1 t0 t1 h r1 r2 d) = d" "queue_holder (rc_cluster p0 p1 t0 t1 h r1 r2 d) ''default'' = h"
  "phases (rc_cluster p0 p1 t0 t1 h r1 r2 d) 0 = p0" "phases (rc_cluster p0 p1 t0 t1 h r1 r2 d) (Suc 0) = p1"
  "row_holder (rc_cluster p0 p1 t0 t1 h r1 r2 d) 120 = r1" "row_holder (rc_cluster p0 p1 t0 t1 h r1 r2 d) 220 = r2"
  "tx_now (rc_cluster p0 p1 t0 t1 h r1 r2 d) 0 = t0" "tx_now (rc_cluster p0 p1 t0 t1 h r1 r2 d) (Suc 0) = t1"
  "tx_lapsed (rc_cluster p0 p1 t0 t1 h r1 r2 d) c = []" "tx_view c (rc_cluster p0 p1 t0 t1 h r1 r2 d) = d"
  by (simp_all add: rc_cluster_def tx_view_def upd_where_none)

lemma rc_cluster_moves [simp]:
  "enter 0 p (rc_cluster p0 p1 t0 t1 h r1 r2 d) = rc_cluster p p1 t0 t1 h r1 r2 d"
  "enter (Suc 0) p (rc_cluster p0 p1 t0 t1 h r1 r2 d) = rc_cluster p0 p t0 t1 h r1 r2 d"
  "recovered 0 t {} [] (rc_cluster p0 p1 t0 t1 h r1 r2 d) = rc_cluster Recovered p1 t t1 h r1 r2 d"
  "recovered (Suc 0) t {} [] (rc_cluster p0 p1 t0 t1 h r1 r2 d) = rc_cluster p0 Recovered t0 t h r1 r2 d"
  "acquire c ''default'' (rc_cluster p0 p1 t0 t1 h r1 r2 d) = rc_cluster p0 p1 t0 t1 (Some c) r1 r2 d"
  "hold_rows c {120} (rc_cluster p0 p1 t0 t1 h r1 r2 d) = rc_cluster p0 p1 t0 t1 h (Some c) r2 d"
  "hold_rows c {220} (rc_cluster p0 p1 t0 t1 h r1 r2 d) = rc_cluster p0 p1 t0 t1 h r1 (Some c) d"
  "release 0 (rc_cluster p0 p1 t0 t1 (Some 0) (Some 0) None d) = rc_cluster Idle p1 t0 t1 None None None d"
  "release (Suc 0) (rc_cluster p0 p1 t0 t1 (Some (Suc 0)) None (Some (Suc 0)) d) = rc_cluster p0 Idle t0 t1 None None None d"
  "(rc_cluster p0 p1 t0 t1 h r1 r2 d)\<lparr>base := d'\<rparr> = rc_cluster p0 p1 t0 t1 h r1 r2 d'"
  by (auto simp: rc_cluster_def enter_def acquire_def hold_rows_def release_def forget_def recovered_def keep_recovery_def
      fun_eq_iff)

lemma quiet_rc_cluster: "quiet_cluster d = rc_cluster Idle Idle 0 0 None None None d"
  by (simp add: quiet_cluster_def rc_cluster_def cong: if_cong)

lemma rc_picked_first:
  "picked_ids (\<lambda>_. False) (rc_cluster p0 p1 2 2 h None None (rc_db False [rc_job 120, rc_job 220])) 0 rc_call
     (rc_db False [rc_job 120, rc_job 220]) = {120}"
  by (simp add: picked_ids_def) (simp add: rc_call_def rc_picked skipped_def)

lemma rc_picked_second:
  "picked_ids (\<lambda>_. False) (rc_cluster p0 p1 2 2 h None None (rc_db False [rc_leased 120, rc_job 220])) (Suc 0) rc_call
     (rc_db False [rc_job 120, rc_job 220]) = {220}"
  by (simp add: picked_ids_def) (simp add: rc_call_def rc_picked skipped_def)

lemma rc_late_run:
  "cluster_run False (rc_cluster Idle (Leasing rc_call {220}) 2 2 (Some (Suc 0)) None (Some (Suc 0))
     (rc_db False [rc_leased 120, rc_job 220]))"
proof -
  let ?p = "rc_db True [rc_job 120, rc_job 220]" and ?o = "rc_db False [rc_job 120, rc_job 220]"
  let ?l = "rc_db False [rc_leased 120, rc_job 220]" and ?q = "''default''"
  note more = cluster_more [where strict = False]
  have "cluster_run False (rc_cluster Idle Idle 0 0 None None None ?p)"
    using cluster_start [OF rc_reachable, of False True] by (simp add: quiet_rc_cluster)
  from more [OF this recover_nothing [where c = 0 and t = 2]]
  have "cluster_run False (rc_cluster Recovered Idle 2 0 None None None ?p)" by simp
  from more [OF this recover_nothing [where c = "Suc 0" and t = 2]]
  have "cluster_run False (rc_cluster Recovered Recovered 2 2 None None None ?p)" by simp
  from more [OF this c_begin [where c = 0 and k = rc_call]]
  have "cluster_run False (rc_cluster (Locking rc_call []) Recovered 2 2 None None None ?p)" by simp
  from more [OF this c_begin [where c = "Suc 0" and k = rc_call]]
  have "cluster_run False (rc_cluster (Locking rc_call []) (Locking rc_call []) 2 2 None None None ?p)" by simp
  from more [OF this c_locked [of _ 0 rc_call]]
  have "cluster_run False (rc_cluster (Locked rc_call) (Locking rc_call []) 2 2 None None None ?p)" by simp
  from more [OF this c_locked [of _ "Suc 0" rc_call]]
  have "cluster_run False (rc_cluster (Locked rc_call) (Locked rc_call) 2 2 None None None ?p)" by simp
  from more [OF this c_other [of _ ?o]]
  have "cluster_run False (rc_cluster (Locked rc_call) (Locked rc_call) 2 2 None None None ?o)"
    using rc_resume_step by (simp add: respects_locks_def rc_cluster_def)
  from more [OF this c_start [of _ 0 rc_call]]
  have "cluster_run False (rc_cluster (Claiming rc_call ?o [?q]) (Locked rc_call) 2 2 None None None ?o)" by simp
  from more [OF this c_start [of _ "Suc 0" rc_call]]
  have "cluster_run False (rc_cluster (Claiming rc_call ?o [?q]) (Claiming rc_call ?o [?q]) 2 2 None None None ?o)" by simp
  from more [OF this c_queue [of _ 0 rc_call ?o ?q "[]"]]
  have "cluster_run False (rc_cluster (Claiming rc_call ?o []) (Claiming rc_call ?o [?q]) 2 2 (Some 0) None None ?o)"
    by (simp add: free_for_def)
  from more [OF this c_claim [of _ 0 rc_call ?o "{120}" "\<lambda>_. False"]]
  have "cluster_run False (rc_cluster (Leasing rc_call {120}) (Claiming rc_call ?o [?q]) 2 2 (Some 0) (Some 0) None ?o)"
    by (simp add: rc_picked_first)
  from more [OF this c_commit [of _ 0 rc_call "{120}" ?o]]
  have "cluster_run False (rc_cluster Idle (Claiming rc_call ?o [?q]) 2 2 None None None ?l)"
    by (simp add: rc_lease_rows)
  from more [OF this c_queue [of _ "Suc 0" rc_call ?o ?q "[]"]]
  have "cluster_run False (rc_cluster Idle (Claiming rc_call ?o []) 2 2 (Some (Suc 0)) None None ?l)"
    by (simp add: free_for_def)
  from more [OF this c_claim [of _ "Suc 0" rc_call ?o "{220}" "\<lambda>_. False"]] show ?thesis
    by (simp add: rc_picked_second)
qed

text \<open>The limit can be passed in a run that is not strict: there is one, with a queue of limit one, in
  which a queue is resumed between the two statements of two claims and a commit takes it from one
  leased job to two.\<close>

theorem a_resume_lets_claims_exceed_the_limit:
  "\<exists>cl cl' r. cluster_run False cl \<and> cluster_step False cl cl' \<and> r \<in> set (queues (base cl')) \<and>
     q_concurrency_limit r = 1 \<and> leased_count (q_name r) (jobs (base cl)) = 1 \<and>
     leased_count (q_name r) (jobs (base cl')) = 2"
proof -
  let ?cl = "rc_cluster Idle (Leasing rc_call {220}) 2 2 (Some (Suc 0)) None (Some (Suc 0))
     (rc_db False [rc_leased 120, rc_job 220])"
  have "cluster_step False ?cl (rc_cluster Idle Idle 2 2 None None None (rc_db False [rc_leased 120, rc_leased 220]))"
    using c_commit [of ?cl "Suc 0" rc_call "{220}" "rc_db False [rc_leased 120, rc_job 220]" False] by (simp add: rc_lease_rows)
  with rc_late_run show ?thesis
    by (intro exI [of _ ?cl] exI [of _ "rc_cluster Idle Idle 2 2 None None None
          (rc_db False [rc_leased 120, rc_leased 220])"] exI [of _ "rc_queue False"] conjI)
      (simp_all add: leased_count_def)
qed

end
