(* ===== verification/Identifiers.thy ===== *)
theory Identifiers imports Auth Json Redaction begin

text \<open>
  Identifiers and digests (\<open>utils/ids.py\<close>, \<open>utils/json.py\<close>) and the log processor
  (\<open>observability/logging.py\<close>). \<open>uuid.uuid4()\<close>, the host name and SHA-256 are parameters.
\<close>

text \<open>\<open>UUID.hex\<close>: 32 lower-case hexadecimal digits.\<close>

definition uuid_hex :: "uuid \<Rightarrow> string" where
  "uuid_hex u = hex_fixed 32 (unat u)"

definition generate_trace_id :: "uuid \<Rightarrow> string" where
  "generate_trace_id u = uuid_hex u"

definition generate_worker_id :: "string \<Rightarrow> string \<Rightarrow> uuid \<Rightarrow> string" where
  "generate_worker_id prefix hostname u =
     (let suffix = take 12 (uuid_hex u) in prefix @ ''-'' @ hostname @ ''-'' @ suffix)"

definition sha256_json :: "(nat list \<Rightarrow> string) \<Rightarrow> json \<Rightarrow> string" where
  "sha256_json hexdigest v = hexdigest (encode_utf8 (canonical_json_dumps v))"

definition redact_event :: "dict \<Rightarrow> dict" where
  "redact_event event_dict = redact_mapping event_dict"

section \<open>Facts\<close>

lemma generate_trace_id_inj: "generate_trace_id u = generate_trace_id v \<longleftrightarrow> u = v"
proof
  assume "generate_trace_id u = generate_trace_id v"
  then have "unat u = unat v"
    using unsigned_less [of u] unsigned_less [of v]
    by (intro hex_fixed_inj [of _ 32]) (simp_all add: generate_trace_id_def uuid_hex_def)
  then show "u = v" by (simp add: word_unat_eq_iff)
qed simp

lemma length_uuid_hex [simp]: "length (uuid_hex u) = 32"
  by (simp add: uuid_hex_def)

text \<open>
  Workers of different hosts never share an identifier, nor do two on one host whose random values
  differ in the first twelve digits; the prefix is the same for all of them.
\<close>

lemma generate_worker_id_inj:
  "generate_worker_id prefix host u = generate_worker_id prefix host' v \<longleftrightarrow>
     host = host' \<and> take 12 (uuid_hex u) = take 12 (uuid_hex v)"
proof -
  have "(host @ ''-'') @ take 12 (uuid_hex u) = (host' @ ''-'') @ take 12 (uuid_hex v) \<longleftrightarrow>
      host @ ''-'' = host' @ ''-'' \<and> take 12 (uuid_hex u) = take 12 (uuid_hex v)"
    by (rule append_eq_append_conv) simp
  then show ?thesis by (simp add: generate_worker_id_def)
qed

lemma sha256_json_same: "same_json v w \<Longrightarrow> proper v \<Longrightarrow> sha256_json h v = sha256_json h w"
  by (simp add: sha256_json_def same_json_dumps)

end
