(* ===== verification/Transport.thy ===== *)
theory Transport imports Validation Settings begin

text \<open>
  The HTTP client of a worker and how it connects (\<open>worker/http_executor.py\<close>): redirects are never
  followed, and unless private targets are allowed the network backend resolves each name itself and
  connects to an address it has checked. What \<open>httpcore\<close>'s own backend does with a host and a port
  is a parameter.
\<close>

record limits =
  max_connections :: "int option"
  max_keepalive_connections :: "int option"

text \<open>\<open>httpx.Limits()\<close>\<close>

definition no_limits :: limits where
  "no_limits = \<lparr>max_connections = None, max_keepalive_connections = None\<rparr>"

datatype transport = Default_transport limits | SafeAsyncHTTPTransport limits

record http_client =
  follow_redirects :: bool
  client_transport :: transport

definition create_http_client :: "settings \<Rightarrow> limits option \<Rightarrow> http_client" where
  "create_http_client s given =
     (let limits = (case given of None \<Rightarrow> no_limits | Some l \<Rightarrow> l)
      in if block_private_network_targets s
         then \<lparr>follow_redirects = False, client_transport = SafeAsyncHTTPTransport limits\<rparr>
         else \<lparr>follow_redirects = False, client_transport = Default_transport limits\<rparr>)"

text \<open>\<open>SafeAsyncNetworkBackend.connect_tcp\<close>\<close>

definition connect_tcp ::
  "(string \<Rightarrow> exn + ip_info) \<Rightarrow> (string \<Rightarrow> int option \<Rightarrow> exn + string list) \<Rightarrow>
    (string \<Rightarrow> int \<Rightarrow> exn + 'stream) \<Rightarrow> string \<Rightarrow> int \<Rightarrow> exn + 'stream" where
  "connect_tcp ip_address getaddrinfo backend host port =
     (case resolve_public_address ip_address getaddrinfo host port of
        Inl e \<Rightarrow> Inl e
      | Inr address \<Rightarrow> backend address port)"

text \<open>The backend a transport opens its connections with.\<close>

definition network_backend ::
  "(string \<Rightarrow> exn + ip_info) \<Rightarrow> (string \<Rightarrow> int option \<Rightarrow> exn + string list) \<Rightarrow>
    (string \<Rightarrow> int \<Rightarrow> exn + 'stream) \<Rightarrow> transport \<Rightarrow> string \<Rightarrow> int \<Rightarrow> exn + 'stream" where
  "network_backend ip_address getaddrinfo backend tr =
     (case tr of
        Default_transport l \<Rightarrow> backend
      | SafeAsyncHTTPTransport l \<Rightarrow> connect_tcp ip_address getaddrinfo backend)"

section \<open>Facts\<close>

text \<open>An address outside every range jobs may not reach.\<close>

definition public_address :: "(string \<Rightarrow> exn + ip_info) \<Rightarrow> string \<Rightarrow> bool" where
  "public_address ip_address a \<longleftrightarrow>
     (\<exists>i. ip_address a = Inr i \<and> is_global i \<and> \<not> is_private i \<and> \<not> is_loopback i \<and> \<not> is_link_local i \<and>
        \<not> is_multicast i \<and> \<not> is_reserved i \<and> \<not> is_unspecified i)"

lemma check_public_addresses:
  "check_public ip_address as = Inr () \<longleftrightarrow> set as \<subseteq> Collect (public_address ip_address)"
  by (auto simp: check_public_ok is_blocked_ip_address_def public_address_def)

lemma resolve_public_address_Inr:
  "resolve_public_address ip_address getaddrinfo host port = Inr a \<Longrightarrow>
    \<exists>infos. getaddrinfo host (Some port) = Inr infos \<and> a \<in> set infos \<and> set infos \<subseteq> Collect (public_address ip_address)"
  unfolding resolve_public_address_def
  by (auto simp: check_public_addresses split: sum.splits list.splits)

end
