(* ===== verification/Service_Properties.thy ===== *)
theory Service_Properties imports Fixtures Identifiers Transport begin

text \<open>
  The properties of the services: enqueueing, replay, cancellation, queues, statistics, validation,
  settings and redaction.
\<close>

section \<open>Enqueueing\<close>


definition fx_settings :: settings where
  "fx_settings = (default_settings ''postgresql+asyncpg://db'')
     \<lparr>api_auth_tokens := ''w'', api_read_only_auth_tokens := ''r'', http_allowed_hosts := ''h''\<rparr>"

definition fx_urlparse :: url_parser where
  "fx_urlparse url = Inr \<lparr>u_scheme = ''https'', u_hostname = Some ''h'', u_port = Inr None\<rparr>"

definition fx_request :: "string \<Rightarrow> enqueue_request" where
  "fx_request q =
     \<lparr>r_queue_name = q, r_kind = ''http'', r_name = ''n'',
      r_payload = [(''method'', JStr ''GET''), (''url'', JStr ''u'')], r_headers = [], r_metadata = [],
      r_priority = 0, r_max_attempts = 1, r_timeout_seconds = 1, r_available_at = None,
      r_idempotency_key = None, r_dedupe_key = None, r_trace_id = None\<rparr>"



text \<open>C25: an accepted request satisfies every limit, and the job the result names is in the queue asked
  for under the key asked for: appended as pending when it is reported created, and otherwise the one
  that had the key before.\<close>

theorem enqueue_inserts_the_job:
  assumes "wf_db d" and "transact e (enqueue JobRepository urlparse s (Model r)) d = (Inr res, d')"
  shows "validate_queue_name (r_queue_name r) = Inr () \<and>
    int (json_size_bytes (JObj (r_payload r))) \<le> max_payload_bytes s \<and>
    int (json_size_bytes (JObj (r_headers r))) \<le> max_headers_bytes s \<and>
    int (json_size_bytes (JObj (r_metadata r))) \<le> max_metadata_bytes s \<and>
    r_timeout_seconds r \<le> http_max_timeout_seconds s \<and>
    (\<exists>j \<in> set (jobs d'). j_id j = er_job_id res \<and> j_queue_name j = r_queue_name r \<and>
      j_idempotency_key j = r_idempotency_key r \<and>
      (if er_created res then jobs d' = jobs d @ [j] \<and> j_status j = Pending else jobs d' = jobs d))"
proof -
  from assms(2) obtain t where t: "enqueue JobRepository urlparse s (Model r) (open_session e d) = (Inr res, t)"
    and d': "d' = working t"
    by (rule transact_InrD)
  from t obtain payload where "enqueue_checks urlparse s r = Inr payload"
    by (auto elim!: enqueue_Inr)
  note checks = enqueue_checks_Inr(1-5) [OF this]
  have wf: "wf_db (working (open_session e d))" "wf_db (committed (open_session e d))"
    using assms(1) by simp_all
  have row: "\<exists>j \<in> set (jobs d'). j_id j = er_job_id res \<and> j_queue_name j = r_queue_name r \<and>
      j_idempotency_key j = r_idempotency_key r \<and>
      (if er_created res then jobs d' = jobs d @ [j] \<and> j_status j = Pending else jobs d' = jobs d)"
    using pg_jobs.enqueue_row [OF t wf, of r] d' by (auto split: if_splits)
  show ?thesis using checks row by (intro conjI)
qed

theorem enqueue_inserts_the_job_witness:
  "\<exists>res d'. transact (fx_env 0 100) (enqueue JobRepository fx_urlparse fx_settings (Model (fx_request ''a''))) empty_db = (Inr res, d') \<and>
    er_created res \<and> length (jobs d') = 1"
proof -
  have "map_sum id er_created (fst (transact (fx_env 0 100) (enqueue JobRepository fx_urlparse fx_settings
      (Model (fx_request ''a''))) empty_db)) = Inr True"
    by code_simp
  then obtain res d' where t: "transact (fx_env 0 100) (enqueue JobRepository fx_urlparse fx_settings
      (Model (fx_request ''a''))) empty_db = (Inr res, d')" and c: "er_created res = True"
    by (rule transact_evalE)
  from c enqueue_inserts_the_job [OF wf_empty_db t] have "length (jobs d') = 1"
    by (auto simp: empty_db_def)
  with t c show ?thesis by (intro exI [of _ res] exI [of _ d'] conjI) simp_all
qed








text \<open>The size limits do not depend on the order in which members were put into a dict.\<close>

lemma json_size_ignores_member_order:
  assumes "same_json v w" and "proper v"
  shows "canonical_json_dumps v = canonical_json_dumps w \<and> json_size_bytes v = json_size_bytes w"
  using same_json_dumps [OF assms] by (simp add: json_size_bytes_def)

section \<open>Validation\<close>

text \<open>The accepted queue names are those of the documented language, at most 128 characters long:
  a letter, then letters and digits in segments joined by single dots, dashes or underscores.\<close>

theorem queue_names_are_the_documented_language:
  "validate_queue_name v = Inr () \<longleftrightarrow> length v \<le> 128 \<and> queue_name_language v"
proof -
  have "QUEUE_NAME_PATTERN v \<longleftrightarrow> v \<noteq> [] \<and> QUEUE_NAME_PATTERN v" by (cases v) simp_all
  then show ?thesis
    by (auto simp: validate_queue_name_def Suc_le_eq simp flip: queue_name_pattern_language)
qed

text \<open>Accepted headers cannot smuggle a header line: no carriage return or line feed in a value,
  none of the separators in a name.\<close>

lemma accepted_headers_hold_no_line_breaks:
  assumes "validate_headers hs = Inr ()" and "(n, v) \<in> set hs"
  shows "CR \<notin> set v \<and> LF \<notin> set v \<and> n \<noteq> [] \<and> CR \<notin> set n \<and> LF \<notin> set n \<and> CHR '':'' \<notin> set n \<and> CHR '' '' \<notin> set n"
proof -
  from assms have v: "HEADER_NAME_PATTERN n" "CR \<notin> set v" "LF \<notin> set v"
    by (auto simp: validate_headers_ok)
  have bad: "\<not> header_name_char CR" "\<not> header_name_char LF" "\<not> header_name_char CHR '':''"
    "\<not> header_name_char CHR '' ''"
    by code_simp+
  from v(1) have "\<forall>c \<in> set n. header_name_char c" "n \<noteq> []"
    by (simp_all add: HEADER_NAME_PATTERN_def list_all_iff)
  with v bad show ?thesis by blast
qed

text \<open>C35: while private targets are blocked, a worker connects to public addresses only: it follows no
  redirect, and for whatever host and port it either connects to nothing, or to one resolved address of
  the host, all of whose addresses are global and outside every blocked range.\<close>

theorem jobs_connect_to_public_addresses:
  fixes ip_address :: "string \<Rightarrow> exn + ip_info" and given :: "limits option" and host :: string and port :: int
    and getaddrinfo :: "string \<Rightarrow> int option \<Rightarrow> exn + string list" and s :: settings
  assumes "block_private_network_targets s"
  defines "client \<equiv> create_http_client s given"
  defines "connect \<equiv> \<lambda>backend. network_backend ip_address getaddrinfo backend (client_transport client) host port"
  shows "\<not> follow_redirects client \<and>
    ((\<exists>e. \<forall>backend. connect backend = Inl e) \<or>
     (\<exists>a infos. getaddrinfo host (Some port) = Inr infos \<and> a \<in> set infos \<and>
        set infos \<subseteq> Collect (public_address ip_address) \<and> (\<forall>backend. connect backend = backend a port)))"
proof -
  have c: "connect = (\<lambda>backend. connect_tcp ip_address getaddrinfo backend host port)"
    and f: "\<not> follow_redirects client"
    using assms(1) by (simp_all add: connect_def client_def create_http_client_def network_backend_def Let_def)
  show ?thesis
  proof (cases "resolve_public_address ip_address getaddrinfo host port")
    case (Inl e)
    then show ?thesis using f by (auto simp: c connect_tcp_def)
  next
    case (Inr a)
    with resolve_public_address_Inr [OF this] f show ?thesis by (auto simp: c connect_tcp_def)
  qed
qed

theorem jobs_connect_to_public_addresses_witness:
  "\<not> follow_redirects (create_http_client fx_settings None)"
proof -
  have "block_private_network_targets fx_settings" by code_simp
  from jobs_connect_to_public_addresses [OF this] show ?thesis by blast
qed

section \<open>Replay and cancellation\<close>


text \<open>A dead-lettered job whose replay is dead-lettered as well.\<close>

definition fx_replay :: job_row where
  "fx_replay = (fx_job 9 Dead_letter 3)
     \<lparr>j_idempotency_key := Some (replay_key 4), j_replayed_from_job_id := Some 4\<rparr>"

definition fx_replay_db :: db where
  "fx_replay_db = fx_db\<lparr>jobs := [fx_job 4 Dead_letter 3, fx_replay]\<rparr>"

definition fx_replay_response :: replay_response where
  "fx_replay_response =
     \<lparr>rr_new_job_id = 9, rr_source_job_id = 4, rr_status = Dead_letter, rr_replayed_at = 0\<rparr>"

lemma fx_replay_wf: "wf_db fx_replay_db"
  by (simp add: wf_db_def schema_ok_def fx_replay_db_def fx_replay_def fx_db_def fx_queue_def
      queue_checks_def job_checks_def idem_entry_def job_ok_def)
    (simp add: fx_job_def JOB_KINDS_def JOB_KIND_HANDLER_def)

lemma fx_replay_again:
  "transact (fx_env 9 100) (replay JobRepository 4 False) fx_replay_db = (Inr fx_replay_response, fx_replay_db)"
  by code_simp


text \<open>A replay is not always fresh: replaying a job whose earlier replay has itself been
  dead-lettered succeeds, creates nothing and names that dead-lettered job.\<close>

theorem a_dead_replay_blocks_replay:
  "\<exists>d res. wf_db d \<and> transact (fx_env 9 100) (replay JobRepository 4 False) d = (Inr res, d) \<and>
     rr_status res = Dead_letter \<and> j_status ` set (jobs d) = {Dead_letter}"
proof -
  have "rr_status fx_replay_response = Dead_letter"
    by (simp add: fx_replay_response_def)
  moreover have "j_status ` set (jobs fx_replay_db) = {Dead_letter}"
    by (simp add: fx_replay_db_def fx_replay_def)
  ultimately show ?thesis using fx_replay_wf fx_replay_again by metis
qed

text \<open>C31: cancelling succeeds only on a pending job, which is cancelled at that moment and keeps
  everything else; any other job and a missing one are refused, and then nothing changes.\<close>

theorem only_pending_jobs_are_cancelled:
  assumes "wf_db d" and "transact e (cancel JobRepository i) d = (r, d')"
  shows "case r of
      Inl x \<Rightarrow> d' = d
    | Inr res \<Rightarrow> (\<exists>j. job_by_id i d = Some j \<and> j_status j = Pending \<and>
        job_by_id i d' = Some (cancelled (e_now e) j)) \<and>
        (\<forall>k. k \<noteq> i \<longrightarrow> job_by_id k d' = job_by_id k d) \<and>
        res = \<lparr>cr_job_id = i, cr_status = Cancelled, cr_cancelled_at = e_now e\<rparr>"
proof (cases r)
  case (Inl x)
  with assms(2) transact_Inl_same [OF pg_jobs.cancel_service_uncommitted] show ?thesis by fastforce
next
  case (Inr res)
  with assms(2) obtain t where t: "cancel JobRepository i (open_session e d) = (Inr res, t)" and d': "d' = working t"
    by (auto elim: transact_InrD)
  from t obtain s1 j k where get: "get_job i (open_session e d) = (Inr (Some j), s1)"
    and p: "j_status j = Pending" and c: "cancel_pending_job i s1 = (Inr (Some k), t)"
    and res: "res = \<lparr>cr_job_id = j_id k, cr_status = j_status k, cr_cancelled_at = the (j_completed_at k)\<rparr>"
    by (rule cancel_Inr) simp
  from get_job_Inr [OF get] have j: "job_by_id i d = Some j" and s1: "working s1 = d" "now s1 = e_now e"
    by simp_all
  have id: "j_id (cancelled x l) = j_id l" for x l by (simp add: cancelled_def)
  have by_id: "job_by_id m d' = map_option (\<lambda>l. if j_id l = i \<and> j_status l = Pending then cancelled (e_now e) l else l)
      (job_by_id m d)" for m
    unfolding job_by_id_def d' cancel_pending_job_Inr(3) [OF c] s1 by (rule find_upd_where) (rule id)
  have "job_by_id i d' = Some (cancelled (e_now e) j)"
    using j p job_by_id_SomeD [OF j] by (simp add: by_id)
  moreover have "job_by_id m d' = job_by_id m d" if "m \<noteq> i" for m
    using that by (cases "job_by_id m d") (auto simp: by_id dest: job_by_id_SomeD)
  moreover from cancel_pending_job_row [OF c] s1
  have "res = \<lparr>cr_job_id = i, cr_status = Cancelled, cr_cancelled_at = e_now e\<rparr>" by (simp add: res)
  ultimately show ?thesis using Inr j p by auto
qed

theorem only_pending_jobs_are_cancelled_witness:
  "\<exists>r d'. transact (fx_env 9 100) (cancel JobRepository 4) fx_db = (Inl r, d') \<and> d' = fx_db"
proof -
  have "map_sum (\<lambda>_. ()) (\<lambda>_. ()) (fst (transact (fx_env 9 100) (cancel JobRepository 4) fx_db)) = Inl ()"
    by code_simp
  moreover obtain r d' where t: "transact (fx_env 9 100) (cancel JobRepository 4) fx_db = (r, d')"
    by (cases "transact (fx_env 9 100) (cancel JobRepository 4) fx_db")
  ultimately obtain x where "r = Inl x" by (cases r) simp_all
  with t only_pending_jobs_are_cancelled [OF fx_wf t] show ?thesis by simp
qed

section \<open>Queues and statistics\<close>

text \<open>Once a queue has been paused, no worker claims a job of it.\<close>

theorem paused_queues_are_not_claimed:
  assumes "wf_db d" and "transact e (pause QueueRepository n) d = (Inr q, d1)"
    and "transact e' (claim_jobs w names k ls) d1 = (Inr rows, d2)" and "r \<in> set rows"
  shows "j_queue_name r \<noteq> n"
proof
  assume n: "j_queue_name r = n"
  from assms(2) obtain s1 where p: "pause QueueRepository n (open_session e d) = (Inr q, s1)" and d1: "d1 = working s1"
    by (rule transact_InrD)
  have wf1: "wf_db d1"
    using transact_keeps [OF queue_repo.pause_wf assms(1), of e n] assms(2) by simp
  from queue_repo.pause_Inr [OF p] d1 have q: "q \<in> set (queues d1)" "q_name q = n" "q_paused q" by simp_all
  from assms(4) obtain j where j: "j \<in> set (picked_jobs (e_locked e') names k (e_now e') d1)" "j_queue_name j = n"
    unfolding claim_transact(2) [OF wf1 assms(3)] using n by auto
  then obtain r' where "r' \<in> set (locked_queues names d1)" "q_name r' = n"
    by (metis picked_jobs_candidate queue_candidates_queue)
  with q show False
    using key_inj [OF wf_db_distinct_queues [OF wf1]] by (metis locked_queues_set)
qed

theorem paused_queues_are_not_claimed_witness:
  "\<exists>q d1 rows d2. transact (fx_env 9 100) (pause QueueRepository ''default'') fx_db = (Inr q, d1) \<and>
    transact (fx_env 9 200) (claim_jobs ''w2'' [''default''] 5 60) d1 = (Inr rows, d2) \<and>
    (\<forall>r \<in> set rows. j_queue_name r \<noteq> ''default'')"
proof -
  define q1 where "q1 = fx_queue\<lparr>q_paused := True, q_updated_at := 9\<rparr>"
  have 1: "transact (fx_env 9 100) (pause QueueRepository ''default'') fx_db = (Inr q1, fx_db\<lparr>queues := [q1]\<rparr>)"
    unfolding q1_def by code_simp
  have "map_sum id length (fst (transact (fx_env 9 200) (claim_jobs ''w2'' [''default''] 5 60) (fx_db\<lparr>queues := [q1]\<rparr>))) = Inr 0"
    unfolding q1_def by code_simp
  then obtain rows d2 where 2: "transact (fx_env 9 200) (claim_jobs ''w2'' [''default''] 5 60) (fx_db\<lparr>queues := [q1]\<rparr>) = (Inr rows, d2)"
    by (rule transact_evalE)
  from paused_queues_are_not_claimed [OF fx_wf 1 2] have "\<forall>r \<in> set rows. j_queue_name r \<noteq> ''default''" by blast
  with 1 2 show ?thesis by (intro exI conjI)
qed

text \<open>Exact statistics account for every job: the counts by status and the depths by queue and
  status each sum to the number of jobs, and a status is listed exactly when a job has it.\<close>

theorem statistics_count_every_job:
  assumes "transact e (get_stats (StatsRepository p) False) d = (Inr r, d')"
  shows "(\<Sum>(st, n)\<leftarrow>sr_counts r. n) = int (length (jobs d)) \<and>
    (\<Sum>(q, st, n)\<leftarrow>sr_queue_depth r. n) = int (length (jobs d)) \<and>
    fst ` set (sr_counts r) = j_status ` set (jobs d) \<and> distinct (map fst (sr_counts r)) \<and>
    (sr_oldest_pending_age r = None \<longleftrightarrow> (\<forall>j \<in> set (jobs d). j_status j \<noteq> Pending))"
proof -
  from assms obtain t where t: "get_stats (StatsRepository p) False (open_session e d) = (Inr r, t)"
    by (rule transact_InrD)
  have c: "sr_counts r = group_count j_status (jobs d)"
    and q: "sr_queue_depth r = map (\<lambda>((q, st), n). (q, st, n)) (group_count (\<lambda>j. (j_queue_name j, j_status j)) (jobs d))"
    and o: "sr_oldest_pending_age r = None \<longleftrightarrow> map j_created_at (filter (\<lambda>j. j_status j = Pending) (jobs d)) = []"
    using t by (auto simp: get_stats_def counts_by_status_def queue_depth_def oldest_pending_age_def
        exact_counts_by_status_def exact_queue_depth_def bind_tx_Inr_iff execute_Inr_iff query_def Let_def split: if_splits)
  have "(\<Sum>(q, st, n)\<leftarrow>sr_queue_depth r. n) = (\<Sum>(k, n)\<leftarrow>group_count (\<lambda>j. (j_queue_name j, j_status j)) (jobs d). n)"
    unfolding q by (simp add: comp_def case_prod_unfold)
  moreover have "fst ` set (sr_counts r) = j_status ` set (jobs d)"
    unfolding c by (simp add: group_count_def image_image)
  ultimately show ?thesis
    using group_count_sorted [of j_status "jobs d"]
    by (simp add: c o group_count_total filter_empty_conv)
qed

theorem statistics_count_every_job_witness:
  "\<exists>r d'. transact (fx_env 9 100) (get_stats (StatsRepository \<lparr>reltuples = None, explain = \<lambda>_ _. JNull, py_int = \<lambda>_. Inr 0\<rparr>) False) fx_db = (Inr r, d') \<and>
    (\<Sum>(st, n)\<leftarrow>sr_counts r. n) = 5"
proof -
  let ?p = "\<lparr>reltuples = None, explain = \<lambda>_ _. JNull, py_int = \<lambda>_. Inr 0\<rparr>"
  have "map_sum id sr_approximate (fst (transact (fx_env 9 100) (get_stats (StatsRepository ?p) False) fx_db)) = Inr False"
    by code_simp
  then obtain r d' where t: "transact (fx_env 9 100) (get_stats (StatsRepository ?p) False) fx_db = (Inr r, d')"
    by (rule transact_evalE)
  from statistics_count_every_job [OF t, THEN conjunct1] have "(\<Sum>(st, n)\<leftarrow>sr_counts r. n) = 5"
    by (simp add: fx_db_def)
  with t show ?thesis by (intro exI conjI)
qed

section \<open>Settings and redaction\<close>

text \<open>The queue list of a worker is read back as written: joining valid queue names with commas and
  reading the setting gives the names, in order.\<close>

theorem queue_list_round_trip:
  assumes "\<forall>n \<in> set names. validate_queue_name n = Inr ()"
  shows "get_queue_names (s\<lparr>worker_queues := join '','' names\<rparr>) = names"
proof -
  have tail: "queue_name_tail b r \<Longrightarrow> \<forall>c \<in> set r. is_alnum c \<or> is_queue_sep c" for b r
    by (induction b r rule: queue_name_tail.induct) (auto split: if_splits)
  have chars: "\<not> is_space c \<and> c \<noteq> CHR '',''" if "is_alnum c \<or> is_queue_sep c" for c
    using that by (auto simp: is_alnum_def is_alpha_def is_queue_sep_def is_space_def)
  have "trimmed n \<and> CHR '','' \<notin> set n" if "n \<in> set names" for n
  proof -
    from that assms have "QUEUE_NAME_PATTERN n" by (auto simp: validate_queue_name_def split: if_splits)
    then obtain a r where n: "n = a # r" "is_alpha a" "queue_name_tail False r" by (cases n) auto
    with tail have "\<forall>c \<in> set n. is_alnum c \<or> is_queue_sep c" by (auto simp: is_alnum_def)
    with chars have "\<forall>c \<in> set n. \<not> is_space c \<and> c \<noteq> CHR '',''" by blast
    with n(1) show ?thesis by (auto simp: trimmed_def)
  qed
  then show ?thesis by (simp add: get_queue_names_def comma_items_join)
qed

theorem queue_list_round_trip_witness:
  "get_queue_names (fx_settings\<lparr>worker_queues := join '','' [''a'', ''b.c'']\<rparr>) = [''a'', ''b.c'']"
proof -
  have "validate_queue_name ''a'' = Inr ()" "validate_queue_name ''b.c'' = Inr ()" by code_simp+
  then show ?thesis by (intro queue_list_round_trip) simp
qed

text \<open>Redaction leaves no secret readable in an event whose lists hold no lists: under every secret key,
  at any depth, only the placeholder remains, and redacting twice changes nothing more. The restriction
  is needed: a list inside a list is not searched, so a secret below it stays readable.\<close>

theorem redaction_hides_secrets:
  assumes "flat m"
  shows "set (secrets (redact_event m)) \<subseteq> {JStr REDACTED_VALUE} \<and>
    redact_event (redact_event m) = redact_event m \<and>
    (\<exists>m'. JStr ''s'' \<in> set (secrets (redact_event m')))"
proof -
  have "JStr ''s'' \<in> set (secrets (redact_mapping [(''a'', JArr [JArr [JObj [(''cookie'', JStr ''s'')]]])]))"
    by code_simp
  then show ?thesis
    unfolding redact_event_def using redact_flat_secrets(1) [OF assms] redact_idem(1) by blast
qed

theorem redaction_hides_secrets_witness:
  "set (secrets (redact_event [(''a'', JArr [JObj [(''Cookie'', JStr ''s'')]])])) \<subseteq> {JStr REDACTED_VALUE}"
  by (rule redaction_hides_secrets [THEN conjunct1]) simp

end
