(* ===== verification/Application.thy ===== *)
theory Application imports Api begin

text \<open>
  The whole application \<open>create_app\<close> builds (\<open>api/app.py\<close>): the table of its routes, the search of a
  route for a request, and the answer, with the errors of the router itself.
\<close>

section \<open>Routing\<close>

datatype endpoint =
    E_healthz
  | E_readyz
  | E_enqueue_job
  | E_list_jobs
  | E_get_job
  | E_get_attempts
  | E_replay_job
  | E_cancel_job
  | E_list_queues
  | E_update_queue
  | E_pause_queue
  | E_resume_queue
  | E_get_stats
  | E_list_workers

datatype segment = Lit string | Path_parameter

text \<open>The routes in the order of \<open>include_router\<close>: method, path below the host, endpoint.\<close>

definition health_routes :: "(string \<times> segment list \<times> endpoint) list" where
  "health_routes = [(''GET'', [Lit ''healthz''], E_healthz), (''GET'', [Lit ''readyz''], E_readyz)]"

definition job_routes :: "(string \<times> segment list \<times> endpoint) list" where
  "job_routes =
     (let prefix = [Lit ''v1'', Lit ''jobs''] in
      [(''POST'', prefix, E_enqueue_job), (''GET'', prefix, E_list_jobs),
       (''GET'', prefix @ [Path_parameter], E_get_job),
       (''GET'', prefix @ [Path_parameter, Lit ''attempts''], E_get_attempts),
       (''POST'', prefix @ [Path_parameter, Lit ''replay''], E_replay_job),
       (''POST'', prefix @ [Path_parameter, Lit ''cancel''], E_cancel_job)])"

definition queue_routes :: "(string \<times> segment list \<times> endpoint) list" where
  "queue_routes =
     (let prefix = [Lit ''v1'', Lit ''queues''] in
      [(''GET'', prefix, E_list_queues), (''PUT'', prefix @ [Path_parameter], E_update_queue),
       (''POST'', prefix @ [Path_parameter, Lit ''pause''], E_pause_queue),
       (''POST'', prefix @ [Path_parameter, Lit ''resume''], E_resume_queue)])"

definition routes :: "(string \<times> segment list \<times> endpoint) list" where
  "routes = health_routes @ job_routes @ queue_routes @
     [(''GET'', [Lit ''v1'', Lit ''stats''], E_get_stats), (''GET'', [Lit ''v1'', Lit ''workers''], E_list_workers)]"

text \<open>A path is the list of its segments; a parameter stands for one segment that is not empty.\<close>

fun matches :: "segment list \<Rightarrow> string list \<Rightarrow> bool" where
  "matches [] [] = True"
| "matches (Lit l # ss) (x # xs) = (x = l \<and> matches ss xs)"
| "matches (Path_parameter # ss) (x # xs) = (x \<noteq> [] \<and> matches ss xs)"
| "matches _ _ = False"

fun path_value :: "segment list \<Rightarrow> string list \<Rightarrow> string" where
  "path_value (Path_parameter # ss) (x # xs) = x"
| "path_value (Lit l # ss) (x # xs) = path_value ss xs"
| "path_value _ _ = []"

text \<open>
  The router is Starlette's: given the table, a method and a path it finds an endpoint with the value of
  its path parameter, or answers \<open>404\<close> or \<open>405\<close>. What the application relies on is that it finds
  only endpoints of the table, for their method and path.
\<close>

type_synonym router = "(string \<times> segment list \<times> endpoint) list \<Rightarrow> string \<Rightarrow> string list \<Rightarrow> int + endpoint \<times> string"

definition follows_table :: "router \<Rightarrow> bool" where
  "follows_table router \<longleftrightarrow>
     (\<forall>table meth path ep v. router table meth path = Inr (ep, v) \<longrightarrow>
        (\<exists>ss. (meth, ss, ep) \<in> set table \<and> matches ss path \<and> v = path_value ss path))"

section \<open>Serving a request\<close>

text \<open>
  A request as FastAPI has parsed it: the body and query of whichever endpoint it reaches. A path
  parameter that is not a UUID is a validation error, found after the caller has been authenticated.
\<close>

record api_request =
  rq_method :: string
  rq_path :: "string list"
  rq_authorization :: "string option"
  rq_job :: enqueue_request
  rq_query :: list_query
  rq_force :: bool
  rq_queue_update :: queue_update_request
  rq_approximate :: bool

datatype content =
    Status_body "(string \<times> string) list"
  | Enqueued enqueue_result
  | Job_list job_list_response
  | Job_detail job_row
  | Attempt_list "attempt_row list"
  | Replayed replay_response
  | Cancelled_body cancel_response
  | Queue_list "queue_row list"
  | Queue_body queue_row
  | Stats_body stats_response
  | Worker_list "(worker_row \<times> bool) list"

text \<open>
  The router raises Starlette's \<open>HTTPException\<close>, of which FastAPI's is a subclass. The handler of the
  application is registered for the subclass, so the framework's own answers, with a \<open>detail\<close> alone.
\<close>

datatype http_response =
    Answer "content response"
  | Detail_response int string

definition router_error :: "int \<Rightarrow> http_response" where
  "router_error st = Detail_response st (if st = 404 then ''Not Found'' else ''Method Not Allowed'')"

definition job_id_of :: "(string \<Rightarrow> uuid option) \<Rightarrow> string \<Rightarrow> exn + uuid" where
  "job_id_of parse_uuid value =
     (case parse_uuid value of None \<Rightarrow> Inl (PydanticValidationError ''job_id'') | Some i \<Rightarrow> Inr i)"

definition answer :: "('a \<Rightarrow> content) \<Rightarrow> 'a response \<times> db \<Rightarrow> http_response \<times> db" where
  "answer f r = (case r of (resp, d) \<Rightarrow> (Answer (map_response f resp), d))"

definition call_endpoint ::
  "(string \<Rightarrow> uuid option) \<Rightarrow> url_parser \<Rightarrow> app_state \<Rightarrow> endpoint \<Rightarrow> string \<Rightarrow> api_request \<Rightarrow> env \<Rightarrow> db \<Rightarrow>
    http_response \<times> db" where
  "call_endpoint parse_uuid urlparse st ep value rq e d =
     (let a = rq_authorization rq; job_id = job_id_of parse_uuid value in
      case ep of
        E_healthz \<Rightarrow> (Answer (Ok_response 200 (Status_body [(''status'', ''ok'')])), d)
      | E_readyz \<Rightarrow>
          (Answer (map_response (\<lambda>_. Status_body [(''status'', ''ready''), (''database'', ''ok'')]) (readyz e d)), d)
      | E_enqueue_job \<Rightarrow> answer Enqueued (post_job urlparse st a (rq_job rq) e d)
      | E_list_jobs \<Rightarrow> answer Job_list (get_jobs st a (rq_query rq) e d)
      | E_get_job \<Rightarrow> answer Job_detail (get_job_detail st a job_id e d)
      | E_get_attempts \<Rightarrow> answer Attempt_list (get_attempts st a job_id e d)
      | E_replay_job \<Rightarrow> answer Replayed (post_replay st a job_id (rq_force rq) e d)
      | E_cancel_job \<Rightarrow> answer Cancelled_body (post_cancel st a job_id e d)
      | E_list_queues \<Rightarrow> answer Queue_list (get_queues st a e d)
      | E_update_queue \<Rightarrow> answer Queue_body (put_queue st a value (rq_queue_update rq) e d)
      | E_pause_queue \<Rightarrow> answer Queue_body (post_pause st a value e d)
      | E_resume_queue \<Rightarrow> answer Queue_body (post_resume st a value e d)
      | E_get_stats \<Rightarrow> answer Stats_body (get_stats_route st a (rq_approximate rq) e d)
      | E_list_workers \<Rightarrow> answer Worker_list (get_workers st a e d))"

definition serve ::
  "router \<Rightarrow> (string \<Rightarrow> uuid option) \<Rightarrow> url_parser \<Rightarrow> app_state \<Rightarrow> api_request \<Rightarrow> env \<Rightarrow> db \<Rightarrow>
    http_response \<times> db" where
  "serve router parse_uuid urlparse st rq e d =
     (case router routes (rq_method rq) (rq_path rq) of
        Inl status \<Rightarrow> (router_error status, d)
      | Inr (ep, value) \<Rightarrow> call_endpoint parse_uuid urlparse st ep value rq e d)"

section \<open>Who may change what\<close>

fun writes :: "endpoint \<Rightarrow> bool" where
  "writes E_enqueue_job = True"
| "writes E_replay_job = True"
| "writes E_cancel_job = True"
| "writes E_update_queue = True"
| "writes E_pause_queue = True"
| "writes E_resume_queue = True"
| "writes _ = False"

fun needs_token :: "endpoint \<Rightarrow> bool" where
  "needs_token E_healthz = False"
| "needs_token E_readyz = False"
| "needs_token _ = True"

fun succeeded_response :: "http_response \<Rightarrow> bool" where
  "succeeded_response (Answer r) = is_ok r"
| "succeeded_response (Detail_response st m) = False"

lemma is_ok_map_response [simp]: "is_ok (map_response f r) = is_ok r"
  by (cases r) simp_all

lemma snd_answer [simp]: "snd (answer f r) = snd r"
  by (simp add: answer_def split: prod.split)

lemma succeeded_answer [simp]: "succeeded_response (fst (answer f r)) = is_ok (fst r)"
  by (simp add: answer_def split: prod.split)

lemmas route_defs = post_job_def put_queue_def post_pause_def post_resume_def get_jobs_def get_queues_def
  get_stats_route_def get_workers_def get_job_detail_def get_attempts_def post_replay_def post_cancel_def

lemmas uncommitted_routes = pg_jobs.enqueue_uncommitted pg_jobs.replay_uncommitted
  pg_jobs.cancel_service_uncommitted uncommitted_queue_routes

lemma call_endpoint_reads:
  "\<not> writes ep \<Longrightarrow> snd (call_endpoint parse_uuid urlparse (create_state p s) ep value rq e d) = d"
  by (cases ep)
    (simp_all add: call_endpoint_def Let_def route_defs run_route_reads reads_intro keeps_job_reads
      keeps_other_reads keeps_get_stats)

lemma call_endpoint_effect:
  assumes "snd (call_endpoint parse_uuid urlparse (create_state p s) ep value rq e d) \<noteq> d"
  shows "writes ep \<and> succeeded_response (fst (call_endpoint parse_uuid urlparse (create_state p s) ep value rq e d)) \<and>
    write_access s (rq_authorization rq)"
proof -
  from assms have w: "writes ep" using call_endpoint_reads by metis
  then show ?thesis
    using assms
    by (cases ep)
      (auto simp: call_endpoint_def Let_def route_defs dest!: write_route_effect [OF uncommitted_routes(1)]
        write_route_effect [OF uncommitted_routes(2)] write_route_effect [OF uncommitted_routes(3)]
        write_route_effect [OF uncommitted_routes(4)] write_route_effect [OF uncommitted_routes(5)]
        write_route_effect [OF uncommitted_routes(6)])
qed

text \<open>The caller may read: it presents a token, or none is configured.\<close>

definition read_access :: "settings \<Rightarrow> string option \<Rightarrow> bool" where
  "read_access s a \<longleftrightarrow>
     get_api_tokens s \<union> get_read_only_api_tokens s = {} \<or>
     (\<exists>t \<in> get_api_tokens s \<union> get_read_only_api_tokens s. a = Some (''Bearer '' @ t))"

lemma run_route_ok: "is_ok (fst (run_route auth parsed body st e d)) \<Longrightarrow> auth = Inr ()"
  by (cases auth) (simp_all add: run_route_def)

lemma require_auth_access: "require_auth (create_state p s) a = Inr () \<longleftrightarrow> read_access s a"
  by (simp add: require_auth_def require_api_token_Inr read_access_def)

lemma require_write_access: "require_write_auth (create_state p s) a = Inr () \<longleftrightarrow> write_access s a"
  by (simp add: require_write_auth_Inr require_api_write_token_Inr write_access_def)

lemma call_endpoint_read_access:
  "succeeded_response (fst (call_endpoint parse_uuid urlparse (create_state p s) ep value rq e d)) \<Longrightarrow> needs_token ep \<Longrightarrow>
    \<not> writes ep \<Longrightarrow> read_access s (rq_authorization rq)"
  by (cases ep)
    (auto simp: call_endpoint_def Let_def route_defs require_auth_access dest!: run_route_ok)

lemma call_endpoint_write_access:
  "succeeded_response (fst (call_endpoint parse_uuid urlparse (create_state p s) ep value rq e d)) \<Longrightarrow> writes ep \<Longrightarrow>
    write_access s (rq_authorization rq)"
  by (cases ep)
    (auto simp: call_endpoint_def Let_def route_defs require_write_access dest!: run_route_ok)

lemma write_access_read: "write_access s a \<Longrightarrow> read_access s a"
  by (auto simp: write_access_def read_access_def)

text \<open>What a route says of its endpoint.\<close>

lemma router_Inr:
  assumes "follows_table router" and "router routes meth path = Inr (ep, v)"
  shows "writes ep \<longleftrightarrow> meth \<noteq> ''GET''" and "meth \<in> {''GET'', ''POST'', ''PUT''}"
    and "needs_token ep \<longleftrightarrow> hd path = ''v1''"
proof -
  from assms obtain ss where mem: "(meth, ss, ep) \<in> set routes" and m: "matches ss path"
    unfolding follows_table_def by blast
  from mem show "writes ep \<longleftrightarrow> meth \<noteq> ''GET''" "meth \<in> {''GET'', ''POST'', ''PUT''}"
    by (auto simp: routes_def health_routes_def job_routes_def queue_routes_def Let_def)
  from m have "\<And>l ss'. ss = Lit l # ss' \<Longrightarrow> hd path = l"
    by (cases path) auto
  with mem show "needs_token ep \<longleftrightarrow> hd path = ''v1''"
    by (auto simp: routes_def health_routes_def job_routes_def queue_routes_def Let_def)
qed

end
