(* ===== verification/Job_Task.thy ===== *)
theory Job_Task imports Runner begin

text \<open>
  The task of one job at the granularity of the event loop (\<open>WorkerRunner._execute_job\<close>): the coroutine
  itself, the execution it awaits and the heartbeat that runs beside it, as one state machine. A step is
  what happens between two suspensions, or one transaction; a cancellation is delivered at the
  suspension the coroutine has reached. \<open>Runner.execute_job\<close> is its big-step account.
\<close>

section \<open>The states of a task\<close>

text \<open>
  The execution is running (and may have been told to stop), has ended with a result or an exception,
  or was cancelled. \<open>task_point\<close> is the suspension the coroutine waits at: for its execution, for the
  cancelled heartbeat before a result is recorded, for the transaction that records it; after a
  cancellation for the heartbeat and for the transaction that gives the job back.
\<close>

datatype execution = Executing bool | Executed "exn + executor_result" | Execution_cancelled

datatype task_end = Task_returned | Task_cancelled | Task_failed exn

datatype task_point =
    Awaiting_execution
  | Awaiting_heartbeat executor_result
  | Recording executor_result
  | Cancelling
  | Returning
  | Task_over task_end

record job_task =
  jt_point :: task_point
  jt_execution :: execution
  jt_heartbeat :: heartbeat_state
  jt_cancel :: bool

text \<open>\<open>jt_cancel\<close>: \<open>cancel()\<close> was called on the task and has not been delivered.\<close>

definition new_task :: job_task where
  "new_task = \<lparr>jt_point = Awaiting_execution, jt_execution = Executing False, jt_heartbeat = Beating,
     jt_cancel = False\<rparr>"

fun is_over :: "task_point \<Rightarrow> bool" where
  "is_over (Task_over how) = True"
| "is_over _ = False"

text \<open>A task that is done ignores \<open>cancel()\<close>.\<close>

definition cancel_task :: "job_task \<Rightarrow> job_task" where
  "cancel_task t = (if is_over (jt_point t) then t else t\<lparr>jt_cancel := True\<rparr>)"

definition stop_execution :: "execution \<Rightarrow> execution" where
  "stop_execution x = (case x of Executing c \<Rightarrow> Executing True | _ \<Rightarrow> x)"

definition still_executing :: "execution \<Rightarrow> bool" where
  "still_executing x \<longleftrightarrow> (case x of Executing c \<Rightarrow> True | _ \<Rightarrow> False)"

text \<open>
  One round of the heartbeat has committed or raised: it goes on, ends with the exception, or cancels
  the execution and reports that the lease is lost.
\<close>

fun beaten :: "exn + bool \<Rightarrow> job_task \<Rightarrow> job_task" where
  "beaten (Inr True) t = t"
| "beaten (Inr False) t =
     t\<lparr>jt_heartbeat := Beat_done (Inr False), jt_execution := stop_execution (jt_execution t)\<rparr>"
| "beaten (Inl x) t = t\<lparr>jt_heartbeat := Beat_done (Inl x)\<rparr>"

text \<open>The coroutine wakes up with the execution's result (or the exception made into one).\<close>

definition woken :: "exn + executor_result \<Rightarrow> job_task \<Rightarrow> job_task" where
  "woken v t =
     t\<lparr>jt_point :=
         (if jt_heartbeat t = Beating then Awaiting_heartbeat (result_of v)
          else if finish_heartbeat (jt_heartbeat t) then Recording (result_of v)
          else Task_over Task_returned)\<rparr>"

definition heartbeat_awaited :: "task_point \<Rightarrow> bool" where
  "heartbeat_awaited p \<longleftrightarrow> p = Cancelling \<or> (\<exists>r. p = Awaiting_heartbeat r)"

section \<open>Steps\<close>

text \<open>
  \<open>calm\<close> leaves out two kinds of trouble: transactions of the task that raise, and executions that end
  with a \<open>CancelledError\<close> although nobody cancelled them.
\<close>

definition settles :: "bool \<Rightarrow> exn + 'a \<Rightarrow> bool" where
  "settles calm v \<longleftrightarrow> (calm \<longrightarrow> \<not> isl v)"

inductive task_step ::
  "bool \<Rightarrow> settings \<Rightarrow> string \<Rightarrow> job_row \<Rightarrow> job_task \<times> db \<Rightarrow> job_task \<times> db \<Rightarrow> bool"
  for calm :: bool and s :: settings and worker_id :: string and job :: job_row where
  t_executed: "jt_execution t = Executing c \<Longrightarrow>
    task_step calm s worker_id job (t, d)
      (t\<lparr>jt_execution := Executed (dispatch_job dispatcher expired started finished job)\<rparr>, d)"
| t_execution_cancelled: "jt_execution t = Executing c \<Longrightarrow> (calm \<longrightarrow> c) \<Longrightarrow>
    task_step calm s worker_id job (t, d) (t\<lparr>jt_execution := Execution_cancelled\<rparr>, d)"
| t_beat: "jt_point t = Awaiting_execution \<Longrightarrow> jt_heartbeat t = Beating \<Longrightarrow>
    transact e (extend_lease (j_id job) worker_id (worker_lease_seconds s)) d = (v, d') \<Longrightarrow> settles calm v \<Longrightarrow>
    task_step calm s worker_id job (t, d) (beaten v t, d')"
| t_beat_over: "jt_heartbeat t = Beating \<Longrightarrow> \<not> still_executing (jt_execution t) \<Longrightarrow>
    jt_point t = Awaiting_execution \<Longrightarrow>
    task_step calm s worker_id job (t, d) (t\<lparr>jt_heartbeat := Beat_done (Inr True)\<rparr>, d)"
| t_woken: "jt_point t = Awaiting_execution \<Longrightarrow> jt_execution t = Executed v \<Longrightarrow>
    task_step calm s worker_id job (t, d) (woken v t, d)"
| t_interrupted: "jt_point t = Awaiting_execution \<Longrightarrow> jt_execution t = Execution_cancelled \<Longrightarrow>
    task_step calm s worker_id job (t, d) (t\<lparr>jt_point := Cancelling\<rparr>, d)"
| t_heartbeat_cancelled: "heartbeat_awaited (jt_point t) \<Longrightarrow> jt_heartbeat t = Beating \<Longrightarrow>
    task_step calm s worker_id job (t, d) (t\<lparr>jt_heartbeat := Beat_cancelled\<rparr>, d)"
| t_last_beat: "heartbeat_awaited (jt_point t) \<Longrightarrow> jt_heartbeat t = Beating \<Longrightarrow>
    transact e (extend_lease (j_id job) worker_id (worker_lease_seconds s)) d = (v, d') \<Longrightarrow>
    task_step calm s worker_id job (t, d) (t\<lparr>jt_heartbeat := Beat_cancelled\<rparr>, d')"
| t_heartbeat_gone: "jt_point t = Awaiting_heartbeat r \<Longrightarrow> jt_heartbeat t \<noteq> Beating \<Longrightarrow>
    task_step calm s worker_id job (t, d) (t\<lparr>jt_point := Recording r\<rparr>, d)"
| t_record: "jt_point t = Recording r \<Longrightarrow>
    transact e (record_result JobRepository ch s worker_id job r) d = (v, d') \<Longrightarrow> settles calm v \<Longrightarrow>
    task_step calm s worker_id job (t, d)
      (t\<lparr>jt_point := Task_over (case v of Inl x \<Rightarrow> Task_failed x | Inr b \<Rightarrow> Task_returned)\<rparr>, d')"
| t_give_back: "jt_point t = Cancelling \<Longrightarrow> jt_heartbeat t \<noteq> Beating \<Longrightarrow>
    task_step calm s worker_id job (t, d) (t\<lparr>jt_point := Returning\<rparr>, d)"
| t_return: "jt_point t = Returning \<Longrightarrow>
    transact e (return_leased_job_to_pending (j_id job) worker_id) d = (v, d') \<Longrightarrow> settles calm v \<Longrightarrow>
    task_step calm s worker_id job (t, d) (t\<lparr>jt_point := Task_over Task_cancelled\<rparr>, d')"
| c_execution: "jt_cancel t \<Longrightarrow> jt_point t = Awaiting_execution \<Longrightarrow> still_executing (jt_execution t) \<Longrightarrow>
    task_step calm s worker_id job (t, d)
      (t\<lparr>jt_cancel := False, jt_execution := stop_execution (jt_execution t)\<rparr>, d)"
| c_waking: "jt_cancel t \<Longrightarrow> jt_point t = Awaiting_execution \<Longrightarrow> \<not> still_executing (jt_execution t) \<Longrightarrow>
    task_step calm s worker_id job (t, d) (t\<lparr>jt_cancel := False, jt_point := Cancelling\<rparr>, d)"
| c_swallowed: "jt_cancel t \<Longrightarrow> heartbeat_awaited (jt_point t) \<Longrightarrow>
    task_step calm s worker_id job (t, d) (t\<lparr>jt_cancel := False\<rparr>, d)"
| c_recording: "jt_cancel t \<Longrightarrow> jt_point t = Recording r \<Longrightarrow>
    d' \<in> {d, snd (transact e (record_result JobRepository ch s worker_id job r) d)} \<Longrightarrow>
    task_step calm s worker_id job (t, d) (t\<lparr>jt_cancel := False, jt_point := Cancelling\<rparr>, d')"
| c_returning: "jt_cancel t \<Longrightarrow> jt_point t = Returning \<Longrightarrow>
    d' \<in> {d, snd (transact e (return_leased_job_to_pending (j_id job) worker_id) d)} \<Longrightarrow>
    task_step calm s worker_id job (t, d)
      (t\<lparr>jt_cancel := False, jt_point := Task_over Task_cancelled\<rparr>, d')"

inductive_cases task_stepE: "task_step calm s w job (t, d) st"

section \<open>Every task ends\<close>

text \<open>
  Each step but a beat that finds the lease still held takes the task forward; the rank counts how
  much is left.
\<close>

fun point_rank :: "task_point \<Rightarrow> nat" where
  "point_rank Awaiting_execution = 5"
| "point_rank (Awaiting_heartbeat r) = 4"
| "point_rank (Recording r) = 3"
| "point_rank Cancelling = 2"
| "point_rank Returning = 1"
| "point_rank (Task_over how) = 0"

definition task_rank :: "job_task \<Rightarrow> nat" where
  "task_rank t =
     4 * point_rank (jt_point t) + of_bool (still_executing (jt_execution t)) +
     of_bool (jt_heartbeat t = Beating) + of_bool (jt_cancel t)"

lemma still_executing_simps [simp]:
  "still_executing (Executing c)" "\<not> still_executing (Executed v)" "\<not> still_executing Execution_cancelled"
  by (simp_all add: still_executing_def)

lemma still_executing_stop [simp]: "still_executing (stop_execution x) = still_executing x"
  by (simp add: still_executing_def stop_execution_def split: execution.split)

lemma stop_execution_simps [simp]:
  "stop_execution (Executing c) = Executing True" "stop_execution (Executed v) = Executed v"
  "stop_execution Execution_cancelled = Execution_cancelled"
  by (simp_all add: stop_execution_def)

lemma task_rank_point:
  "point_rank (jt_point t') < point_rank (jt_point t) \<Longrightarrow> task_rank t' < task_rank t"
  by (auto simp: task_rank_def of_bool_def)

lemma heartbeat_awaited_simps [simp]:
  "heartbeat_awaited Cancelling" "heartbeat_awaited (Awaiting_heartbeat r)"
  "\<not> heartbeat_awaited Awaiting_execution" "\<not> heartbeat_awaited (Recording r)"
  "\<not> heartbeat_awaited Returning" "\<not> heartbeat_awaited (Task_over how)"
  by (simp_all add: heartbeat_awaited_def)

lemma beaten_rank: "jt_heartbeat t = Beating \<Longrightarrow> task_rank (beaten v t) < task_rank t \<or> beaten v t = t"
  by (cases "(v, t)" rule: beaten.cases) (simp_all add: task_rank_def)

lemma task_step_rank:
  "task_step calm s w job st st' \<Longrightarrow> task_rank (fst st') < task_rank (fst st) \<or> fst st' = fst st"
proof (induction rule: task_step.induct)
  case (t_beat t e d v d')
  then show ?case using beaten_rank by simp
next
  case (t_woken t v d)
  then show ?case by (auto simp: woken_def intro: task_rank_point)
next
  case (c_swallowed t d)
  then show ?case by (simp add: task_rank_def)
qed (simp_all add: task_rank_def)

lemma forward:
  "task_step False s w job (t, d) (t', d') \<Longrightarrow> task_rank t' < task_rank t \<Longrightarrow>
    \<exists>t' d'. task_step False s w job (t, d) (t', d') \<and> task_rank t' < task_rank t"
  by blast

lemma task_moves:
  assumes "\<not> is_over (jt_point t)"
  shows "\<exists>t' d'. task_step False s w job (t, d) (t', d') \<and> task_rank t' < task_rank t"
proof (cases "jt_point t")
  case Awaiting_execution
  show ?thesis
  proof (cases "jt_execution t")
    case (Executing c)
    show ?thesis
      by (rule forward [OF t_execution_cancelled [OF Executing]]) (simp_all add: Executing task_rank_def)
  next
    case (Executed v)
    show ?thesis
      by (rule forward [OF t_woken [OF Awaiting_execution Executed]], rule task_rank_point)
        (simp add: Awaiting_execution woken_def)
  next
    case Execution_cancelled
    show ?thesis
      by (rule forward [OF t_interrupted [OF Awaiting_execution Execution_cancelled]], rule task_rank_point)
        (simp add: Awaiting_execution)
  qed
next
  case (Awaiting_heartbeat r)
  show ?thesis
  proof (cases "jt_heartbeat t = Beating")
    case True
    show ?thesis
      by (rule forward [OF t_heartbeat_cancelled [OF _ True]]) (simp_all add: Awaiting_heartbeat True task_rank_def)
  next
    case False
    show ?thesis
      by (rule forward [OF t_heartbeat_gone [OF Awaiting_heartbeat False]], rule task_rank_point)
        (simp add: Awaiting_heartbeat)
  qed
next
  case (Recording r)
  show ?thesis
    by (rule forward [OF t_record [OF Recording prod.collapse [symmetric]]])
      (simp add: settles_def, rule task_rank_point, simp add: Recording)
next
  case Cancelling
  show ?thesis
  proof (cases "jt_heartbeat t = Beating")
    case True
    show ?thesis
      by (rule forward [OF t_heartbeat_cancelled [OF _ True]]) (simp_all add: Cancelling True task_rank_def)
  next
    case False
    show ?thesis
      by (rule forward [OF t_give_back [OF Cancelling False]], rule task_rank_point) (simp add: Cancelling)
  qed
next
  case Returning
  show ?thesis
    by (rule forward [OF t_return [OF Returning prod.collapse [symmetric]]])
      (simp add: settles_def, rule task_rank_point, simp add: Returning)
next
  case (Task_over how)
  with assms show ?thesis by simp
qed

section \<open>What a task does to the database\<close>

lemma task_step_wf: "task_step calm s w job st st' \<Longrightarrow> wf_db (snd st) \<Longrightarrow> wf_db (snd st')"
proof (induction rule: task_step.induct)
  case (t_beat t e d v d')
  then show ?case using transact_keeps [OF keeps_extend_lease, of d e "j_id job" w "worker_lease_seconds s"] by simp
next
  case (t_last_beat t e d v d')
  then show ?case using transact_keeps [OF keeps_extend_lease, of d e "j_id job" w "worker_lease_seconds s"] by simp
next
  case (t_record t r e ch d v d')
  then show ?case using transact_keeps [OF pg_leases.record_result_wf, of d e ch s w job r] by simp
next
  case (t_return t e d v d')
  then show ?case using transact_keeps [OF keeps_return_leased, of d e "j_id job" w] by simp
next
  case (c_recording t r d' d e ch)
  then show ?case using transact_keeps [OF pg_leases.record_result_wf, of d e ch s w job r] by auto
next
  case (c_returning t d' d e)
  then show ?case using transact_keeps [OF keeps_return_leased, of d e "j_id job" w] by auto
qed simp_all

text \<open>No step of a task acquires a lease.\<close>

lemma extend_keeps_unheld:
  "\<not> holds_lease i w d \<Longrightarrow> \<not> holds_lease i w (snd (transact e (extend_lease k v n) d))"
proof (rule transact_cases [OF uncommitted_state_ops(1)])
  fix x t assume no: "\<not> holds_lease i w d" and t: "extend_lease k v n (open_session e d) = (Inr x, t)"
  from extend_lease_Inr(2) [OF t, unfolded open_session_simps] no show "\<not> holds_lease i w (working t)"
    by (auto simp: holds_lease_def set_upd_where)
qed

lemma task_step_keeps_unheld:
  "task_step calm s w job st st' \<Longrightarrow> \<not> holds_lease i v (snd st) \<Longrightarrow> \<not> holds_lease i v (snd st')"
proof (induction rule: task_step.induct)
  case (t_beat t e d r d')
  then show ?case using extend_keeps_unheld [of i v d e "j_id job" w "worker_lease_seconds s"] by simp
next
  case (t_last_beat t e d r d')
  then show ?case using extend_keeps_unheld [of i v d e "j_id job" w "worker_lease_seconds s"] by simp
next
  case (t_record t r e ch d u d')
  then show ?case using record_keeps_unheld [of i v d e ch s w job r] by simp
next
  case (t_return t e d u d')
  then show ?case using return_keeps_unheld [of i v d e "j_id job" w] by simp
next
  case (c_recording t r d' d e ch)
  then show ?case using record_keeps_unheld [of i v d e ch s w job r] by auto
next
  case (c_returning t d' d e)
  then show ?case using return_keeps_unheld [of i v d e "j_id job" w] by auto
qed simp_all

section \<open>A lost lease is never recorded over\<close>

definition task_ok :: "job_task \<Rightarrow> bool" where
  "task_ok t \<longleftrightarrow>
     (case jt_point t of
        Awaiting_execution \<Rightarrow> jt_heartbeat t \<noteq> Beat_cancelled
      | Awaiting_heartbeat r \<Rightarrow>
          (\<exists>v. jt_execution t = Executed v \<and> r = result_of v) \<and> jt_heartbeat t \<in> {Beating, Beat_cancelled}
      | Recording r \<Rightarrow>
          (\<exists>v. jt_execution t = Executed v \<and> r = result_of v) \<and>
          jt_heartbeat t \<in> {Beat_cancelled, Beat_done (Inr True)}
      | _ \<Rightarrow> \<not> still_executing (jt_execution t) \<and> (jt_point t = Cancelling \<or> jt_heartbeat t \<noteq> Beating))"

lemma task_ok_new: "task_ok new_task"
  by (simp add: task_ok_def new_task_def)

lemma finish_heartbeat_True: "finish_heartbeat hb \<longleftrightarrow> hb = Beating \<or> hb = Beat_done (Inr True)"
  by (cases hb rule: finish_heartbeat.cases) auto

lemma task_step_ok: "task_step calm s w job st st' \<Longrightarrow> task_ok (fst st) \<Longrightarrow> task_ok (fst st')"
proof (induction rule: task_step.induct)
  case (t_beat t e d v d')
  then show ?case
    by (cases "(v, t)" rule: beaten.cases) (simp_all add: task_ok_def)
next
  case (t_woken t v d)
  then show ?case by (auto simp: task_ok_def woken_def finish_heartbeat_True)
qed (auto simp: task_ok_def heartbeat_awaited_def split: task_point.splits)

section \<open>The big-step account\<close>

text \<open>How the heartbeat stands after beats that ended with \<open>v\<close>, when it is not cancelled.\<close>

definition heartbeat_left :: "heartbeat_state \<Rightarrow> exn + bool \<Rightarrow> bool" where
  "heartbeat_left hb v \<longleftrightarrow> hb = Beating \<and> v = Inr True \<or> hb = Beat_done v"

abbreviation beats :: "settings \<Rightarrow> string \<Rightarrow> job_row \<Rightarrow> env list \<Rightarrow> db \<Rightarrow> (exn + bool) \<times> db" where
  "beats s w job es d \<equiv> run_lease_heartbeat JobRepository s (j_id job) w es d"

lemma beats_snoc:
  assumes "fst (beats s w job es d) = Inr True"
  shows "beats s w job (es @ [e]) d =
    transact e (extend_lease (j_id job) w (worker_lease_seconds s)) (snd (beats s w job es d))"
  using assms
proof (induction es arbitrary: d)
  case Nil
  show ?case by (auto split: prod.split sum.split)
next
  case (Cons f es)
  obtain v d1 where t: "transact f (extend_lease (j_id job) w (worker_lease_seconds s)) d = (v, d1)"
    by (cases "transact f (extend_lease (j_id job) w (worker_lease_seconds s)) d")
  from Cons.prems t have "v = Inr True" by (cases v) (auto split: if_splits)
  with Cons t show ?case by simp
qed

text \<open>The databases a task may have left when its beats are over, when it has recorded, when it ends.\<close>

definition beaten_db ::
  "settings \<Rightarrow> string \<Rightarrow> job_row \<Rightarrow> db \<Rightarrow> heartbeat_state \<Rightarrow> db \<Rightarrow> bool" where
  "beaten_db s w job d0 hb d \<longleftrightarrow>
     (\<exists>es. d = snd (beats s w job es d0) \<and> heartbeat_left hb (fst (beats s w job es d0)))"

definition recorded_db :: "settings \<Rightarrow> string \<Rightarrow> job_row \<Rightarrow> db \<Rightarrow> db \<Rightarrow> bool" where
  "recorded_db s w job d0 d \<longleftrightarrow>
     (\<exists>d1 ch v e. beaten_db s w job d0 Beating d1 \<and>
        d = snd (transact e (record_result JobRepository ch s w job (result_of v)) d1))"

definition closed_db :: "settings \<Rightarrow> string \<Rightarrow> job_row \<Rightarrow> db \<Rightarrow> db \<Rightarrow> bool" where
  "closed_db s w job d0 d \<longleftrightarrow>
     (\<exists>d1 ch ex hb e. beaten_db s w job d0 hb d1 \<and> d = execute_job JobRepository ch s w job ex hb e d1)"

lemma beaten_db_start: "beaten_db s w job d Beating d"
  unfolding beaten_db_def by (rule exI [of _ "[]"]) (simp add: heartbeat_left_def)

lemma beaten_db_beat:
  assumes "beaten_db s w job d0 Beating d"
    and "transact e (extend_lease (j_id job) w (worker_lease_seconds s)) d = (v, d')"
  shows "beaten_db s w job d0 (Beat_done v) d'" and "v = Inr True \<Longrightarrow> beaten_db s w job d0 Beating d'"
proof -
  from assms(1) obtain es where es: "d = snd (beats s w job es d0)" "fst (beats s w job es d0) = Inr True"
    by (auto simp: beaten_db_def heartbeat_left_def)
  from beats_snoc [OF es(2), of e] assms(2) es(1) have b: "beats s w job (es @ [e]) d0 = (v, d')" by simp
  show "beaten_db s w job d0 (Beat_done v) d'"
    unfolding beaten_db_def by (rule exI [of _ "es @ [e]"]) (simp only: b, simp add: heartbeat_left_def)
  show "beaten_db s w job d0 Beating d'" if "v = Inr True"
    unfolding beaten_db_def by (rule exI [of _ "es @ [e]"]) (simp only: b, simp add: heartbeat_left_def that)
qed

lemma beaten_db_done: "beaten_db s w job d0 Beating d \<Longrightarrow> beaten_db s w job d0 (Beat_done (Inr True)) d"
  by (auto simp: beaten_db_def heartbeat_left_def)

lemma beaten_db_alive: "beaten_db s w job d0 (Beat_done (Inr True)) d \<Longrightarrow> beaten_db s w job d0 Beating d"
  by (auto simp: beaten_db_def heartbeat_left_def)

text \<open>A beat that is not answered by a held lease changes nothing.\<close>

lemma extend_not_held:
  assumes "transact e (extend_lease i w n) d = (v, d')" and "v \<noteq> Inr True"
  shows "d' = d"
proof (cases v)
  case (Inl x)
  with assms(1) transact_Inl_same [OF uncommitted_state_ops(1)] show ?thesis by simp
next
  case (Inr b)
  with assms obtain t where "extend_lease i w n (open_session e d) = (Inr False, t)" "d' = working t"
    by (auto elim!: transact_InrD)
  with extend_lease_Inr(3) [of i w n "open_session e d" False t] show ?thesis by simp
qed

lemma beaten_db_last_beat:
  assumes "beaten_db s w job d0 Beating d"
    and "transact e (extend_lease (j_id job) w (worker_lease_seconds s)) d = (v, d')"
  shows "beaten_db s w job d0 Beating d'"
  using beaten_db_beat(2) [OF assms] extend_not_held [OF assms(2)] assms(1) by (cases "v = Inr True") auto

lemma closed_record:
  "beaten_db s w job d0 Beating d \<Longrightarrow>
    closed_db s w job d0 (snd (transact e (record_result JobRepository ch s w job (result_of v)) d))"
  unfolding closed_db_def
  by (intro exI [of _ d] exI [of _ ch] exI [of _ "Finished v"] exI [of _ Beating] exI [of _ e])
    (simp add: execute_job_def)

lemma closed_lost: "beaten_db s w job d0 hb d \<Longrightarrow> \<not> finish_heartbeat hb \<Longrightarrow> closed_db s w job d0 d"
  unfolding closed_db_def
  by (intro exI [of _ d] exI [of _ undefined] exI [of _ "Finished v" for v] exI [of _ hb] exI [of _ undefined])
    (simp add: execute_job_def)

definition given_up_db :: "settings \<Rightarrow> string \<Rightarrow> job_row \<Rightarrow> db \<Rightarrow> db \<Rightarrow> bool" where
  "given_up_db s w job d0 d \<longleftrightarrow> (\<exists>hb. beaten_db s w job d0 hb d) \<or> recorded_db s w job d0 d"

lemma closed_return:
  assumes "given_up_db s w job d0 d"
  shows "closed_db s w job d0 (snd (transact e (return_leased_job_to_pending (j_id job) w) d))"
  using assms unfolding given_up_db_def
proof
  assume "\<exists>hb. beaten_db s w job d0 hb d"
  then obtain hb where "beaten_db s w job d0 hb d" ..
  then show ?thesis
    unfolding closed_db_def
    by (intro exI [of _ d] exI [of _ undefined] exI [of _ Cancelled_execution] exI [of _ hb] exI [of _ e])
      (simp add: execute_job_def)
next
  assume "recorded_db s w job d0 d"
  then obtain d1 ch v e' where r: "beaten_db s w job d0 Beating d1"
      "d = snd (transact e' (record_result JobRepository ch s w job (result_of v)) d1)"
    by (auto simp: recorded_db_def)
  then show ?thesis
    unfolding closed_db_def
    by (intro exI [of _ d1] exI [of _ ch] exI [of _ "Cancelled_after_recording v e'"] exI [of _ Beating] exI [of _ e])
      (simp add: execute_job_def)
qed

text \<open>A return that was interrupted before its commit is one the server failed.\<close>

definition dead_env :: env where
  "dead_env = \<lparr>e_now = 0, e_ids = (\<lambda>_ _. 0), e_faults = (\<lambda>_. True), e_locked = (\<lambda>_. False)\<rparr>"

lemma return_dead_env: "snd (transact dead_env (return_leased_job_to_pending i w) d) = d"
proof -
  have "\<exists>x. fst (transact dead_env (return_leased_job_to_pending i w) d) = Inl x"
    by (simp add: transact_def get_session_def return_leased_job_to_pending_def catch_sql_def bind_tx_def
        execute_def Let_def dead_env_def)
  then show ?thesis using transact_raise [OF uncommitted_state_ops(2)] by blast
qed

definition accounted :: "settings \<Rightarrow> string \<Rightarrow> job_row \<Rightarrow> db \<Rightarrow> job_task \<Rightarrow> db \<Rightarrow> bool" where
  "accounted s w job d0 t d \<longleftrightarrow>
     (case jt_point t of
        Awaiting_execution \<Rightarrow> beaten_db s w job d0 (jt_heartbeat t) d
      | Awaiting_heartbeat r \<Rightarrow> beaten_db s w job d0 Beating d
      | Recording r \<Rightarrow> beaten_db s w job d0 Beating d
      | Cancelling \<Rightarrow>
          if jt_heartbeat t = Beating then beaten_db s w job d0 Beating d else given_up_db s w job d0 d
      | Returning \<Rightarrow> given_up_db s w job d0 d
      | Task_over how \<Rightarrow> closed_db s w job d0 d)"

lemma given_up_beaten: "beaten_db s w job d0 hb d \<Longrightarrow> given_up_db s w job d0 d"
  by (auto simp: given_up_db_def)

lemma given_up_recorded:
  "beaten_db s w job d0 Beating d \<Longrightarrow>
    given_up_db s w job d0 (snd (transact e (record_result JobRepository ch s w job (result_of v)) d))"
  unfolding given_up_db_def recorded_db_def by blast

lemma task_step_accounted:
  "task_step calm s w job st st' \<Longrightarrow> task_ok (fst st) \<Longrightarrow> accounted s w job d0 (fst st) (snd st) \<Longrightarrow>
    accounted s w job d0 (fst st') (snd st')"
proof (induction rule: task_step.induct)
  case (t_beat t e d v d')
  then show ?case
    using beaten_db_beat [of s w job d0 d e v d']
    by (cases "(v, t)" rule: beaten.cases) (simp_all add: accounted_def)
next
  case (t_beat_over t d)
  then show ?case by (simp add: accounted_def beaten_db_done)
next
  case (t_woken t v d)
  then show ?case
    by (auto simp: accounted_def woken_def finish_heartbeat_True dest: beaten_db_alive closed_lost)
next
  case (t_interrupted t d)
  then show ?case by (auto simp: accounted_def intro: given_up_beaten)
next
  case (t_heartbeat_cancelled t d)
  then show ?case by (auto simp: accounted_def heartbeat_awaited_def intro: given_up_beaten)
next
  case (t_last_beat t e d v d')
  then show ?case
    using beaten_db_last_beat [of s w job d0 d e v d']
    by (auto simp: accounted_def heartbeat_awaited_def intro: given_up_beaten)
next
  case (t_record t r e ch d v d')
  from t_record.prems(1) t_record.hyps(1) obtain u where "r = result_of u" by (auto simp: task_ok_def)
  with t_record closed_record [of s w job d0 d e ch u] show ?case by (simp add: accounted_def)
next
  case (t_return t e d v d')
  then show ?case using closed_return [of s w job d0 d e] by (simp add: accounted_def)
next
  case (c_waking t d)
  then show ?case by (auto simp: accounted_def intro: given_up_beaten)
next
  case (c_recording t r d' d e ch)
  from c_recording.prems(1) c_recording.hyps(2) obtain u where r: "r = result_of u" and "jt_heartbeat t \<noteq> Beating"
    by (auto simp: task_ok_def)
  with c_recording given_up_recorded [of s w job d0 d e ch u] show ?case
    by (auto simp: accounted_def intro: given_up_beaten)
next
  case (c_returning t d' d e)
  then show ?case
    using closed_return [of s w job d0 d e] closed_return [of s w job d0 d dead_env]
    by (auto simp: accounted_def return_dead_env)
qed (auto simp: accounted_def heartbeat_awaited_def split: task_point.splits)

section \<open>A task on its own\<close>

text \<open>The runs of a task nobody interferes with, except that it may be cancelled.\<close>

inductive task_run :: "settings \<Rightarrow> string \<Rightarrow> job_row \<Rightarrow> db \<Rightarrow> job_task \<times> db \<Rightarrow> bool"
  for s :: settings and worker_id :: string and job :: job_row and d0 :: db where
  r_start: "task_run s worker_id job d0 (new_task, d0)"
| r_step: "task_run s worker_id job d0 st \<Longrightarrow> task_step calm s worker_id job st st' \<Longrightarrow> task_run s worker_id job d0 st'"
| r_cancel: "task_run s worker_id job d0 (t, d) \<Longrightarrow> task_run s worker_id job d0 (cancel_task t, d)"

lemma cancel_task_ok: "task_ok (cancel_task t) = task_ok t"
  by (simp add: task_ok_def cancel_task_def split: task_point.split)

lemma cancel_task_accounted: "accounted s w job d0 (cancel_task t) d = accounted s w job d0 t d"
  by (simp add: accounted_def cancel_task_def split: task_point.split)

lemma task_run_accounted:
  "task_run s w job d0 st \<Longrightarrow> task_ok (fst st) \<and> accounted s w job d0 (fst st) (snd st)"
proof (induction rule: task_run.induct)
  case r_start
  show ?case by (simp add: task_ok_new, simp add: accounted_def new_task_def beaten_db_start)
next
  case (r_step st calm st')
  then show ?case using task_step_ok task_step_accounted by blast
next
  case (r_cancel t d)
  then show ?case by (simp add: cancel_task_ok cancel_task_accounted)
qed

section \<open>Tasks that answer for a lease\<close>

text \<open>
  A task answers for the lease of its job when, as long as its transactions succeed, it cannot end
  without one that gives the lease up. It does so unless it has learnt that the lease is lost, or is
  already giving the job back when another cancellation is on its way.
\<close>

definition told_to_stop :: "execution \<Rightarrow> bool" where
  "told_to_stop x \<longleftrightarrow> x = Executing True \<or> x = Execution_cancelled"

definition answerable :: "job_task \<Rightarrow> bool" where
  "answerable t \<longleftrightarrow>
     jt_heartbeat t \<noteq> Beat_done (Inr False) \<and>
     (case jt_point t of
        Awaiting_execution \<Rightarrow>
          jt_heartbeat t \<in> {Beating, Beat_done (Inr True)} \<and> (jt_cancel t \<longrightarrow> \<not> told_to_stop (jt_execution t))
      | Awaiting_heartbeat r \<Rightarrow> True
      | Recording r \<Rightarrow> True
      | Cancelling \<Rightarrow> \<not> jt_cancel t
      | Returning \<Rightarrow> \<not> jt_cancel t
      | Task_over how \<Rightarrow> False)"

text \<open>Before the shutdown only a lost lease makes a task turn back.\<close>

definition undisturbed :: "job_task \<Rightarrow> bool" where
  "undisturbed t \<longleftrightarrow>
     \<not> jt_cancel t \<and>
     (jt_heartbeat t = Beat_done (Inr False) \<or>
      \<not> told_to_stop (jt_execution t) \<and> jt_point t \<noteq> Cancelling \<and> jt_point t \<noteq> Returning)"

lemma new_task_answerable: "answerable new_task" and new_task_undisturbed: "undisturbed new_task"
  by (simp_all add: answerable_def undisturbed_def new_task_def told_to_stop_def)

lemma answerable_not_over: "answerable t \<Longrightarrow> \<not> is_over (jt_point t)"
  by (auto simp: answerable_def split: task_point.splits)

lemma cancel_task_answerable: "undisturbed t \<Longrightarrow> answerable t \<Longrightarrow> answerable (cancel_task t)"
  by (auto simp: answerable_def undisturbed_def cancel_task_def split: task_point.splits)

lemma undisturbed_step:
  "task_step True s w job st st' \<Longrightarrow> undisturbed (fst st) \<Longrightarrow> undisturbed (fst st')"
proof (induction rule: task_step.induct)
  case (t_beat t e d v d')
  then show ?case by (cases "(v, t)" rule: beaten.cases) (simp_all add: undisturbed_def settles_def)
next
  case (t_woken t v d)
  then show ?case by (auto simp: undisturbed_def woken_def)
qed (auto simp: undisturbed_def told_to_stop_def heartbeat_awaited_def)

lemma recorded_gives_up:
  assumes "transact e (record_result JobRepository ch s w job r) d = (v, d')" and "settles True v"
  shows "\<not> holds_lease (j_id job) w d'"
proof -
  from assms obtain b t where t: "record_result JobRepository ch s w job r (open_session e d) = (Inr b, t)"
    and d': "d' = working t"
    by (cases v) (auto simp: settles_def elim!: transact_InrD)
  from record_result_upd [OF t] show ?thesis
    unfolding d' using not_held_after_upd by fastforce
qed

lemma returned_gives_up:
  assumes "transact e (return_leased_job_to_pending i w) d = (v, d')" and "settles True v"
  shows "\<not> holds_lease i w d'"
proof -
  from assms obtain b t where t: "return_leased_job_to_pending i w (open_session e d) = (Inr b, t)"
    and d': "d' = working t"
    by (cases v) (auto simp: settles_def elim!: transact_InrD)
  from return_leased_Inr(2) [OF t] show ?thesis
    unfolding d' by (rule not_held_after_upd) simp
qed

lemma extend_False_not_held:
  assumes "transact e (extend_lease i w n) d = (Inr False, d')"
  shows "\<not> holds_lease i w d'"
proof -
  from assms obtain t where t: "extend_lease i w n (open_session e d) = (Inr False, t)" by (rule transact_InrD)
  from extend_lease_Inr(1) [OF t] extend_not_held [OF assms] show ?thesis by simp
qed

lemma answerable_step:
  "task_step True s w job st st' \<Longrightarrow> answerable (fst st) \<Longrightarrow> holds_lease (j_id job) w (snd st') \<Longrightarrow>
    answerable (fst st')"
proof (induction rule: task_step.induct)
  case (t_executed t c d dispatcher expired started finished)
  then show ?case by (auto simp: answerable_def told_to_stop_def split: task_point.splits)
next
  case (t_execution_cancelled t c d)
  then show ?case by (auto simp: answerable_def told_to_stop_def split: task_point.splits)
next
  case (t_beat t e d v d')
  then show ?case
    by (cases "(v, t)" rule: beaten.cases) (simp_all add: settles_def extend_False_not_held)
next
  case (t_beat_over t d)
  then show ?case by (simp add: answerable_def)
next
  case (t_woken t v d)
  then show ?case by (auto simp: answerable_def woken_def)
next
  case (t_interrupted t d)
  then show ?case by (simp add: answerable_def told_to_stop_def)
next
  case (t_record t r e ch d v d')
  then show ?case using recorded_gives_up [of e ch s w job r d v d'] by simp
next
  case (t_return t e d v d')
  then show ?case using returned_gives_up [of e "j_id job" w d v d'] by simp
next
  case (c_execution t d)
  then show ?case by (simp add: answerable_def)
qed (auto simp: answerable_def heartbeat_awaited_def split: task_point.splits)

end
