(* ===== verification/Process.thy ===== *)
theory Process imports Job_Task begin

text \<open>
  A worker process from \<open>WorkerRunner.run\<close> to its return: registering, the claim loop, the tasks of the
  claimed jobs at the granularity of \<open>Job_Task\<close>, the purge loop, the stop request and the shutdown,
  interleaved with the transactions of everyone else.
\<close>

section \<open>Transactions of others\<close>

text \<open>Worker ids are drawn at random, so nobody else leases a job to this worker.\<close>

definition foreign_step :: "string \<Rightarrow> db \<Rightarrow> db \<Rightarrow> bool" where
  "foreign_step w d d' \<longleftrightarrow> repo_step False d d' \<and> (\<forall>i. holds_lease i w d' \<longrightarrow> holds_lease i w d)"

named_theorems unheld_intros \<open>transactions that acquire no lease for a worker\<close>

lemma unheld_same_jobs: "jobs d' = jobs d \<Longrightarrow> \<not> holds_lease i w d \<Longrightarrow> \<not> holds_lease i w d'"
  by (simp add: holds_lease_def)

lemma unheld_upd_where:
  assumes "\<not> holds_lease i w d" and "jobs d' = upd_where p f (jobs d)"
    and "\<And>j. p j \<Longrightarrow> j_locked_by (f j) \<noteq> Some w \<or> j_status (f j) \<noteq> Leased"
  shows "\<not> holds_lease i w d'"
  using assms by (auto simp: holds_lease_def set_upd_where)

lemma unheld_insert [unheld_intros]:
  assumes "wf_db d" and "\<not> holds_lease i w d"
  shows "\<not> holds_lease i w (snd (transact e (insert_job p) d))"
proof (rule transact_cases [OF uncommitted_job_ops(1)])
  fix x t assume ins: "insert_job p (open_session e d) = (Inr x, t)"
  obtain j b where x: "x = (j, b)" by (cases x)
  show "\<not> holds_lease i w (working t)"
  proof (cases b)
    case True
    with ins x have "insert_job p (open_session e d) = (Inr (j, True), t)" by simp
    from insert_job_created(1,2) [OF this] assms show ?thesis by (auto simp: holds_lease_def)
  next
    case False
    with ins x have "insert_job p (open_session e d) = (Inr (j, False), t)" by simp
    from insert_job_existing(1) [OF this] assms show ?thesis by (simp add: holds_lease_def)
  qed
qed (rule assms(2))

lemma unheld_claim [unheld_intros]:
  assumes "wf_db d" and "\<not> holds_lease i w d" and "v \<noteq> w"
  shows "\<not> holds_lease i w (snd (transact e (claim_jobs v names n ls) d))"
proof (rule transact_cases [OF uncommitted_job_ops(4)])
  fix x t assume cl: "claim_jobs v names n ls (open_session e d) = (Inr x, t)"
  have wf: "wf_db (working (open_session e d))" using assms(1) by simp
  from claim_jobs_Inr(1) [OF wf cl, unfolded open_session_simps] show "\<not> holds_lease i w (working t)"
    by (rule unheld_upd_where [OF assms(2)]) (simp add: lease_job_def assms(3))
qed (rule assms(2))

lemma unheld_complete [unheld_intros]:
  assumes "\<not> holds_lease i w d"
  shows "\<not> holds_lease i w (snd (transact e (complete_job job v ms r prev) d))"
proof (rule transact_cases [OF uncommitted_state_ops(3)])
  fix x t assume "complete_job job v ms r prev (open_session e d) = (Inr x, t)"
  from complete_job_Inr(2) [OF this, unfolded open_session_simps] show "\<not> holds_lease i w (working t)"
    by (rule unheld_upd_where [OF assms]) (simp add: completed_def)
qed (rule assms)

lemma unheld_fail [unheld_intros]:
  assumes "\<not> holds_lease i w d"
  shows "\<not> holds_lease i w (snd (transact e (fail_job job v rt timed_out delay ms et em r prev) d))"
proof (rule transact_cases [OF uncommitted_state_ops(4)])
  fix x t assume "fail_job job v rt timed_out delay ms et em r prev (open_session e d) = (Inr x, t)"
  from fail_job_Inr(2) [OF this, unfolded open_session_simps] show "\<not> holds_lease i w (working t)"
    by (rule unheld_upd_where [OF assms]) (simp add: failed_def)
qed (rule assms)

lemma unheld_recover [unheld_intros]:
  assumes "wf_db d" and "\<not> holds_lease i w d"
  shows "\<not> holds_lease i w (snd (transact e (recover_expired_leases n) d))"
proof (rule transact_cases [OF uncommitted_state_ops(5)])
  fix x t assume rec: "recover_expired_leases n (open_session e d) = (Inr x, t)"
  have wf: "wf_db (working (open_session e d))" using assms(1) by simp
  from recover_expired_leases_Inr(2) [OF rec wf, unfolded open_session_simps] show "\<not> holds_lease i w (working t)"
    by (rule unheld_upd_where [OF assms(2)]) (simp add: recover_job_def Let_def)
qed (rule assms(2))

lemma unheld_cancel [unheld_intros]:
  assumes "\<not> holds_lease i w d"
  shows "\<not> holds_lease i w (snd (transact e (cancel_pending_job k) d))"
proof (rule transact_cases [OF uncommitted_state_ops(6)])
  fix x t assume "cancel_pending_job k (open_session e d) = (Inr x, t)"
  from cancel_pending_job_Inr(3) [OF this, unfolded open_session_simps] show "\<not> holds_lease i w (working t)"
    by (rule unheld_upd_where [OF assms]) (simp add: cancelled_def)
qed (rule assms)

lemma unheld_purge [unheld_intros]:
  assumes "\<not> holds_lease i w d"
  shows "\<not> holds_lease i w (snd (transact e (purge_jobs sd dd n) d))"
proof (rule transact_cases [OF uncommitted_state_ops(7)])
  fix x t assume "purge_jobs sd dd n (open_session e d) = (Inr x, t)"
  from purge_jobs_Inr(1) [OF this] assms show "\<not> holds_lease i w (working t)"
    by (auto simp: holds_lease_def forget_source_def split: option.splits if_splits)
qed (rule assms)

lemma unheld_transact_jobs:
  assumes "uncommitted m" and "\<And>x t. m (open_session e d) = (Inr x, t) \<Longrightarrow> jobs (working t) = jobs d"
    and "\<not> holds_lease i w d"
  shows "\<not> holds_lease i w (snd (transact e m d))"
  by (rule transact_cases [OF assms(1)]) (rule assms(3), rule unheld_same_jobs [OF assms(2) assms(3)])

lemma unheld_upsert_queue [unheld_intros]:
  "\<not> holds_lease i w d \<Longrightarrow> \<not> holds_lease i w (snd (transact e (upsert_queue q) d))"
  by (rule unheld_transact_jobs [OF uncommitted_queue_ops(2)]) (auto dest!: upsert_queue_frame(1))

lemma unheld_update_queue [unheld_intros]:
  "\<not> holds_lease i w d \<Longrightarrow> \<not> holds_lease i w (snd (transact e (update_queue q paused limit) d))"
  by (rule unheld_transact_jobs [OF uncommitted_queue_ops(3)]) (auto dest!: update_queue_Inr(5))

lemma unheld_register [unheld_intros]:
  "\<not> holds_lease i w d \<Longrightarrow> \<not> holds_lease i w (snd (transact e (register_worker v qs host) d))"
  by (rule unheld_transact_jobs [OF uncommitted_register_worker]) (auto dest!: register_worker_Inr(1))

lemma unheld_heartbeat [unheld_intros]:
  "\<not> holds_lease i w d \<Longrightarrow> \<not> holds_lease i w (snd (transact e (heartbeat_worker v qs host) d))"
  by (rule unheld_transact_jobs [OF uncommitted_heartbeat_worker]) (auto dest!: heartbeat_worker_Inr(1))

lemma unheld_scan_order: "mset js = mset (jobs d) \<Longrightarrow> \<not> holds_lease i w d \<Longrightarrow> \<not> holds_lease i w (d\<lparr>jobs := js\<rparr>)"
  using mset_eq_setD by (fastforce simp: holds_lease_def)

text \<open>Only a claim under the worker's own id is not a step of others.\<close>

lemma repo_step_foreign:
  assumes "repo_step strict d d'" and "wf_db d"
  shows "foreign_step w d d' \<or> (\<exists>e names n ls. d' = snd (transact e (claim_jobs w names n ls) d))"
proof -
  have "(\<forall>i. \<not> holds_lease i w d \<longrightarrow> \<not> holds_lease i w d') \<or>
      (\<exists>e names n ls. d' = snd (transact e (claim_jobs w names n ls) d))"
    using assms
  proof (induction rule: repo_step.induct)
    case (s_claim d e v names n ls)
    then show ?case by (cases "v = w") (auto simp: unheld_intros)
  next
    case (s_scan_order js d)
    then show ?case by (simp add: unheld_scan_order)
  qed (simp_all add: unheld_intros extend_keeps_unheld return_keeps_unheld)
  moreover have "repo_step False d d'"
    using assms(1) by (induction rule: repo_step.induct) (simp_all add: repo_step.intros)
  ultimately show ?thesis by (auto simp: foreign_step_def)
qed

section \<open>The process\<close>

text \<open>
  Where \<open>run\<close> stands: registering the worker; at the head of the claim loop, or between the loop's two
  transactions; in the \<open>finally\<close> clause, waiting for the purge loop to end, for the tasks during the
  grace period, and for the tasks it has cancelled; and returned.
\<close>

datatype run_phase =
    Registering
  | Loop_head
  | Loop_claim
  | Stopping_purge
  | Draining
  | Cancelling_tasks
  | Stopped

record process =
  pr_phase :: run_phase
  pr_runner :: runner
  pr_tasks :: "nat \<Rightarrow> job_task"

definition new_process :: process where
  "new_process =
     \<lparr>pr_phase = Registering, pr_runner = \<lparr>rn_stopping = False, rn_inflight = [], rn_next_task = 0\<rparr>,
      pr_tasks = (\<lambda>_. new_task)\<rparr>"

abbreviation inflight :: "process \<Rightarrow> (nat \<times> job_row) list" where
  "inflight p \<equiv> rn_inflight (pr_runner p)"

text \<open>The \<open>finally\<close> clause: the stop request, whatever ended the loop, and the end of the purge loop.\<close>

definition leave_loop :: "process \<Rightarrow> process" where
  "leave_loop p = p\<lparr>pr_phase := Stopping_purge, pr_runner := request_stop (pr_runner p)\<rparr>"

text \<open>A task for every claimed job.\<close>

definition start_tasks :: "job_row list \<Rightarrow> process \<Rightarrow> process" where
  "start_tasks claimed p =
     p\<lparr>pr_phase := Loop_head, pr_runner := spawn claimed (pr_runner p),
       pr_tasks := (\<lambda>n. if rn_next_task (pr_runner p) \<le> n then new_task else pr_tasks p n)\<rparr>"

text \<open>The grace period is over: the tasks that are still running are cancelled.\<close>

definition cancel_pending :: "process \<Rightarrow> process" where
  "cancel_pending p =
     p\<lparr>pr_phase := Cancelling_tasks,
       pr_tasks := (\<lambda>n. if n \<in> fst ` set (inflight p) then cancel_task (pr_tasks p n) else pr_tasks p n)\<rparr>"

text \<open>
  A claim counts the running jobs before its own transaction commits, and by then some may have ended.
\<close>

inductive process_step ::
  "bool \<Rightarrow> settings \<Rightarrow> string \<Rightarrow> process \<times> db \<Rightarrow> process \<times> db \<Rightarrow> bool"
  for calm :: bool and s :: settings and worker_id :: string where
  w_register: "pr_phase p = Registering \<Longrightarrow> register_self s worker_id hostname e d = (v, d') \<Longrightarrow>
    process_step calm s worker_id (p, d)
      (case v of Inl x \<Rightarrow> leave_loop p | Inr u \<Rightarrow> p\<lparr>pr_phase := Loop_head\<rparr>, d')"
| w_heartbeat: "pr_phase p = Loop_head \<Longrightarrow> \<not> rn_stopping (pr_runner p) \<Longrightarrow>
    transact e (heartbeat_worker worker_id (get_queue_names s) hostname) d = (v, d') \<Longrightarrow>
    process_step calm s worker_id (p, d)
      (case v of Inl x \<Rightarrow> p | Inr u \<Rightarrow> p\<lparr>pr_phase := Loop_claim\<rparr>, d')"
| w_claim: "pr_phase p = Loop_claim \<Longrightarrow> length (inflight p) \<le> n \<Longrightarrow>
    transact e (claim_transaction JobRepository s worker_id n) d = (v, d') \<Longrightarrow>
    process_step calm s worker_id (p, d)
      (case v of Inl x \<Rightarrow> p\<lparr>pr_phase := Loop_head\<rparr> | Inr claimed \<Rightarrow> start_tasks claimed p, d')"
| w_leave: "pr_phase p = Loop_head \<Longrightarrow> rn_stopping (pr_runner p) \<Longrightarrow>
    process_step calm s worker_id (p, d) (leave_loop p, d)"
| w_purge: "pr_phase p \<in> {Registering, Loop_head, Loop_claim, Stopping_purge} \<Longrightarrow>
    process_step calm s worker_id (p, d) (p, purge_round JobRepository s e False d)"
| w_drain: "pr_phase p = Stopping_purge \<Longrightarrow>
    process_step calm s worker_id (p, d) (p\<lparr>pr_phase := Draining\<rparr>, d)"
| w_task: "(n, job) \<in> set (inflight p) \<Longrightarrow> task_step calm s worker_id job (pr_tasks p n, d) (t, d') \<Longrightarrow>
    process_step calm s worker_id (p, d) (p\<lparr>pr_tasks := (pr_tasks p)(n := t)\<rparr>, d')"
| w_done: "(n, job) \<in> set (inflight p) \<Longrightarrow> is_over (jt_point (pr_tasks p n)) \<Longrightarrow>
    process_step calm s worker_id (p, d) (p\<lparr>pr_runner := on_inflight_done n (pr_runner p)\<rparr>, d)"
| w_grace_over: "pr_phase p = Draining \<Longrightarrow>
    process_step calm s worker_id (p, d) (cancel_pending p, d)"
| w_returns: "pr_phase p = Cancelling_tasks \<Longrightarrow> inflight p = [] \<Longrightarrow>
    process_step calm s worker_id (p, d) (p\<lparr>pr_phase := Stopped\<rparr>, d)"
| w_stop: "process_step calm s worker_id (p, d) (p\<lparr>pr_runner := request_stop (pr_runner p)\<rparr>, d)"
| w_other: "foreign_step worker_id d d' \<Longrightarrow> process_step calm s worker_id (p, d) (p, d')"

text \<open>It starts under an id of its own, which holds no lease.\<close>

inductive process_reachable :: "bool \<Rightarrow> settings \<Rightarrow> string \<Rightarrow> process \<times> db \<Rightarrow> bool"
  for calm :: bool and s :: settings and worker_id :: string where
  w_start: "wf_db d \<Longrightarrow> (\<And>i. \<not> holds_lease i worker_id d) \<Longrightarrow>
    process_reachable calm s worker_id (new_process, d)"
| w_next: "process_reachable calm s worker_id st \<Longrightarrow> process_step calm s worker_id st st' \<Longrightarrow>
    process_reachable calm s worker_id st'"

text \<open>A worker that has just registered.\<close>

definition serving :: "runner \<Rightarrow> process" where
  "serving rn = \<lparr>pr_phase = Loop_head, pr_runner = rn, pr_tasks = (\<lambda>_. new_task)\<rparr>"

lemma registered_reachable:
  assumes "wf_db d" and "\<And>i. \<not> holds_lease i w d" and "register_self s w host e d = (Inr (), d')"
  shows "process_reachable calm s w (serving \<lparr>rn_stopping = False, rn_inflight = [], rn_next_task = 0\<rparr>, d')"
proof -
  have "process_step calm s w (new_process, d) (new_process\<lparr>pr_phase := Loop_head\<rparr>, d')"
    using w_register [OF _ assms(3), of new_process calm] by (simp add: new_process_def)
  with w_start [OF assms(1,2)] show ?thesis
    by (auto simp: serving_def new_process_def dest: w_next)
qed

text \<open>\<open>Runner.claim_iteration\<close> is an iteration with nothing in between.\<close>

lemma claim_iteration_runs:
  assumes "pr_phase p = Loop_head" and "claim_iteration JobRepository s w host e1 e2 (pr_runner p, d) = (rn', d')"
  shows "\<exists>p'. (process_step calm s w)\<^sup>*\<^sup>* (p, d) (p', d') \<and> pr_runner p' = rn' \<and> pr_phase p' = Loop_head"
proof (cases "rn_stopping (pr_runner p)")
  case True
  with assms show ?thesis by (auto simp: claim_iteration_def)
next
  case False
  obtain v1 d1 where t1: "transact e1 (heartbeat_worker w (get_queue_names s) host) d = (v1, d1)"
    by (cases "transact e1 (heartbeat_worker w (get_queue_names s) host) d")
  note first = w_heartbeat [OF assms(1) False t1, of calm]
  show ?thesis
  proof (cases v1)
    case (Inl x)
    with first t1 assms False show ?thesis by (auto simp: claim_iteration_def)
  next
    case (Inr u)
    obtain v2 d2 where t2: "transact e2 (claim_transaction JobRepository s w (length (inflight p))) d1 = (v2, d2)"
      by (cases "transact e2 (claim_transaction JobRepository s w (length (inflight p))) d1")
    define p1 where "p1 = p\<lparr>pr_phase := Loop_claim\<rparr>"
    have "process_step calm s w (p1, d1)
        (case v2 of Inl x \<Rightarrow> p1\<lparr>pr_phase := Loop_head\<rparr> | Inr claimed \<Rightarrow> start_tasks claimed p1, d2)"
      by (rule w_claim [OF _ _ t2]) (simp_all add: p1_def)
    with first Inr have "(process_step calm s w)\<^sup>*\<^sup>* (p, d)
        (case v2 of Inl x \<Rightarrow> p1\<lparr>pr_phase := Loop_head\<rparr> | Inr claimed \<Rightarrow> start_tasks claimed p1, d2)"
      by (simp add: p1_def)
    moreover have "d' = d2" "rn' = (case v2 of Inl x \<Rightarrow> pr_runner p | Inr claimed \<Rightarrow> spawn claimed (pr_runner p))"
      using assms(2) t1 t2 Inr False by (auto simp: claim_iteration_def split: sum.splits)
    ultimately show ?thesis
      by (intro exI [of _ "case v2 of Inl x \<Rightarrow> p1\<lparr>pr_phase := Loop_head\<rparr> | Inr claimed \<Rightarrow> start_tasks claimed p1"])
        (simp add: p1_def start_tasks_def split: sum.split)
  qed
qed

section \<open>The number of running jobs, and the database\<close>

lemma claim_batch_size_mono: "m \<le> n \<Longrightarrow> claim_batch_size s n \<le> claim_batch_size s m"
  by (simp add: claim_batch_size_def Let_def)

lemma claimed_within_batch:
  assumes "transact e (claim_transaction JobRepository s w n) d = (Inr rows, d')" and "wf_db d"
  shows "length rows \<le> claim_batch_size s n"
proof -
  from assms(1) obtain t where "claim_transaction JobRepository s w n (open_session e d) = (Inr rows, t)"
    by (rule transact_InrD)
  from pg_leases.claim_transaction_Inr [OF this] assms(2) show ?thesis by simp
qed

definition process_ok :: "settings \<Rightarrow> process \<times> db \<Rightarrow> bool" where
  "process_ok s st \<longleftrightarrow> runner_ok s (pr_runner (fst st)) \<and> wf_db (snd st) \<and>
     (pr_phase (fst st) = Stopped \<longrightarrow> inflight (fst st) = [])"

lemma request_stop_ok [simp]: "runner_ok s (request_stop rn) = runner_ok s rn"
  by (simp add: runner_ok_def request_stop_def)

lemma process_step_ok:
  "process_step calm s w st st' \<Longrightarrow> process_ok s st \<Longrightarrow> process_ok s st'"
proof (induction rule: process_step.induct)
  case (w_register p host e d v d')
  have "wf_db (snd (transact e (register_worker w (get_queue_names s) host) d))"
    using w_register.prems by (intro transact_keeps [OF keeps_register]) (simp add: process_ok_def)
  with w_register show ?case
    by (auto simp: process_ok_def register_self_def leave_loop_def split: prod.splits sum.splits)
next
  case (w_heartbeat p e host d v d')
  then show ?case
    using transact_keeps [OF keeps_heartbeat_worker, of d e w "get_queue_names s" host]
    by (simp add: process_ok_def split: sum.split)
next
  case (w_claim p n e d v d')
  then have wf: "wf_db d'"
    using transact_keeps [OF pg_leases.claim_transaction_wf, of d e s w n] by (simp add: process_ok_def)
  show ?case
  proof (cases v)
    case (Inl x)
    with w_claim wf show ?thesis by (simp add: process_ok_def)
  next
    case (Inr rows)
    have "length rows \<le> claim_batch_size s (length (inflight p))"
      using claimed_within_batch [OF w_claim.hyps(3) [unfolded Inr]] w_claim.prems
        claim_batch_size_mono [OF w_claim.hyps(2), of s] by (simp add: process_ok_def)
    with w_claim.prems Inr wf show ?thesis
      by (simp add: process_ok_def start_tasks_def runner_ok_spawn)
  qed
next
  case (w_purge p d e)
  then show ?case by (simp add: process_ok_def purge_round_def purge_batch_def transact_keeps wf_intros)
next
  case (w_task n job p d t d')
  then show ?case using task_step_wf [OF w_task.hyps(2)] by (simp add: process_ok_def)
next
  case (w_done n job p d)
  then show ?case
    using runner_ok_done [of s "pr_runner p" n] by (auto simp: process_ok_def on_inflight_done_def)
next
  case (w_stop p d)
  then show ?case by (simp add: process_ok_def) (simp add: request_stop_def)
next
  case (w_other d d' p)
  then show ?case using wf_repo_step by (auto simp: process_ok_def foreign_step_def)
qed (simp_all add: process_ok_def leave_loop_def cancel_pending_def)

lemma process_reachable_ok:
  assumes "process_reachable calm s w st" and "0 \<le> worker_concurrency s"
  shows "process_ok s st"
  using assms(1)
proof (induction rule: process_reachable.induct)
  case (w_start d)
  with assms(2) show ?case by (simp add: process_ok_def new_process_def runner_ok_def)
next
  case (w_next st st')
  then show ?case by (blast intro: process_step_ok)
qed

section \<open>Every lease has a task that answers for it\<close>

definition covered :: "string \<Rightarrow> process \<times> db \<Rightarrow> bool" where
  "covered w st \<longleftrightarrow>
     (\<forall>i. holds_lease i w (snd st) \<longrightarrow>
        (\<exists>(n, job) \<in> set (inflight (fst st)). j_id job = i \<and> answerable (pr_tasks (fst st) n)))"

text \<open>No task is cancelled before the grace period is over.\<close>

definition before_cancelling :: "process \<Rightarrow> bool" where
  "before_cancelling p \<longleftrightarrow> pr_phase p \<in> {Registering, Loop_head, Loop_claim, Stopping_purge, Draining}"

definition calm_until_cancelled :: "process \<Rightarrow> bool" where
  "calm_until_cancelled p \<longleftrightarrow>
     (before_cancelling p \<longrightarrow> (\<forall>n \<in> fst ` set (inflight p). undisturbed (pr_tasks p n)))"

lemma covered_same:
  assumes "covered w (p, d)" and "\<And>i. holds_lease i w d' \<Longrightarrow> holds_lease i w d"
    and "set (inflight p) \<subseteq> set (inflight p')" and "\<And>n. n \<in> fst ` set (inflight p) \<Longrightarrow> pr_tasks p' n = pr_tasks p n"
  shows "covered w (p', d')"
  unfolding covered_def
proof (intro allI impI)
  fix i assume "holds_lease i w (snd (p', d'))"
  with assms(1,2) obtain n job where "(n, job) \<in> set (inflight p)" "j_id job = i" "answerable (pr_tasks p n)"
    by (fastforce simp: covered_def)
  moreover from this(1) have "pr_tasks p' n = pr_tasks p n" by (intro assms(4)) force
  ultimately have "(n, job) \<in> set (inflight p')" "j_id job = i" "answerable (pr_tasks p' n)"
    using assms(3) by auto
  then show "\<exists>(n, job) \<in> set (inflight (fst (p', d'))). j_id job = i \<and> answerable (pr_tasks (fst (p', d')) n)"
    by auto
qed

lemma spawn_inflight:
  "rn_inflight (spawn js rn) = rn_inflight rn @ enumerate (rn_next_task rn) js"
  by (induction js rn rule: spawn.induct) simp_all

text \<open>What a claim leases it returns.\<close>

lemma claim_transaction_leases:
  assumes "claim_transaction JobRepository s w n t = (Inr rows, t')" and "wf_db (working t)" and "wf_db (committed t)"
    and "holds_lease i w (working t')"
  shows "holds_lease i w (working t) \<or> i \<in> j_id ` set rows"
proof -
  from assms(1) obtain k t1 where rec: "recover_expired_leases (nat (worker_batch_size s)) t = (Inr k, t1)"
    and rest: "(if 0 < claim_batch_size s n then claim_jobs w (get_queue_names s)
       (claim_batch_size s n) (worker_lease_seconds s) else return_tx []) t1 = (Inr rows, t')"
    by (auto simp: claim_transaction_def recover_def bind_tx_Inr_iff cong: if_cong)
  have wf: "wf_db (working t1)" by (rule keepsD_working [OF keeps_recover assms(3,2) rec])
  have earlier: "holds_lease i w (working t)" if "holds_lease i w (working t1)"
  proof (rule ccontr)
    assume "\<not> holds_lease i w (working t)"
    then have "\<not> holds_lease i w (working t1)"
      by (rule unheld_upd_where [OF _ recover_expired_leases_Inr(2) [OF rec assms(2)]])
        (simp add: recover_job_def Let_def)
    with that show False by simp
  qed
  show ?thesis
  proof (cases "0 < claim_batch_size s n")
    case False
    with rest earlier assms(4) show ?thesis by simp
  next
    case True
    with rest have cl: "claim_jobs w (get_queue_names s) (claim_batch_size s n) (worker_lease_seconds s) t1 = (Inr rows, t')"
      by simp
    let ?P = "picked_jobs (locked_rows t1) (get_queue_names s) (claim_batch_size s n) (now t1) (working t1)"
    from assms(4) claim_jobs_Inr(1) [OF wf cl] obtain j where j: "j \<in> set (jobs (working t1))"
      and held: "j_id (if j \<in> set ?P then lease_job (now t1) w (worker_lease_seconds s) j else j) = i \<and>
        j_status (if j \<in> set ?P then lease_job (now t1) w (worker_lease_seconds s) j else j) = Leased \<and>
        j_locked_by (if j \<in> set ?P then lease_job (now t1) w (worker_lease_seconds s) j else j) = Some w"
      by (auto simp: holds_lease_def upd_where_def)
    show ?thesis
    proof (cases "j \<in> set ?P")
      case True
      with j have "lease_job (now t1) w (worker_lease_seconds s) j \<in> set rows"
        unfolding claim_jobs_Inr(2) [OF wf cl] by simp
      then have "j_id (lease_job (now t1) w (worker_lease_seconds s) j) \<in> j_id ` set rows" by (rule imageI)
      with held True show ?thesis by simp
    next
      case False
      with held j have "holds_lease i w (working t1)" by (auto simp: holds_lease_def)
      with earlier show ?thesis by simp
    qed
  qed
qed

lemma covered_claim:
  assumes "covered w (p, d)" and "process_ok s (p, d)"
    and "transact e (claim_transaction JobRepository s w n) d = (Inr rows, d')"
  shows "covered w (start_tasks rows p, d')"
  unfolding covered_def
proof (intro allI impI)
  fix i assume "holds_lease i w (snd (start_tasks rows p, d'))"
  moreover from assms(3) obtain t where t: "claim_transaction JobRepository s w n (open_session e d) = (Inr rows, t)"
    and d': "d' = working t" by (rule transact_InrD)
  ultimately have "holds_lease i w d \<or> i \<in> j_id ` set rows"
    using claim_transaction_leases [OF t] assms(2) by (simp add: process_ok_def)
  then show "\<exists>(n, job) \<in> set (inflight (fst (start_tasks rows p, d'))).
      j_id job = i \<and> answerable (pr_tasks (fst (start_tasks rows p, d')) n)"
  proof
    assume "holds_lease i w d"
    with assms(1) obtain m job where m: "(m, job) \<in> set (inflight p)" "j_id job = i" "answerable (pr_tasks p m)"
      by (fastforce simp: covered_def)
    moreover have "m < rn_next_task (pr_runner p)"
      using m(1) assms(2) by (force simp: process_ok_def runner_ok_def)
    ultimately show ?thesis
      by (auto simp: start_tasks_def spawn_inflight intro!: bexI [of _ "(m, job)"])
  next
    assume "i \<in> j_id ` set rows"
    then obtain k where k: "k < length rows" "j_id (rows ! k) = i" by (auto simp: in_set_conv_nth)
    let ?m = "rn_next_task (pr_runner p) + k"
    have "(?m, rows ! k) \<in> set (enumerate (rn_next_task (pr_runner p)) rows)"
      using k(1) by (simp add: in_set_enumerate_eq)
    with k(2) show ?thesis
      by (auto simp: start_tasks_def spawn_inflight new_task_answerable intro!: bexI [of _ "(?m, rows ! k)"])
  qed
qed

lemma covered_task:
  assumes "covered w (p, d)" and "process_ok s (p, d)" and "(n, job) \<in> set (inflight p)"
    and "task_step True s w job (pr_tasks p n, d) (t, d')"
  shows "covered w (p\<lparr>pr_tasks := (pr_tasks p)(n := t)\<rparr>, d')"
  unfolding covered_def
proof (intro allI impI)
  fix i assume "holds_lease i w (snd (p\<lparr>pr_tasks := (pr_tasks p)(n := t)\<rparr>, d'))"
  then have now: "holds_lease i w d'" by simp
  with task_step_keeps_unheld [OF assms(4), of i w] have "holds_lease i w d" by auto
  with assms(1) obtain m job' where m: "(m, job') \<in> set (inflight p)" "j_id job' = i" "answerable (pr_tasks p m)"
    by (fastforce simp: covered_def)
  have "answerable (((pr_tasks p)(n := t)) m)"
  proof (cases "m = n")
    case True
    with m(1) assms(2,3) have "job' = job"
      by (auto simp: process_ok_def runner_ok_def dest: eq_key_imp_eq_value)
    with answerable_step [OF assms(4)] m True now show ?thesis by simp
  next
    case False
    with m(3) show ?thesis by simp
  qed
  with m(1,2) show "\<exists>(n', job) \<in> set (inflight (fst (p\<lparr>pr_tasks := (pr_tasks p)(n := t)\<rparr>, d'))).
      j_id job = i \<and> answerable (pr_tasks (fst (p\<lparr>pr_tasks := (pr_tasks p)(n := t)\<rparr>, d')) n')"
    by (auto intro!: bexI [of _ "(m, job')"])
qed

lemma covered_done:
  assumes "covered w (p, d)" and "is_over (jt_point (pr_tasks p n))"
  shows "covered w (p\<lparr>pr_runner := on_inflight_done n (pr_runner p)\<rparr>, d)"
  using assms answerable_not_over [of "pr_tasks p n"]
  unfolding covered_def on_inflight_done_def by (fastforce split: prod.splits)

lemma covered_cancel:
  assumes "covered w (p, d)" and "\<forall>n \<in> fst ` set (inflight p). undisturbed (pr_tasks p n)"
  shows "covered w (cancel_pending p, d)"
  using assms cancel_task_answerable
  unfolding covered_def cancel_pending_def by (fastforce split: prod.splits)

lemma covered_transact:
  assumes "covered w (p, d)" and "\<And>i. \<not> holds_lease i w d \<Longrightarrow> \<not> holds_lease i w d'"
    and "inflight p' = inflight p" and "pr_tasks p' = pr_tasks p"
  shows "covered w (p', d')"
  using assms by (intro covered_same [OF assms(1)]) auto

lemma process_step_covered:
  "process_step True s w st st' \<Longrightarrow> process_ok s st \<Longrightarrow> calm_until_cancelled (fst st) \<Longrightarrow> covered w st \<Longrightarrow>
    covered w st'"
proof (induction rule: process_step.induct)
  case (w_register p host e d v d')
  from w_register.hyps(2) have "d' = snd (transact e (register_worker w (get_queue_names s) host) d)"
    by (auto simp: register_self_def split: prod.splits sum.splits)
  then show ?case
    by (intro covered_transact [OF w_register.prems(3)])
      (simp_all add: unheld_register leave_loop_def request_stop_def split: sum.split)
next
  case (w_heartbeat p e host d v d')
  then have "d' = snd (transact e (heartbeat_worker w (get_queue_names s) host) d)" by simp
  then show ?case
    by (intro covered_transact [OF w_heartbeat.prems(3)]) (simp_all add: unheld_heartbeat split: sum.split)
next
  case (w_claim p n e d v d')
  show ?case
  proof (cases v)
    case (Inl x)
    have "uncommitted (claim_transaction JobRepository s w n)"
      unfolding uncommitted_def claim_transaction_def recover_def JobRepository_simps
      by (intro keeps_intros uncommitted_job_ops [unfolded uncommitted_def] uncommitted_state_ops [unfolded uncommitted_def])
    from transact_Inl_same [OF this w_claim.hyps(3) [unfolded Inl]] Inl w_claim.prems(3) show ?thesis
      by (auto elim!: covered_transact)
  next
    case (Inr rows)
    with covered_claim [OF w_claim.prems(3,1)] w_claim.hyps(3) show ?thesis by simp
  qed
next
  case (w_purge p d e)
  show ?case
    by (rule covered_transact [OF w_purge.prems(3)]) (simp_all add: purge_round_def purge_batch_def unheld_purge)
next
  case (w_task n job p d t d')
  then show ?case by (blast intro: covered_task)
next
  case (w_done n job p d)
  then show ?case by (intro covered_done)
next
  case (w_grace_over p d)
  then show ?case
    by (intro covered_cancel) (simp_all add: calm_until_cancelled_def before_cancelling_def)
next
  case (w_other d d' p)
  then show ?case by (auto simp: foreign_step_def elim!: covered_transact)
qed (auto simp: leave_loop_def request_stop_def elim!: covered_transact)

lemma undisturbed_spawned:
  assumes "\<forall>n \<in> fst ` set (inflight p). undisturbed (pr_tasks p n)"
  shows "\<forall>n \<in> fst ` set (inflight (start_tasks rows p)). undisturbed (pr_tasks (start_tasks rows p) n)"
  using assms by (auto simp: start_tasks_def spawn_inflight in_set_enumerate_eq new_task_undisturbed)

lemma process_step_undisturbed:
  "process_step True s w st st' \<Longrightarrow> calm_until_cancelled (fst st) \<Longrightarrow> calm_until_cancelled (fst st')"
proof (induction rule: process_step.induct)
  case (w_claim p n e d v d')
  then show ?case
    using undisturbed_spawned [of p]
    by (cases v) (simp_all add: calm_until_cancelled_def before_cancelling_def)
next
  case (w_task n job p d t d')
  with undisturbed_step [OF w_task.hyps(2)] show ?case
    by (force simp: calm_until_cancelled_def before_cancelling_def)
next
  case (w_done n job p d)
  then show ?case by (auto simp: calm_until_cancelled_def before_cancelling_def on_inflight_done_def)
qed (auto simp: calm_until_cancelled_def before_cancelling_def leave_loop_def request_stop_def cancel_pending_def
      split: sum.split)

lemma process_reachable_covered:
  assumes "process_reachable True s w st" and "0 \<le> worker_concurrency s"
  shows "calm_until_cancelled (fst st) \<and> covered w st"
  using assms(1)
proof (induction rule: process_reachable.induct)
  case (w_start d)
  then show ?case by (simp add: calm_until_cancelled_def new_process_def covered_def)
next
  case (w_next st st')
  with process_reachable_ok [OF w_next.hyps(1) assms(2)] show ?case
    by (blast intro: process_step_undisturbed process_step_covered)
qed

end
