(* ===== verification/Entry_Points.thy ===== *)
theory Entry_Points imports App_State Cli Process Identifiers Transport begin

text \<open>
  How the processes of PgRelay start: the API (\<open>cli/commands_api.py\<close>),
  the worker (\<open>cli/commands_worker.py\<close>, \<open>WorkerRunner.__init__\<close> and \<open>run\<close>) and the SDK client
  (\<open>sdk/client.py\<close>). Each checks the settings before it does anything else. A definition returns what the process goes on with.
\<close>

section \<open>The API\<close>

text \<open>\<open>run_api\<close> serves the application on a host and a port; the lifespan runs when it starts.\<close>

definition run_api :: "planner \<Rightarrow> settings \<Rightarrow> exn + string \<times> int \<times> app_state" where
  "run_api p environ =
     (case runtime_settings environ of
        Inl e \<Rightarrow> Inl e
      | Inr s \<Rightarrow>
          (case lifespan p (Some s) environ of
             Inl e \<Rightarrow> Inl e
           | Inr app \<Rightarrow> Inr (api_host s, api_port s, app)))"

section \<open>The worker\<close>

text \<open>\<open>WorkerRunner.__init__\<close>: the identifier and the empty state.\<close>

definition new_runner :: "settings \<Rightarrow> string \<Rightarrow> uuid \<Rightarrow> string \<times> runner" where
  "new_runner s hostname u =
     (generate_worker_id (worker_id_prefix s) hostname u,
      \<lparr>rn_stopping = False, rn_inflight = [], rn_next_task = 0\<rparr>)"

text \<open>The HTTP client of \<open>run\<close>.\<close>

definition worker_client :: "settings \<Rightarrow> http_client" where
  "worker_client s =
     create_http_client s (Some \<lparr>max_connections = Some (http_max_connections s),
       max_keepalive_connections = Some (http_max_keepalive_connections s)\<rparr>)"

text \<open>\<open>run_worker_async\<close> up to the first iteration of the claim loop.\<close>

definition run_worker_async ::
  "settings \<Rightarrow> string \<Rightarrow> uuid \<Rightarrow> env \<Rightarrow> db \<Rightarrow> (exn + settings \<times> engine \<times> http_client \<times> string \<times> runner) \<times> db" where
  "run_worker_async environ hostname u e d =
     (case runtime_settings environ of
        Inl x \<Rightarrow> (Inl x, d)
      | Inr s \<Rightarrow>
          (case new_runner s hostname u of (worker_id, rn) \<Rightarrow>
             (case register_self s worker_id hostname e d of
                (Inl x, d') \<Rightarrow> (Inl x, d')
              | (Inr _, d') \<Rightarrow> (Inr (s, create_engine s, worker_client s, worker_id, rn), d'))))"

section \<open>The SDK\<close>

definition from_env :: "settings \<Rightarrow> exn + settings" where
  "from_env environ = runtime_settings environ"

section \<open>Facts\<close>

lemma run_worker_async_Inr:
  assumes "run_worker_async environ hostname u e d = (Inr (s, en, client, worker_id, rn), d')"
  shows "runtime_settings environ = Inr s" and "en = create_engine s" and "client = worker_client s"
    and "register_self s worker_id hostname e d = (Inr (), d')"
    and "rn = \<lparr>rn_stopping = False, rn_inflight = [], rn_next_task = 0\<rparr>"
  using assms by (auto simp: run_worker_async_def new_runner_def split: sum.splits prod.splits)

text \<open>A worker that has started is a reachable process: nobody held a lease under its new id.\<close>

lemma run_worker_reachable:
  assumes "run_worker_async environ hostname u e d = (Inr (s, en, client, worker_id, rn), d')" and "wf_db d"
    and "\<And>i. \<not> holds_lease i worker_id d"
  shows "process_reachable calm s worker_id (serving rn, d')"
  unfolding run_worker_async_Inr(5) [OF assms(1)]
  by (rule registered_reachable [OF assms(2,3) run_worker_async_Inr(4) [OF assms(1)]])

end
