(* ===== verification/Program.thy ===== *)
theory Program imports Application Entry_Points System begin

text \<open>
  The whole program on one database: the requests of the admin API, applications that enqueue through
  the SDK, the commands, and any number of workers, interleaved at will. Each of its steps is a
  sequence of transactions of the repository, so what holds of every database those reach holds of
  every database the program reaches.
\<close>

section \<open>A repository operation later in a transaction\<close>

text \<open>
  An operation only looks at the view of its session, the clock, the rows locked elsewhere and the
  statements still to come; that earlier statements were executed makes no difference.
\<close>

definition same_view :: "session \<Rightarrow> session \<Rightarrow> bool" where
  "same_view s t \<longleftrightarrow>
     working s = working t \<and> now s = now t \<and> locked_rows s = locked_rows t \<and>
     (\<forall>k. ids s (stmt_no s + k) = ids t (stmt_no t + k) \<and> faults s (stmt_no s + k) = faults t (stmt_no t + k))"

definition uniform :: "'a tx \<Rightarrow> bool" where
  "uniform m \<longleftrightarrow>
     (\<forall>s t x s'. same_view s t \<longrightarrow> m s = (Inr x, s') \<longrightarrow> (\<exists>t'. m t = (Inr x, t') \<and> same_view s' t'))"

named_theorems uniform_intros \<open>operations that do not depend on the statements before them\<close>

lemma uniformI:
  assumes "\<And>s t x s'. same_view s t \<Longrightarrow> m s = (Inr x, s') \<Longrightarrow> \<exists>t'. m t = (Inr x, t') \<and> same_view s' t'"
  shows "uniform m"
  using assms unfolding uniform_def by blast

lemma uniformE:
  assumes "uniform m" and "same_view s t" and "m s = (Inr x, s')"
  obtains t' where "m t = (Inr x, t')" and "same_view s' t'"
  using assms unfolding uniform_def by blast

lemma uniform_return [uniform_intros]: "uniform (return_tx x)"
  by (rule uniformI) auto

lemma uniform_raise [uniform_intros]: "uniform (raise_tx e)"
  by (rule uniformI) simp

lemma uniform_bind [uniform_intros]:
  assumes "uniform m" and "\<And>x. uniform (f x)"
  shows "uniform (bind_tx m f)"
proof (rule uniformI)
  fix s t y s''
  assume "same_view s t" and "bind_tx m f s = (Inr y, s'')"
  then obtain x s' where m: "m s = (Inr x, s')" and f: "f x s' = (Inr y, s'')"
    by (auto simp: bind_tx_Inr_iff)
  from uniformE [OF assms(1) \<open>same_view s t\<close> m] obtain t' where t': "m t = (Inr x, t')" "same_view s' t'" .
  from uniformE [OF assms(2) t'(2) f] obtain t'' where "f x t' = (Inr y, t'')" "same_view s'' t''" .
  with t'(1) show "\<exists>t'. bind_tx m f t = (Inr y, t') \<and> same_view s'' t'"
    by (auto simp: bind_tx_Inr_iff)
qed

lemma same_viewD:
  assumes "same_view s t"
  shows "working s = working t" and "now s = now t" and "locked_rows s = locked_rows t"
    and "ids s (stmt_no s) = ids t (stmt_no t)" and "faults s (stmt_no s) = faults t (stmt_no t)"
  using assms unfolding same_view_def by (auto dest: spec [of _ 0])

lemma same_view_next:
  assumes "same_view s t"
  shows "same_view (s\<lparr>stmt_no := Suc (stmt_no s), working := d\<rparr>) (t\<lparr>stmt_no := Suc (stmt_no t), working := d\<rparr>)"
  using assms unfolding same_view_def by (auto dest: spec [of _ "Suc k" for k])

lemma uniform_execute [uniform_intros]: "uniform (execute st)"
proof (rule uniformI)
  fix s t x s' assume v: "same_view s t" and ex: "execute st s = (Inr x, s')"
  from ex obtain d where "st (now s) (ids s (stmt_no s)) (working s) = Inr (x, d)" "\<not> faults s (stmt_no s)"
    and s': "s' = s\<lparr>stmt_no := Suc (stmt_no s), working := d\<rparr>"
    by (auto simp: execute_Inr_iff)
  then have "execute st t = (Inr x, t\<lparr>stmt_no := Suc (stmt_no t), working := d\<rparr>)"
    using same_viewD [OF v] by (simp add: execute_ok)
  with same_view_next [OF v, of d] s' show "\<exists>t'. execute st t = (Inr x, t') \<and> same_view s' t'" by blast
qed

lemma uniform_execute_skip_locked [uniform_intros]: "uniform (execute_skip_locked st)"
proof (rule uniformI)
  fix s t x s' assume v: "same_view s t" and ex: "execute_skip_locked st s = (Inr x, s')"
  then show "\<exists>t'. execute_skip_locked st t = (Inr x, t') \<and> same_view s' t'"
    using uniformE [OF uniform_execute v, of "st (locked_rows s)" x s'] same_viewD(3) [OF v]
    by (metis execute_skip_locked_def)
qed

lemma uniform_catch_sql [uniform_intros]: "uniform m \<Longrightarrow> uniform (catch_sql msg m)"
  unfolding uniform_def by (simp add: catch_sql_Inr_iff)

lemma uniform_if [uniform_intros]: "uniform m \<Longrightarrow> uniform n \<Longrightarrow> uniform (if b then m else n)"
  by simp

lemma uniform_case_option [uniform_intros]:
  "uniform m \<Longrightarrow> (\<And>x. uniform (f x)) \<Longrightarrow> uniform (case v of None \<Rightarrow> m | Some x \<Rightarrow> f x)"
  by (simp split: option.split)

lemma uniform_case_prod [uniform_intros]:
  "(\<And>x y. uniform (f x y)) \<Longrightarrow> uniform (case v of (x, y) \<Rightarrow> f x y)"
  by (simp split: prod.split)

lemma uniform_one_or_none [uniform_intros]: "uniform (one_or_none rows)"
  by (rule uniformI) (auto simp: one_or_none_Inr)

lemma uniform_upsert_queue [uniform_intros]: "uniform (upsert_queue q)"
  unfolding upsert_queue_def get_queue_def by (intro uniform_intros)

lemma uniform_job_ops:
  "uniform (insert_job p)" "uniform (claim_jobs w names n ls)" "uniform (cancel_pending_job i)"
  unfolding insert_job_def get_by_idempotency_key_def claim_jobs_def cancel_pending_job_def
  by (intro uniform_intros)+

text \<open>So its effect on the view is that of a transaction of its own.\<close>

definition env_of :: "session \<Rightarrow> env" where
  "env_of s =
     \<lparr>e_now = now s, e_ids = (\<lambda>n. ids s (stmt_no s + n)), e_faults = (\<lambda>n. faults s (stmt_no s + n)),
      e_locked = locked_rows s\<rparr>"

lemma uniform_transact:
  assumes "uniform m" and "m s = (Inr x, s')"
  shows "working s' = snd (transact (env_of s) m (working s))"
proof -
  have "same_view s (open_session (env_of s) (working s))"
    by (simp add: same_view_def env_of_def open_session_def)
  from uniformE [OF assms(1) this assms(2)] obtain t' where
    "m (open_session (env_of s) (working s)) = (Inr x, t')" "same_view s' t'" .
  then show ?thesis by (simp add: transact_Inr same_viewD(1))
qed

section \<open>Sequences of repository transactions\<close>

abbreviation repo_steps :: "db \<Rightarrow> db \<Rightarrow> bool" where
  "repo_steps \<equiv> (repo_step False)\<^sup>*\<^sup>*"

definition moves :: "'a tx \<Rightarrow> bool" where
  "moves m \<longleftrightarrow> (\<forall>s x s'. m s = (Inr x, s') \<longrightarrow> repo_steps (working s) (working s'))"

named_theorems moves_intros \<open>transactions that are sequences of repository transactions\<close>

lemma moves_return [moves_intros]: "moves (return_tx x)"
  by (simp add: moves_def)

lemma moves_raise [moves_intros]: "moves (raise_tx e)"
  by (simp add: moves_def)

lemma moves_bind [moves_intros]:
  assumes "moves m" and "\<And>x. moves (f x)"
  shows "moves (bind_tx m f)"
  unfolding moves_def
proof (intro allI impI)
  fix s y s'' assume "bind_tx m f s = (Inr y, s'')"
  then obtain x s' where "m s = (Inr x, s')" "f x s' = (Inr y, s'')"
    by (auto simp: bind_tx_Inr_iff)
  with assms have "repo_steps (working s) (working s')" "repo_steps (working s') (working s'')"
    unfolding moves_def by blast+
  then show "repo_steps (working s) (working s'')" by (rule rtranclp_trans)
qed

lemma moves_if [moves_intros]: "moves m \<Longrightarrow> moves n \<Longrightarrow> moves (if b then m else n)"
  by simp

lemma moves_case_option [moves_intros]:
  "moves m \<Longrightarrow> (\<And>x. moves (f x)) \<Longrightarrow> moves (case v of None \<Rightarrow> m | Some x \<Rightarrow> f x)"
  by (simp split: option.split)

lemma moves_case_sum [moves_intros]:
  "(\<And>e. moves (g e)) \<Longrightarrow> (\<And>x. moves (f x)) \<Longrightarrow> moves (case v of Inl e \<Rightarrow> g e | Inr x \<Rightarrow> f x)"
  by (simp split: sum.split)

lemma moves_case_prod [moves_intros]: "(\<And>x y. moves (f x y)) \<Longrightarrow> moves (case v of (x, y) \<Rightarrow> f x y)"
  by (simp split: prod.split)

lemma moves_uniform:
  assumes "uniform m" and "\<And>e d. repo_step False d (snd (transact e m d))"
  shows "moves m"
  unfolding moves_def using uniform_transact [OF assms(1)] assms(2) by (metis r_into_rtranclp)

lemma uniform_insert_attempt [uniform_intros]: "uniform (insert_attempt job w st ms et em r prev)"
  unfolding insert_attempt_def by (intro uniform_intros)

lemma uniform_state_ops:
  "uniform (extend_lease i w ls)" "uniform (return_leased_job_to_pending i w)"
  "uniform (recover_expired_leases n)" "uniform (purge_jobs sd dd n)"
  unfolding extend_lease_def return_leased_job_to_pending_def recover_expired_leases_def purge_jobs_def
  by (intro uniform_intros)+

lemma uniform_complete_job: "uniform (complete_job job w ms r prev)"
  unfolding complete_job_def by (intro uniform_intros)

lemma uniform_fail_job: "uniform (fail_job job w rt timed_out delay ms et em r prev)"
  unfolding fail_job_def Let_def by (intro uniform_intros)

lemma uniform_update_queue: "uniform (update_queue q paused limit)"
  unfolding update_queue_def get_queue_def by (intro uniform_intros)

lemma uniform_register_worker [uniform_intros]: "uniform (register_worker w qs host)"
  unfolding register_worker_def by (intro uniform_intros)

lemma uniform_heartbeat_worker: "uniform (heartbeat_worker w qs host)"
  unfolding heartbeat_worker_def heartbeat_def by (intro uniform_intros)

lemmas moves_ops [moves_intros] =
  moves_uniform [OF uniform_job_ops(1) s_insert] moves_uniform [OF uniform_job_ops(2) s_claim]
  moves_uniform [OF uniform_job_ops(3) s_cancel] moves_uniform [OF uniform_state_ops(1) s_extend]
  moves_uniform [OF uniform_state_ops(2) s_return] moves_uniform [OF uniform_complete_job s_complete]
  moves_uniform [OF uniform_state_ops(3) s_recover] moves_uniform [OF uniform_state_ops(4) s_purge]
  moves_uniform [OF uniform_update_queue s_update_queue] moves_uniform [OF uniform_heartbeat_worker s_heartbeat]
  moves_uniform [OF uniform_register_worker s_register]

lemma moves_fail [moves_intros]: "moves (fail_job job w rt timed_out delay ms et em r prev)"
  by (rule moves_uniform [OF uniform_fail_job]) (rule s_fail, simp)

lemma moves_get_job [moves_intros]: "moves (get_job i)"
  by (auto simp: moves_def get_job_def bind_tx_Inr_iff execute_Inr_iff query_def)

lemma transact_moves:
  assumes "uncommitted m" and "moves m"
  shows "repo_steps d (snd (transact e m d))"
proof (rule transact_cases [OF assms(1)])
  fix x s assume "m (open_session e d) = (Inr x, s)"
  with assms(2) show "repo_steps d (working s)"
    unfolding moves_def by (metis open_session_simps(1))
qed simp

section \<open>The program\<close>

text \<open>Workers go on in parallel; each has its own settings, identifier and process.\<close>

record program =
  pg_db :: db
  pg_workers :: "(settings \<times> string \<times> process) list"

text \<open>
  What happens: a request, an enqueueing application that commits, the replay and purge commands, the
  start of a worker, and a step of a worker's process.
\<close>

inductive program_step :: "program \<Rightarrow> program \<Rightarrow> bool" where
  p_request: "program_step pg (pg\<lparr>pg_db := snd (serve router parse_uuid urlparse (create_state p s) rq e (pg_db pg))\<rparr>)"
| p_enqueue_handler: "program_step pg
    (pg\<lparr>pg_db := snd (transact e (enqueue_handler JobRepository urlparse s common payload metadata) (pg_db pg))\<rparr>)"
| p_enqueue_http: "program_step pg
    (pg\<lparr>pg_db := snd (transact e (enqueue_http JobRepository urlparse s common method url json_body body_base64
      hs metadata) (pg_db pg))\<rparr>)"
| p_replay: "program_step pg (pg\<lparr>pg_db := snd (replay_async environ e i force (pg_db pg))\<rparr>)"
| p_purge: "purge_async environ envs (pg_db pg) = Some (r, d') \<Longrightarrow> program_step pg (pg\<lparr>pg_db := d'\<rparr>)"
| p_start: "run_worker_async environ hostname u e (pg_db pg) = (Inr (s, en, client, worker_id, rn), d') \<Longrightarrow>
    program_step pg (pg\<lparr>pg_db := d', pg_workers := (s, worker_id, serving rn) # pg_workers pg\<rparr>)"
| p_worker: "n < length (pg_workers pg) \<Longrightarrow> pg_workers pg ! n = (s, worker_id, w) \<Longrightarrow>
    process_step False s worker_id (w, pg_db pg) (w', d') \<Longrightarrow>
    program_step pg (pg\<lparr>pg_db := d', pg_workers := (pg_workers pg)[n := (s, worker_id, w')]\<rparr>)"

inductive program_run :: "program \<Rightarrow> bool" where
  program_start: "program_run \<lparr>pg_db = empty_db, pg_workers = []\<rparr>"
| program_more: "program_run pg \<Longrightarrow> program_step pg pg' \<Longrightarrow> program_run pg'"

section \<open>Every step is a sequence of repository transactions\<close>

lemma moves_checked_name [moves_intros]: "moves (checked_name n)"
  unfolding checked_name_def by (intro moves_intros)

lemma moves_enqueue [moves_intros]: "moves (enqueue JobRepository urlparse s arg)"
  unfolding enqueue_def JobRepository_simps by (intro moves_intros)

lemma moves_services [moves_intros]:
  "moves (enqueue_handler JobRepository urlparse s common payload metadata)"
  "moves (enqueue_http JobRepository urlparse s common method url json_body body_base64 hs metadata)"
  "moves (replay JobRepository i force)" "moves (cancel JobRepository i)"
  "moves (upsert_or_update QueueRepository n request)" "moves (pause QueueRepository n)" "moves (resume QueueRepository n)"
  unfolding enqueue_handler_def enqueue_http_def replay_def replay_job_def cancel_def upsert_or_update_def pause_def
    resume_def JobRepository_simps QueueRepository_simps
  by (intro moves_intros)+

lemma run_route_moves:
  assumes "\<And>r. uncommitted (body r)" and "\<And>r. moves (body r)"
  shows "repo_steps d (snd (run_route auth parsed body st e d))"
  using transact_moves [OF assms, of d e] by (auto simp: run_route_def split: sum.split prod.split) (metis snd_conv)

lemma call_endpoint_steps: "repo_steps d (snd (call_endpoint parse_uuid urlparse (create_state p s) ep value rq e d))"
proof (cases "writes ep")
  case True
  then show ?thesis
    by (cases ep) (simp_all add: call_endpoint_def Let_def route_defs run_route_moves uncommitted_routes
        moves_enqueue moves_services)
qed (simp add: call_endpoint_reads)

lemma serve_steps: "repo_steps d (snd (serve router parse_uuid urlparse (create_state p s) rq e d))"
  by (simp add: serve_def call_endpoint_steps split: sum.split prod.split)

lemma moves_claim_transaction: "moves (claim_transaction JobRepository s w n)"
  unfolding claim_transaction_def recover_def JobRepository_simps by (intro moves_intros)

lemma moves_record_result: "moves (record_result JobRepository c s w job r)"
  unfolding record_result_def JobRepository_simps by (intro moves_intros)

lemma moves_purge_batch: "moves (purge_batch JobRepository s)"
  unfolding purge_batch_def JobRepository_simps by (intro moves_intros)

lemma uncommitted_worker_ops:
  "uncommitted (claim_transaction JobRepository s w n)" "uncommitted (record_result JobRepository c s w job r)"
  "uncommitted (purge_batch JobRepository s)"
  unfolding uncommitted_def claim_transaction_def recover_def record_result_def purge_batch_def JobRepository_simps
  by (intro keeps_intros uncommitted_job_ops [unfolded uncommitted_def] uncommitted_state_ops [unfolded uncommitted_def])+

lemmas worker_transacts = transact_moves [OF uncommitted_worker_ops(1) moves_claim_transaction]
  transact_moves [OF uncommitted_worker_ops(2) moves_record_result]
  transact_moves [OF uncommitted_worker_ops(3) moves_purge_batch]
  transact_moves [OF uncommitted_state_ops(2) moves_ops(5)]
  transact_moves [OF uncommitted_state_ops(1) moves_ops(4)]
  transact_moves [OF uncommitted_heartbeat_worker moves_ops(10)]
  transact_moves [OF uncommitted_register_worker moves_ops(11)]

lemma task_step_steps: "task_step calm s w job st st' \<Longrightarrow> repo_steps (snd st) (snd st')"
proof (induction rule: task_step.induct)
  case (t_beat t e d v d')
  then show ?case using worker_transacts(5) [of d e "j_id job" w "worker_lease_seconds s"] by simp
next
  case (t_last_beat t e d v d')
  then show ?case using worker_transacts(5) [of d e "j_id job" w "worker_lease_seconds s"] by simp
next
  case (t_record t r e ch d v d')
  then show ?case using worker_transacts(2) [of d e ch s w job r] by simp
next
  case (t_return t e d v d')
  then show ?case using worker_transacts(4) [of d e "j_id job" w] by simp
next
  case (c_recording t r d' d e ch)
  then show ?case using worker_transacts(2) [of d e ch s w job r] by auto
next
  case (c_returning t d' d e)
  then show ?case using worker_transacts(4) [of d e "j_id job" w] by auto
qed simp_all

lemma process_step_steps: "process_step calm s w st st' \<Longrightarrow> repo_steps (snd st) (snd st')"
proof (induction rule: process_step.induct)
  case (w_register p host e d v d')
  then show ?case
    using worker_transacts(7) [of d e w "get_queue_names s" host]
    by (auto simp: register_self_def split: prod.splits sum.splits)
next
  case (w_heartbeat p e host d v d')
  then show ?case using worker_transacts(6) [of d e w "get_queue_names s" host] by simp
next
  case (w_claim p n e d v d')
  then show ?case using worker_transacts(1) [of d e s w n] by simp
next
  case (w_task n job p d t d')
  from task_step_steps [OF w_task(2)] show ?case by simp
next
  case (w_other d d' p)
  then show ?case by (auto simp: foreign_step_def)
qed (simp_all add: purge_round_def worker_transacts(3))

lemma purge_loop_steps_snd:
  assumes "purge_loop R s envs k acc d = Some res"
  shows "R = JobRepository \<longrightarrow> repo_steps d (snd res)"
proof (rule purge_loop.raw_induct [where P = "\<lambda>R s envs k acc d res. R = JobRepository \<longrightarrow> repo_steps d (snd res)",
      OF _ assms], goal_cases)
  case (1 f R s envs k acc d res)
  obtain x d1 where t: "transact (envs k) (purge_batch R s) d = (x, d1)"
    by (cases "transact (envs k) (purge_batch R s) d")
  have first: "repo_steps d d1" if "R = JobRepository"
    using worker_transacts(3) [of d "envs k" s] t that by simp
  have rest: "repo_steps d1 (snd res)" if "R = JobRepository" "f R s envs k' acc' d1 = Some res" for k' acc'
    using 1(1) [OF that(2)] that(1) by blast
  show ?case
  proof (cases x)
    case (Inl y)
    with 1(2) t have "res = (Inl y, d1)" by simp
    with first show ?thesis by simp
  next
    case (Inr result)
    with 1(2) t first rest show ?thesis
      by (auto split: if_splits intro: rtranclp_trans)
  qed
qed

lemma purge_loop_steps: "purge_loop JobRepository s envs k acc d = Some (r, d') \<Longrightarrow> repo_steps d d'"
  by (drule purge_loop_steps_snd) simp

lemma program_step_steps: "program_step pg pg' \<Longrightarrow> repo_steps (pg_db pg) (pg_db pg')"
proof (induction rule: program_step.induct)
  case (p_replay pg environ e i force)
  show ?case
    using transact_moves [OF pg_jobs.replay_uncommitted moves_services(3), of "pg_db pg" e i force]
    by (auto simp: replay_async_def split: sum.split prod.split)
next
  case (p_purge environ envs pg r d')
  then show ?case
    by (auto simp: purge_async_def purge_until_done_def split: sum.splits dest: purge_loop_steps)
next
  case (p_start environ hostname u e pg s en client worker_id rn d')
  from run_worker_async_Inr(4) [OF p_start] worker_transacts(7) [of "pg_db pg" e worker_id "get_queue_names s" hostname]
  show ?case by (auto simp: register_self_def split: prod.splits sum.splits)
next
  case (p_worker n pg s worker_id w w' d')
  from process_step_steps [OF p_worker(3)] show ?case by simp
qed (simp_all add: serve_steps transact_moves pg_jobs.enqueue_handler_uncommitted pg_jobs.enqueue_http_uncommitted
    moves_services)

lemma reachable_steps: "repo_steps d d' \<Longrightarrow> reachable False d \<Longrightarrow> reachable False d'"
  by (induction rule: rtranclp_induct) (auto intro: reachable.step)

lemma program_run_reachable: "program_run pg \<Longrightarrow> reachable False (pg_db pg)"
proof (induction rule: program_run.induct)
  case program_start
  show ?case by (simp add: reachable.start)
next
  case (program_more pg pg')
  then show ?case by (blast intro: reachable_steps program_step_steps)
qed

end
