(* ===== verification/Program_Properties.thy ===== *)
theory Program_Properties imports Service_Properties Program Attempt_Budget begin

text \<open>
  The properties of the application as a whole, and of the whole program.
\<close>

section \<open>The application\<close>

text \<open>C24: whatever the request, the application changes the database only for a POST or a PUT, from a caller with a write token (or when no token is configured), and only when it answers with success;
  success below /v1 means that the caller may read, and other than for a GET that it may write.\<close>

theorem requests_are_guarded:
  assumes "follows_table router" and "serve router parse_uuid urlparse (create_state p s) rq e d = (resp, d')"
  shows "(d' \<noteq> d \<longrightarrow> rq_method rq \<in> {''POST'', ''PUT''} \<and> succeeded_response resp \<and> write_access s (rq_authorization rq)) \<and>
    (succeeded_response resp \<longrightarrow> hd (rq_path rq) = ''v1'' \<longrightarrow> read_access s (rq_authorization rq)) \<and>
    (succeeded_response resp \<longrightarrow> rq_method rq \<noteq> ''GET'' \<longrightarrow> write_access s (rq_authorization rq))"
proof (cases "router routes (rq_method rq) (rq_path rq)")
  case (Inl st)
  with assms(2) show ?thesis by (auto simp: serve_def router_error_def)
next
  case (Inr r)
  obtain ep v where r: "r = (ep, v)" by (cases r)
  note route = router_Inr [OF assms(1) Inr [unfolded r]]
  from assms(2) Inr r have c: "resp = fst (call_endpoint parse_uuid urlparse (create_state p s) ep v rq e d)"
    "d' = snd (call_endpoint parse_uuid urlparse (create_state p s) ep v rq e d)"
    by (simp_all add: serve_def)
  note effect = call_endpoint_effect [of parse_uuid urlparse p s ep v rq e d, folded c]
  note reading = call_endpoint_read_access [of parse_uuid urlparse p s ep v rq e d, folded c]
  note writing = call_endpoint_write_access [of parse_uuid urlparse p s ep v rq e d, folded c]
  show ?thesis
    using route effect reading writing write_access_read by auto
qed

text \<open>A router that takes the first route matching method and path.\<close>

definition fx_router :: router where
  "fx_router table meth path =
     (case filter (\<lambda>(m, ss, ep). matches ss path) table of
        [] \<Rightarrow> Inl 404
      | r # rs \<Rightarrow>
          (case find (\<lambda>(m, ss, ep). m = meth) (r # rs) of
             None \<Rightarrow> Inl 405
           | Some (m, ss, ep) \<Rightarrow> Inr (ep, path_value ss path)))"

lemma fx_router_follows: "follows_table fx_router"
proof -
  have "\<exists>ss. (meth, ss, ep) \<in> set table \<and> matches ss path \<and> v = path_value ss path"
    if "fx_router table meth path = Inr (ep, v)" for table meth path ep v
  proof -
    from that obtain m ss where
      f: "find (\<lambda>(m, ss, ep). m = meth) (filter (\<lambda>(m, ss, ep). matches ss path) table) = Some (m, ss, ep)"
      and v: "v = path_value ss path"
      by (auto simp: fx_router_def simp del: find.simps split: list.splits option.splits)
    from find_SomeD [OF f] v show ?thesis by auto
  qed
  then show ?thesis unfolding follows_table_def by blast
qed

definition fx_api_request :: "string \<Rightarrow> string list \<Rightarrow> string option \<Rightarrow> api_request" where
  "fx_api_request meth path a =
     \<lparr>rq_method = meth, rq_path = path, rq_authorization = a, rq_job = fx_request ''a'',
      rq_query = \<lparr>lq_filter = \<lparr>f_status = None, f_queue_name = None, f_kind = None, f_name = None,
        f_dedupe_key = None\<rparr>, lq_limit = 50, lq_offset = 0, lq_include_total = False\<rparr>,
      rq_force = False, rq_queue_update = \<lparr>qu_paused = Some True, qu_concurrency_limit = None\<rparr>, rq_approximate = False\<rparr>"

definition fx_planner :: planner where
  "fx_planner = \<lparr>reltuples = None, explain = \<lambda>_ _. JNull, py_int = \<lambda>_. Inr 0\<rparr>"

text \<open>What the fixtures answer, up to the transaction of the route.\<close>

lemma fx_write_auth: "require_write_auth (create_state fx_planner fx_settings) (Some ''Bearer w'') = Inr ()"
  unfolding require_write_auth_Inr create_state_simps by code_simp

lemma fx_routed:
  "fx_router routes ''POST'' [''v1'', ''queues'', ''default'', ''pause''] = Inr (E_pause_queue, ''default'')"
  "fx_router routes ''POST'' [''v1'', ''jobs''] = Inr (E_enqueue_job, [])"
  by code_simp+

lemma fx_serve_pause:
  "snd (serve fx_router parse_uuid fx_urlparse (create_state fx_planner fx_settings)
      (fx_api_request ''POST'' [''v1'', ''queues'', ''default'', ''pause''] (Some ''Bearer w'')) e d) =
    snd (transact e (pause QueueRepository ''default'') d)"
  by (simp add: serve_def fx_api_request_def fx_routed call_endpoint_def post_pause_def run_route_def fx_write_auth
      parameters_def split: prod.split)


text \<open>The witness: pausing a queue changes it, so the caller had a write token.\<close>

theorem requests_are_guarded_witness:
  "\<exists>resp d'. serve fx_router (\<lambda>_. None) fx_urlparse (create_state fx_planner fx_settings)
      (fx_api_request ''POST'' [''v1'', ''queues'', ''default'', ''pause''] (Some ''Bearer w'')) (fx_env 9 100) fx_db = (resp, d') \<and>
    d' \<noteq> fx_db \<and> write_access fx_settings (Some ''Bearer w'')"
proof -
  let ?r = "serve fx_router (\<lambda>_. None) fx_urlparse (create_state fx_planner fx_settings)
    (fx_api_request ''POST'' [''v1'', ''queues'', ''default'', ''pause''] (Some ''Bearer w'')) (fx_env 9 100) fx_db"
  have "map q_paused (queues (snd ?r)) = [True]"
    unfolding fx_serve_pause by code_simp
  moreover have "map q_paused (queues fx_db) = [False]"
    by code_simp
  ultimately have changed: "snd ?r \<noteq> fx_db" by auto
  have "write_access fx_settings (rq_authorization (fx_api_request ''POST'' [''v1'', ''queues'', ''default'', ''pause'']
      (Some ''Bearer w'')))"
    using requests_are_guarded [OF fx_router_follows prod.collapse [symmetric]] changed by metis
  with changed show ?thesis
    by (intro exI [of _ "fst ?r"] exI [of _ "snd ?r"]) (simp add: fx_api_request_def)
qed

section \<open>The program\<close>




end
