(* ===== verification/Worker_Properties.thy ===== *)
theory Worker_Properties imports Process Fixtures begin

text \<open>
  The properties of the worker: its concurrency and its leases, the life of its tasks, what they may do
  to the database, how results end a job, retry delays, and the HTTP executor.
\<close>

section \<open>The worker process\<close>

text \<open>C19: a worker never runs more jobs at a time than its concurrency, whatever the interleaving of
  its claim loop, its tasks, stop requests, purges and the transactions of others; and none of it
  breaks the database.\<close>

theorem worker_respects_its_concurrency:
  assumes "process_reachable calm s w (p, d)" and "0 \<le> worker_concurrency s"
  shows "int (length (inflight p)) \<le> worker_concurrency s \<and> distinct (map fst (inflight p)) \<and> wf_db d"
  using process_reachable_ok [OF assms] by (simp add: process_ok_def runner_ok_def)

definition fx_worker_settings :: settings where
  "fx_worker_settings = default_settings ''postgresql+asyncpg://db''"

definition fx_registered :: db where
  "fx_registered = fx_db\<lparr>workers := [\<lparr>w_worker_id = ''w2'', w_queues = [''default''], w_hostname = ''host'',
     w_started_at = 1, w_last_heartbeat_at = 1\<rparr>]\<rparr>"

definition fx_beaten :: db where
  "fx_beaten = fx_db\<lparr>workers := [\<lparr>w_worker_id = ''w2'', w_queues = [''default''], w_hostname = ''host'',
     w_started_at = 1, w_last_heartbeat_at = 2\<rparr>]\<rparr>"

definition fx_process :: "run_phase \<Rightarrow> bool \<Rightarrow> job_row \<Rightarrow> job_task \<Rightarrow> process" where
  "fx_process ph stop job t =
     \<lparr>pr_phase = ph, pr_runner = \<lparr>rn_stopping = stop, rn_inflight = [(0, job)], rn_next_task = 1\<rparr>,
      pr_tasks = (\<lambda>_. new_task)(0 := t)\<rparr>"

lemma fx_registers: "register_self fx_worker_settings ''w2'' ''host'' (fx_env 1 50) fx_db = (Inr (), fx_registered)"
  by code_simp

lemma fx_register_any: "\<exists>d'. register_self fx_worker_settings w ''host'' (fx_env 1 50) fx_db = (Inr (), d')"
  by (auto simp: register_self_def register_worker_def transact_def get_session_def catch_sql_def execute_def
      register_worker_sql_def Let_def open_session_def fx_env_def fx_db_def split: option.split)

lemma fx_no_lease: "w \<noteq> ''w1'' \<Longrightarrow> \<not> holds_lease i w fx_db"
  by (auto simp: holds_lease_def fx_db_def fx_job_def)

text \<open>A worker that has claimed the one pending job, and its next steps.\<close>

lemma fx_claims:
  "\<exists>job d. process_reachable calm fx_worker_settings ''w2'' (fx_process Loop_head False job new_task, d) \<and> j_id job = 2"
proof -
  let ?rn = "\<lparr>rn_stopping = False, rn_inflight = [], rn_next_task = 0\<rparr>"
  have "process_reachable calm fx_worker_settings ''w2'' (serving ?rn, fx_registered)"
    by (rule registered_reachable [OF fx_wf fx_no_lease fx_registers]) simp
  moreover have "snd (transact (fx_env 2 100) (heartbeat_worker ''w2'' (get_queue_names fx_worker_settings) ''host'') fx_registered) = fx_beaten"
    and "\<not> isl (fst (transact (fx_env 2 100) (heartbeat_worker ''w2'' (get_queue_names fx_worker_settings) ''host'') fx_registered))"
    by code_simp+
  then obtain u where "transact (fx_env 2 100) (heartbeat_worker ''w2'' (get_queue_names fx_worker_settings) ''host'') fx_registered = (Inr u, fx_beaten)"
    by (metis isl_def prod.collapse sum.collapse(2))
  from w_heartbeat [OF _ _ this, of "serving ?rn" calm]
  have "process_step calm fx_worker_settings ''w2'' (serving ?rn, fx_registered) (serving ?rn\<lparr>pr_phase := Loop_claim\<rparr>, fx_beaten)"
    by (simp add: serving_def)
  ultimately have loop: "process_reachable calm fx_worker_settings ''w2'' (serving ?rn\<lparr>pr_phase := Loop_claim\<rparr>, fx_beaten)"
    by (rule w_next)
  have "map_sum id (map j_id) (fst (transact (fx_env 2 200) (claim_transaction JobRepository fx_worker_settings ''w2'' 0) fx_beaten)) = Inr [2]"
    by code_simp
  then obtain rows d where cl: "transact (fx_env 2 200) (claim_transaction JobRepository fx_worker_settings ''w2'' 0) fx_beaten = (Inr rows, d)"
    and "map j_id rows = [2]" by (rule transact_evalE)
  then obtain job where job: "rows = [job]" "j_id job = 2" by auto
  from w_claim [OF _ _ cl, of "serving ?rn\<lparr>pr_phase := Loop_claim\<rparr>" calm]
  have "process_step calm fx_worker_settings ''w2'' (serving ?rn\<lparr>pr_phase := Loop_claim\<rparr>, fx_beaten)
      (fx_process Loop_head False job new_task, d)"
    by (simp add: serving_def start_tasks_def job(1) fx_process_def fun_upd_idem)
  from w_next [OF loop this] job(2) show ?thesis by blast
qed

theorem worker_respects_its_concurrency_witness:
  "\<exists>p d. process_reachable True fx_worker_settings ''w2'' (p, d) \<and> map (\<lambda>(t, j). j_id j) (inflight p) = [2] \<and>
    int (length (inflight p)) \<le> 8"
proof -
  obtain job d where r: "process_reachable True fx_worker_settings ''w2'' (fx_process Loop_head False job new_task, d)"
    and "j_id job = 2" using fx_claims by blast
  moreover from worker_respects_its_concurrency [OF r]
  have "int (length (inflight (fx_process Loop_head False job new_task))) \<le> 8"
    by (simp add: fx_worker_settings_def default_settings_def)
  ultimately show ?thesis by (intro exI conjI) (assumption, simp_all add: fx_process_def)
qed

text \<open>C20: as long as the closing transactions and the heartbeats of its tasks do not fail, a worker never leaks a
  lease: every job leased under its id has a task in flight that is still going to give the lease up, so
  when run has returned it holds none, however claims, executions, lost leases, stop requests and
  cancellations were interleaved.\<close>

theorem a_stopped_worker_holds_no_lease:
  assumes "process_reachable True s w (p, d)" and "0 \<le> worker_concurrency s"
  shows "(holds_lease i w d \<longrightarrow>
      (\<exists>(n, job) \<in> set (inflight p). j_id job = i \<and> \<not> is_over (jt_point (pr_tasks p n)))) \<and>
    (pr_phase p = Stopped \<longrightarrow> \<not> holds_lease i w d)"
proof -
  have "\<exists>(n, job) \<in> set (inflight p). j_id job = i \<and> \<not> is_over (jt_point (pr_tasks p n))" if "holds_lease i w d"
    using process_reachable_covered [OF assms] that answerable_not_over by (fastforce simp: covered_def)
  with process_reachable_ok [OF assms] show ?thesis by (auto simp: process_ok_def)
qed

lemma fx_task_next:
  assumes "process_reachable calm s w (fx_process ph stop job t, d)" and "task_step calm s w job (t, d) (t', d')"
  shows "process_reachable calm s w (fx_process ph stop job t', d')"
proof -
  have "process_step calm s w (fx_process ph stop job t, d) (fx_process ph stop job t', d')"
    using w_task [of 0 job "fx_process ph stop job t" calm s w d t' d'] assms(2) by (simp add: fx_process_def)
  with assms(1) show ?thesis by (rule w_next)
qed

text \<open>The witness: the worker is stopped while its job runs; the task is cancelled after the grace period.\<close>

lemma fx_shuts_down:
  assumes "process_reachable calm s w (fx_process Loop_head False job t, d)" and "\<not> is_over (jt_point t)"
  shows "process_reachable calm s w (fx_process Cancelling_tasks True job (t\<lparr>jt_cancel := True\<rparr>), d)"
proof -
  note steps = fx_process_def leave_loop_def request_stop_def cancel_pending_def cancel_task_def fun_eq_iff
  have "process_step calm s w (fx_process Loop_head False job t, d) (fx_process Loop_head True job t, d)"
    using w_stop [of calm s w "fx_process Loop_head False job t" d] by (simp add: steps)
  note w_next [OF assms(1) this]
  moreover have "process_step calm s w (fx_process Loop_head True job t, d) (fx_process Stopping_purge True job t, d)"
    using w_leave [of "fx_process Loop_head True job t" calm s w d] by (simp add: steps)
  ultimately have "process_reachable calm s w (fx_process Stopping_purge True job t, d)" by (rule w_next)
  moreover have "process_step calm s w (fx_process Stopping_purge True job t, d) (fx_process Draining True job t, d)"
    using w_drain [of "fx_process Stopping_purge True job t" calm s w d] by (simp add: steps)
  ultimately have "process_reachable calm s w (fx_process Draining True job t, d)" by (rule w_next)
  moreover have "cancel_pending (fx_process Draining True job t) =
      fx_process Cancelling_tasks True job (t\<lparr>jt_cancel := True\<rparr>)"
    using assms(2) by (simp add: steps)
  with w_grace_over [of "fx_process Draining True job t" calm s w d]
  have "process_step calm s w (fx_process Draining True job t, d)
      (fx_process Cancelling_tasks True job (t\<lparr>jt_cancel := True\<rparr>), d)"
    by (simp add: fx_process_def)
  ultimately show ?thesis by (rule w_next)
qed

lemma return_settles:
  assumes "\<And>n. \<not> e_faults e n"
  shows "settles calm (fst (transact e (return_leased_job_to_pending i w) d))"
  using assms by (simp add: settles_def transact_def get_session_def return_leased_job_to_pending_def bind_tx_def
      execute_def Let_def catch_sql_def RETURN_TO_PENDING_SQL_def update_jobs_def)

theorem a_stopped_worker_holds_no_lease_witness:
  "\<exists>p d. process_reachable True fx_worker_settings ''w2'' (p, d) \<and> pr_phase p = Stopped \<and>
    rn_next_task (pr_runner p) = 1 \<and> \<not> holds_lease 2 ''w2'' d"
proof -
  let ?s = fx_worker_settings and ?e = "fx_env 3 300"
  obtain job d where "process_reachable True ?s ''w2'' (fx_process Loop_head False job new_task, d)"
    using fx_claims by blast
  from fx_shuts_down [OF this]
  have "process_reachable True ?s ''w2'' (fx_process Cancelling_tasks True job (new_task\<lparr>jt_cancel := True\<rparr>), d)"
    by (simp add: new_task_def)
  note fx_task_next [OF this c_execution]
  then have "process_reachable True ?s ''w2'' (fx_process Cancelling_tasks True job
      (new_task\<lparr>jt_execution := Executing True\<rparr>), d)"
    by (simp add: new_task_def)
  note fx_task_next [OF this t_execution_cancelled]
  then have "process_reachable True ?s ''w2'' (fx_process Cancelling_tasks True job
      (new_task\<lparr>jt_execution := Execution_cancelled\<rparr>), d)"
    by (simp add: new_task_def)
  note fx_task_next [OF this t_interrupted]
  then have "process_reachable True ?s ''w2'' (fx_process Cancelling_tasks True job
      (new_task\<lparr>jt_execution := Execution_cancelled, jt_point := Cancelling\<rparr>), d)"
    by (simp add: new_task_def)
  note fx_task_next [OF this t_heartbeat_cancelled]
  then have "process_reachable True ?s ''w2'' (fx_process Cancelling_tasks True job
      (new_task\<lparr>jt_execution := Execution_cancelled, jt_point := Cancelling, jt_heartbeat := Beat_cancelled\<rparr>), d)"
    by (simp add: new_task_def)
  note fx_task_next [OF this t_give_back]
  then have "process_reachable True ?s ''w2'' (fx_process Cancelling_tasks True job
      (new_task\<lparr>jt_execution := Execution_cancelled, jt_point := Returning, jt_heartbeat := Beat_cancelled\<rparr>), d)"
    by (simp add: new_task_def)
  note fx_task_next [OF this t_return [OF _ prod.collapse [symmetric] return_settles, of _ ?e]]
  then obtain t d' where over: "process_reachable True ?s ''w2'' (fx_process Cancelling_tasks True job t, d')"
    and "is_over (jt_point t)"
    by (auto simp: new_task_def fx_env_def)
  with w_done [of 0 job "fx_process Cancelling_tasks True job t" True ?s "''w2''" d']
  have "process_step True ?s ''w2'' (fx_process Cancelling_tasks True job t, d')
      (fx_process Cancelling_tasks True job t\<lparr>pr_runner := \<lparr>rn_stopping = True, rn_inflight = [], rn_next_task = 1\<rparr>\<rparr>, d')"
    (is "process_step _ _ _ _ (?p, _)")
    by (simp add: fx_process_def on_inflight_done_def)
  from w_next [OF w_next [OF over this] w_returns]
  have stopped: "process_reachable True ?s ''w2'' (?p\<lparr>pr_phase := Stopped\<rparr>, d')"
    by (simp add: fx_process_def)
  from a_stopped_worker_holds_no_lease [OF stopped, of 2] stopped show ?thesis
    by (intro exI conjI) (assumption, simp_all add: fx_worker_settings_def default_settings_def fx_process_def)
qed

section \<open>The task of a job\<close>

text \<open>C21: the big-step account of a task is what the event loop runs: whatever a task on its own has done to the
  database when it ends, with its heartbeat beating beside the execution and cancellations arriving at
  any suspension, is a sequence of beats followed by one execute_job, for which the heartbeat stood
  as those beats left it.\<close>

theorem tasks_refine_execute_job:
  assumes "task_run s w job d0 (t, d)" and "jt_point t = Task_over how"
  shows "\<exists>es ch ex hb e. d = execute_job JobRepository ch s w job ex hb e
      (snd (run_lease_heartbeat JobRepository s (j_id job) w es d0)) \<and>
    heartbeat_left hb (fst (run_lease_heartbeat JobRepository s (j_id job) w es d0))"
proof -
  have "closed_db s w job d0 d"
    using task_run_accounted [OF assms(1)] assms(2) by (simp add: accounted_def)
  then show ?thesis unfolding closed_db_def beaten_db_def by blast
qed

definition fx_chance :: chance where
  "fx_chance = \<lparr>ch_rnd = (\<lambda>x. x), ch_uniform = (\<lambda>a b. a)\<rparr>"

definition fx_failure :: executor_result where
  "fx_failure = http_failure Out_retryable_failure ''ConnectError'' ''refused'' None 7"

lemma fx_recording:
  "task_run fx_worker_settings ''w1'' (fx_job 1 Leased 1) fx_db
     (\<lparr>jt_point = Recording fx_failure, jt_execution = Executed (Inr fx_failure), jt_heartbeat = Beat_cancelled,
       jt_cancel = False\<rparr>, fx_db)"
proof -
  let ?s = fx_worker_settings and ?job = "fx_job 1 Leased 1" and ?v = "Inr fx_failure :: exn + executor_result"
  let ?t = "\<lambda>p hb. \<lparr>jt_point = p, jt_execution = Executed ?v, jt_heartbeat = hb, jt_cancel = False\<rparr>"
  have v: "dispatch_job (\<lambda>_. ?v) False 0 0 ?job = ?v"
    by (simp add: dispatch_job_def fx_job_def)
  have "task_step False ?s ''w1'' ?job (new_task, fx_db) (?t Awaiting_execution Beating, fx_db)"
    using t_executed [of new_task False False ?s "''w1''" ?job fx_db "\<lambda>_. ?v" False 0 0]
    unfolding v by (simp add: new_task_def)
  note r_step [OF r_start this]
  moreover have "task_step False ?s ''w1'' ?job (?t Awaiting_execution Beating, fx_db)
      (?t (Awaiting_heartbeat fx_failure) Beating, fx_db)"
    using t_woken [of "?t Awaiting_execution Beating" ?v False ?s "''w1''" ?job fx_db]
    by (simp add: woken_def result_of_def)
  ultimately have "task_run ?s ''w1'' ?job fx_db (?t (Awaiting_heartbeat fx_failure) Beating, fx_db)" by (rule r_step)
  moreover have "task_step False ?s ''w1'' ?job (?t (Awaiting_heartbeat fx_failure) Beating, fx_db)
      (?t (Awaiting_heartbeat fx_failure) Beat_cancelled, fx_db)"
    using t_heartbeat_cancelled [of "?t (Awaiting_heartbeat fx_failure) Beating" False ?s "''w1''" ?job fx_db] by simp
  ultimately have "task_run ?s ''w1'' ?job fx_db (?t (Awaiting_heartbeat fx_failure) Beat_cancelled, fx_db)"
    by (rule r_step)
  moreover have "task_step False ?s ''w1'' ?job (?t (Awaiting_heartbeat fx_failure) Beat_cancelled, fx_db)
      (?t (Recording fx_failure) Beat_cancelled, fx_db)"
    using t_heartbeat_gone [of "?t (Awaiting_heartbeat fx_failure) Beat_cancelled" fx_failure False ?s "''w1''" ?job fx_db]
    by simp
  ultimately show ?thesis by (rule r_step)
qed

theorem tasks_refine_execute_job_witness:
  "\<exists>t d es ch ex hb e. task_run fx_worker_settings ''w1'' (fx_job 1 Leased 1) fx_db (t, d) \<and> jt_point t = Task_over Task_returned \<and>
    d = execute_job JobRepository ch fx_worker_settings ''w1'' (fx_job 1 Leased 1) ex hb e
      (snd (run_lease_heartbeat JobRepository fx_worker_settings 1 ''w1'' es fx_db))"
proof -
  let ?s = fx_worker_settings and ?job = "fx_job 1 Leased 1"
  have "map_sum id id (fst (transact (fx_env 3 100) (record_result JobRepository fx_chance ?s ''w1'' ?job fx_failure) fx_db)) = Inr True"
    by code_simp
  then obtain b d where "transact (fx_env 3 100) (record_result JobRepository fx_chance ?s ''w1'' ?job fx_failure) fx_db = (Inr b, d)"
    by (rule transact_evalE)
  from r_step [OF fx_recording t_record [OF _ this, of _ False]]
  obtain t where run: "task_run ?s ''w1'' ?job fx_db (t, d)" and over: "jt_point t = Task_over Task_returned"
    by (auto simp: settles_def)
  have "j_id ?job = 1" by (simp add: fx_job_def)
  from tasks_refine_execute_job [OF run over, unfolded this] run over show ?thesis by blast
qed



section \<open>Tasks without the lease\<close>

text \<open>C23: a task whose worker no longer holds the lease of its job changes nothing: no result, no
  attempt, no return to pending, however the execution and its heartbeat ended. Its heartbeat reports
  the loss in its first round, or fails.\<close>

theorem a_task_without_the_lease_changes_nothing:
  assumes "wf_db d" and "\<not> holds_lease (j_id job) w d"
  shows "execute_job JobRepository c s w job exec hb e d = d \<and>
    run_lease_heartbeat JobRepository s (j_id job) w (e # es) d \<in> {(Inr False, d)} \<union> range (\<lambda>x. (Inl x, d))"
  using pg_leases.execute_job_without_lease [OF assms] pg_leases.heartbeat_lost [OF assms, of "e # es" s]
  by simp

theorem a_task_without_the_lease_changes_nothing_witness:
  "execute_job JobRepository fx_chance fx_worker_settings ''w2'' (fx_job 1 Leased 1) (Finished (Inr fx_failure)) Beating
    (fx_env 3 100) fx_db = fx_db"
proof -
  have "\<not> holds_lease (j_id (fx_job 1 Leased 1)) ''w2'' fx_db"
    by (auto simp: holds_lease_owned fx_db_def owned_def fx_job_def)
  from a_task_without_the_lease_changes_nothing [OF fx_wf this] show ?thesis by blast
qed

text \<open>A recorded result settles the job: succeeded, retried or dead-lettered as outcome and attempts
  say, the lease given up, one attempt added. A retry waits at least one second and at most the
  configured maximum.\<close>

theorem recorded_results_settle_the_job:
  assumes "wf_db d" and "transact e (record_result JobRepository c s w job r) d = (Inr True, d')"
    and "1 \<le> retry_max_seconds s"
  shows "\<exists>k a. job_by_id (j_id job) d' = Some k \<and> j_status k = settled_status job r \<and>
    j_locked_by k = None \<and> attempts d' = attempts d @ [a] \<and> a_job_id a = j_id job \<and>
    (j_status k = Pending \<longrightarrow> e_now e + seconds 1 \<le> j_available_at k \<and>
       j_available_at k \<le> e_now e + seconds (retry_max_seconds s))"
proof -
  from assms(2) obtain t where t: "record_result JobRepository c s w job r (open_session e d) = (Inr True, t)"
    and d': "d' = working t"
    by (rule transact_InrD)
  have wf: "wf_db (working (open_session e d))" using assms(1) by simp
  from t wf obtain j where j: "job_by_id (j_id job) (working t) = Some
      (if x_outcome r = Out_succeeded then completed (x_response_status r) (now (open_session e d)) j
       else failed (settled_status job r = Pending) (retry_delay c s job) (x_error_type r)
              (x_error_message r) (x_response_status r) (now (open_session e d)) j)"
    and a: "\<exists>a. attempts (working t) = attempts (working (open_session e d)) @ [a] \<and> a_job_id a = j_id job \<and>
      a_attempt_number a = j_attempt_count job \<and> a_worker_id a = w"
    by (rule record_result_settles)
  have delay: "1 \<le> retry_delay c s job" "retry_delay c s job \<le> retry_max_seconds s"
    using retry_delay_bounds [OF assms(3)] by (simp_all add: retry_delay_def)
  show ?thesis
  proof (cases "x_outcome r = Out_succeeded")
    case True
    with j a d' show ?thesis by (auto simp: completed_def settled_status_def)
  next
    case False
    then have "settled_status job r = Pending \<or> settled_status job r = Dead_letter"
      by (simp add: settled_status_def)
    with False j a d' delay show ?thesis by (auto simp: failed_def seconds_def)
  qed
qed

theorem recorded_results_settle_the_job_witness:
  "\<exists>d'. transact (fx_env 3 100) (record_result JobRepository fx_chance fx_worker_settings ''w1'' (fx_job 1 Leased 1) fx_failure) fx_db =
      (Inr True, d') \<and> (\<exists>k. job_by_id 1 d' = Some k \<and> j_status k = Pending)"
proof -
  have "map_sum id id (fst (transact (fx_env 3 100) (record_result JobRepository fx_chance fx_worker_settings ''w1''
      (fx_job 1 Leased 1) fx_failure) fx_db)) = Inr True"
    by code_simp
  then obtain b d' where "transact (fx_env 3 100) (record_result JobRepository fx_chance fx_worker_settings ''w1''
      (fx_job 1 Leased 1) fx_failure) fx_db = (Inr b, d')" and "id b = True"
    by (rule transact_evalE)
  then have t: "transact (fx_env 3 100) (record_result JobRepository fx_chance fx_worker_settings ''w1''
      (fx_job 1 Leased 1) fx_failure) fx_db = (Inr True, d')" by simp
  have "1 \<le> retry_max_seconds fx_worker_settings" "settled_status (fx_job 1 Leased 1) fx_failure = Pending"
    by code_simp+
  with recorded_results_settle_the_job [OF fx_wf t] have "\<exists>k. job_by_id 1 d' = Some k \<and> j_status k = Pending"
    by auto
  with t show ?thesis by (intro exI [of _ d'] conjI)
qed

text \<open>Shutting down gives every running job back: once the closing transactions of the cancelled tasks
  have gone through, the worker holds the lease of none of the jobs it was running, even of those whose
  result was already recorded when the cancellation came.\<close>

theorem shutdown_returns_running_jobs:
  assumes "\<And>t n. \<not> e_faults (envs t) n" and "\<And>t. is_cancelled (fst (how t))" and "(t, job) \<in> set running"
  shows "\<not> holds_lease (j_id job) w (shutdown_inflight JobRepository c s w how envs running d)"
  using assms(3)
proof (induction running arbitrary: d)
  case (Cons x rest)
  show ?case
  proof (cases "(t, job) \<in> set rest")
    case True
    with Cons.IH show ?thesis by (cases x) simp
  next
    case False
    with Cons.prems have "x = (t, job)" by simp
    then show ?thesis
      using cancelled_task_gives_lease_up [OF assms(2,1)] by (simp add: shutdown_keeps_unheld)
  qed
qed simp

theorem shutdown_returns_running_jobs_witness:
  "\<not> holds_lease 1 ''w1'' (shutdown_inflight JobRepository fx_chance fx_worker_settings ''w1''
    (\<lambda>_. (Cancelled_execution, Beating)) (\<lambda>_. fx_env 3 100) [(0, fx_job 1 Leased 1)] fx_db)"
  using shutdown_returns_running_jobs [of "\<lambda>_. fx_env 3 100" "\<lambda>_. (Cancelled_execution, Beating)" 0
      "fx_job 1 Leased 1" "[(0, fx_job 1 Leased 1)]" "''w1''" fx_chance fx_worker_settings fx_db]
  by (simp add: fx_env_def)

section \<open>Retry delays\<close>

text \<open>C34: the delay before a retry lies between one second and both the configured maximum and twice the
  exponential base delay, which doubles with every attempt until it reaches the maximum and never falls;
  without jitter the delay is that base delay.\<close>

theorem retry_delays_back_off_exponentially:
  assumes "retry_fields_ok s" and "rounding rnd" and "draws_between uniform"
  shows "1 \<le> calculate_retry_delay_seconds rnd uniform n s \<and>
    calculate_retry_delay_seconds rnd uniform n s \<le> min (retry_max_seconds s) (2 * base_delay n s) \<and>
    (retry_jitter_ratio s = 0 \<longrightarrow> calculate_retry_delay_seconds rnd uniform n s = base_delay n s) \<and>
    base_delay n s \<le> base_delay (n + 1) s \<and>
    (1 \<le> n \<longrightarrow> retry_base_seconds s * 2 ^ nat n \<le> retry_max_seconds s \<longrightarrow>
       base_delay (n + 1) s = 2 * base_delay n s)"
proof -
  have "1 \<le> retry_max_seconds s" using assms(1) by (simp add: retry_fields_ok_def in_range_def)
  from retry_delay_bounds [OF this] retry_delay_le_double [OF assms] retry_delay_no_jitter [OF assms]
    base_delay_mono [OF assms(1), of n "n + 1"] base_delay_double [OF _ _ assms(1), of n]
  show ?thesis by simp
qed

theorem retry_delays_back_off_exponentially_witness:
  "calculate_retry_delay_seconds (\<lambda>x. x) (\<lambda>a b. b) 3 fx_worker_settings \<le> 16"
proof -
  have f: "retry_fields_ok fx_worker_settings"
    by (simp add: fx_worker_settings_def default_settings_def retry_fields_ok_def in_range_def)
  have "base_delay 3 fx_worker_settings = 8"
    by (simp add: base_delay_def fx_worker_settings_def default_settings_def)
  with retry_delays_back_off_exponentially [OF f, of "\<lambda>x. x" "\<lambda>a b. b" 3] show ?thesis
    by (simp add: rounding_def draws_between_def)
qed

section \<open>The HTTP executor\<close>

text \<open>The result of a response depends on its status alone: 2xx succeeds, 408, 409, 425, 429 and 5xx
  are retried, the rest fails for good; and the stored preview is the first 2000 bytes of the body,
  however it is cut into chunks.\<close>

theorem responses_are_classified_by_status:
  "http_result decode ms (Response st chunks) =
     Inr \<lparr>x_outcome = (if 200 \<le> st \<and> st < 300 then Out_succeeded
            else if st \<in> {408, 409, 425, 429} \<or> 500 \<le> st then Out_retryable_failure
            else Out_permanent_failure),
          x_error_type = (if 200 \<le> st \<and> st < 300 then None else Some ''http_status''),
          x_error_message = (if 200 \<le> st \<and> st < 300 then None else Some (''HTTP status '' @ int_str st)),
          x_response_status = Some st,
          x_response_body_preview = Some (decode (take 2000 (concat chunks))), x_duration_ms = ms\<rparr>"
  by (simp add: classify_response_def Let_def RETRYABLE_HTTP_STATUSES_def read_response_preview_def
      read_chunks_concat RESPONSE_PREVIEW_BYTES_def)

text \<open>C38: a response whose preview contains a NUL character is never recorded, whatever its status: the
  transaction that would record it fails and changes nothing, so the job stays leased until its lease
  expires and is then delivered again.\<close>

theorem a_response_with_a_nul_is_never_recorded:
  assumes "wf_db d" and "holds_lease (j_id job) w d"
    and "http_result decode ms (Response st chunks) = Inr r"
    and "CHR 0x00 \<in> set (decode (take 2000 (concat chunks)))"
  shows "(\<exists>x. fst (transact e (record_result JobRepository c s w job r) d) = Inl x) \<and>
    snd (transact e (record_result JobRepository c s w job r) d) = d"
proof -
  obtain res d' where t: "transact e (record_result JobRepository c s w job r) d = (res, d')"
    by (cases "transact e (record_result JobRepository c s w job r) d")
  from assms(3) have "x_response_body_preview r = Some (decode (take 2000 (concat chunks)))"
    by (auto simp: classify_response_def Let_def read_response_preview_def read_chunks_concat RESPONSE_PREVIEW_BYTES_def)
  with assms(4) have unstorable: "\<not> storable_text (x_response_body_preview r)"
    by (simp add: storable_text_def)
  have "res \<noteq> Inr b" for b
  proof
    assume "res = Inr b"
    with t have "transact e (record_result JobRepository c s w job r) d = (Inr b, d')" by simp
    then obtain s' where rec: "record_result JobRepository c s w job r (open_session e d) = (Inr b, s')"
      by (rule transact_InrD)
    then have "\<not> b"
      by (auto simp: record_result_def split: if_splits
          dest: complete_job_unstorable [OF _ unstorable] fail_job_unstorable [OF _ unstorable])
    moreover from pg_leases.record_result_Inr [OF rec] assms(2) have "b" by simp
    ultimately show False by simp
  qed
  then obtain x where "res = Inl x" by (cases res) auto
  with t transact_Inl_same [OF uncommitted_record_result] show ?thesis by simp
qed

theorem a_response_with_a_nul_is_never_recorded_witness:
  "\<exists>r. http_result id 1 (Response 200 [[CHR 0x00]]) = Inr r \<and> x_outcome r = Out_succeeded \<and>
     snd (transact (fx_env 3 100) (record_result JobRepository fx_chance fx_worker_settings ''w1'' (fx_job 1 Leased 1) r)
       fx_db) = fx_db"
proof -
  obtain r where r: "http_result id 1 (Response 200 [[CHR 0x00]]) = Inr r" "x_outcome r = Out_succeeded"
    by (simp add: classify_response_def)
  have "holds_lease (j_id (fx_job 1 Leased 1)) ''w1'' fx_db"
    by (auto simp: holds_lease_owned fx_db_def owned_def fx_job_def)
  from a_response_with_a_nul_is_never_recorded [OF fx_wf this r(1)] r show ?thesis
    by (intro exI [of _ r]) simp
qed

end
