(* ===== verification/Schema.thy ===== *)
theory Schema imports Domain begin

text \<open>
  The database schema as it is declared twice, by the models of SQLAlchemy (\<open>db/models.py\<close>) and by the
  migration (\<open>migrations/versions/0001_initial_schema.py\<close>): tables, columns, checks and indexes as data,
  the migration as a list of operations, what PostgreSQL does with each of them, and what a schema
  demands of rows.
\<close>

section \<open>Declarations\<close>

datatype column_type =
    Text_type
  | String_type nat
  | Integer_type
  | Boolean_type
  | Timestamp_type
  | Uuid_type
  | Jsonb_type
  | Array_type column_type

text \<open>A foreign key: the table and column it refers to, and its \<open>ON DELETE\<close> action.\<close>

datatype reference = Reference string string "string option"

record column =
  c_name :: string
  c_type :: column_type
  c_primary_key :: bool
  c_nullable :: bool
  c_default :: "string option"
  c_reference :: "reference option"

text \<open>The SQL expressions of checks and of partial indexes.\<close>

datatype condition =
    Positive string
  | One_of string "string list"
  | Equals string string
  | Is_not_null string

fun quoted_list :: "string list \<Rightarrow> string" where
  "quoted_list [] = ''''"
| "quoted_list [v] = [CHR 0x27] @ v @ [CHR 0x27]"
| "quoted_list (v # vs) = [CHR 0x27] @ v @ [CHR 0x27] @ '', '' @ quoted_list vs"

fun sql_text :: "condition \<Rightarrow> string" where
  "sql_text (Positive c) = c @ '' > 0''"
| "sql_text (One_of c vs) = c @ '' IN ('' @ quoted_list vs @ '')''"
| "sql_text (Equals c v) = c @ '' = '' @ [CHR 0x27] @ v @ [CHR 0x27]"
| "sql_text (Is_not_null c) = c @ '' IS NOT NULL''"

record table =
  t_name :: string
  t_columns :: "column list"
  t_checks :: "(string \<times> condition) list"

record index =
  i_name :: string
  i_table :: string
  i_expressions :: "string list"
  i_unique :: bool
  i_where :: "condition option"

record schema =
  s_tables :: "table list"
  s_indexes :: "index list"

definition empty_schema :: schema where
  "empty_schema = \<lparr>s_tables = [], s_indexes = []\<rparr>"

text \<open>\<open>sa.Column\<close>: a primary key is not nullable, any other column says whether it is.\<close>

definition key_column :: "string \<Rightarrow> column_type \<Rightarrow> string option \<Rightarrow> column" where
  "key_column n ty dflt =
     \<lparr>c_name = n, c_type = ty, c_primary_key = True, c_nullable = False, c_default = dflt, c_reference = None\<rparr>"

definition data_column :: "string \<Rightarrow> column_type \<Rightarrow> bool \<Rightarrow> string option \<Rightarrow> column" where
  "data_column n ty nullable dflt =
     \<lparr>c_name = n, c_type = ty, c_primary_key = False, c_nullable = nullable, c_default = dflt, c_reference = None\<rparr>"

definition foreign_column :: "string \<Rightarrow> column_type \<Rightarrow> reference \<Rightarrow> bool \<Rightarrow> column" where
  "foreign_column n ty ref nullable =
     \<lparr>c_name = n, c_type = ty, c_primary_key = False, c_nullable = nullable, c_default = None,
      c_reference = Some ref\<rparr>"

section \<open>The migration\<close>

datatype operation =
    Create_table table
  | Create_index index
  | Drop_index string string
  | Drop_table string

abbreviation now_text :: "string option" where
  "now_text \<equiv> Some ''now()''"

definition empty_json :: "string option" where
  "empty_json = Some ([CHR 0x27] @ ''{}'' @ [CHR 0x27] @ ''::jsonb'')"

definition quoted :: "string \<Rightarrow> string" where
  "quoted v = [CHR 0x27] @ v @ [CHR 0x27]"

definition migration_queue :: table where
  "migration_queue =
     \<lparr>t_name = ''pgrelay_queue'',
      t_columns =
        [key_column ''name'' Text_type None,
         data_column ''paused'' Boolean_type False (Some ''false''),
         data_column ''concurrency_limit'' Integer_type False (Some ''8''),
         data_column ''created_at'' Timestamp_type False now_text,
         data_column ''updated_at'' Timestamp_type False now_text],
      t_checks = [(''ck_pgrelay_queue_concurrency_limit'', Positive ''concurrency_limit'')]\<rparr>"

definition migration_job :: table where
  "migration_job =
     \<lparr>t_name = ''pgrelay_job'',
      t_columns =
        [key_column ''id'' Uuid_type (Some ''gen_random_uuid()''),
         foreign_column ''queue_name'' Text_type (Reference ''pgrelay_queue'' ''name'' None) False,
         data_column ''kind'' Text_type False None,
         data_column ''name'' Text_type False None,
         data_column ''payload'' Jsonb_type False empty_json,
         data_column ''headers'' Jsonb_type False empty_json,
         data_column ''metadata'' Jsonb_type False empty_json,
         data_column ''status'' Text_type False (Some (quoted ''pending'')),
         data_column ''priority'' Integer_type False (Some ''0''),
         data_column ''max_attempts'' Integer_type False (Some ''10''),
         data_column ''attempt_count'' Integer_type False (Some ''0''),
         data_column ''available_at'' Timestamp_type False now_text,
         data_column ''timeout_seconds'' Integer_type False (Some ''30''),
         data_column ''idempotency_key'' Text_type True None,
         data_column ''dedupe_key'' Text_type True None,
         foreign_column ''replayed_from_job_id'' Uuid_type (Reference ''pgrelay_job'' ''id'' (Some ''SET NULL'')) True,
         data_column ''locked_by'' Text_type True None,
         data_column ''locked_until'' Timestamp_type True None,
         data_column ''last_error_type'' Text_type True None,
         data_column ''last_error_message'' Text_type True None,
         data_column ''last_response_status'' Integer_type True None,
         data_column ''trace_id'' Text_type True None,
         data_column ''created_at'' Timestamp_type False now_text,
         data_column ''updated_at'' Timestamp_type False now_text,
         data_column ''completed_at'' Timestamp_type True None],
      t_checks =
        [(''ck_pgrelay_job_kind'', One_of ''kind'' [''http'', ''handler'']),
         (''ck_pgrelay_job_status'',
            One_of ''status'' [''pending'', ''leased'', ''succeeded'', ''dead_letter'', ''cancelled'']),
         (''ck_pgrelay_job_max_attempts'', Positive ''max_attempts'')]\<rparr>"

definition migration_attempt :: table where
  "migration_attempt =
     \<lparr>t_name = ''pgrelay_attempt'',
      t_columns =
        [key_column ''id'' Uuid_type (Some ''gen_random_uuid()''),
         foreign_column ''job_id'' Uuid_type (Reference ''pgrelay_job'' ''id'' (Some ''CASCADE'')) False,
         data_column ''attempt_number'' Integer_type False None,
         data_column ''worker_id'' Text_type False None,
         data_column ''status'' Text_type False None,
         data_column ''started_at'' Timestamp_type False None,
         data_column ''finished_at'' Timestamp_type False now_text,
         data_column ''duration_ms'' Integer_type False (Some ''0''),
         data_column ''error_type'' Text_type True None,
         data_column ''error_message'' Text_type True None,
         data_column ''response_status'' Integer_type True None,
         data_column ''response_body_preview'' (String_type 2000) True None],
      t_checks =
        [(''ck_pgrelay_attempt_number'', Positive ''attempt_number''),
         (''ck_pgrelay_attempt_status'',
            One_of ''status'' [''succeeded'', ''failed'', ''timeout'', ''lease_expired''])]\<rparr>"

definition migration_worker :: table where
  "migration_worker =
     \<lparr>t_name = ''pgrelay_worker'',
      t_columns =
        [key_column ''worker_id'' Text_type None,
         data_column ''queues'' (Array_type Text_type) False None,
         data_column ''hostname'' Text_type False None,
         data_column ''started_at'' Timestamp_type False now_text,
         data_column ''last_heartbeat_at'' Timestamp_type False now_text],
      t_checks = []\<rparr>"

text \<open>\<open>op.create_index\<close>: its columns or expressions, whether it is unique, and its \<open>postgresql_where\<close>.\<close>

definition an_index :: "string \<Rightarrow> string \<Rightarrow> string list \<Rightarrow> bool \<Rightarrow> condition option \<Rightarrow> index" where
  "an_index n t es u w =
     \<lparr>i_name = n, i_table = t, i_expressions = es, i_unique = u, i_where = w\<rparr>"

definition migration_indexes :: "index list" where
  "migration_indexes =
     [an_index ''idx_pgrelay_job_claim'' ''pgrelay_job''
        [''queue_name'', ''priority DESC'', ''available_at'', ''created_at''] False
        (Some (Equals ''status'' ''pending'')),
      an_index ''idx_pgrelay_job_locked_expired'' ''pgrelay_job'' [''locked_until''] False
        (Some (Equals ''status'' ''leased'')),
      an_index ''idx_pgrelay_job_status_created'' ''pgrelay_job'' [''status'', ''created_at''] False None,
      an_index ''idx_pgrelay_job_dedupe_key'' ''pgrelay_job'' [''dedupe_key''] False
        (Some (Is_not_null ''dedupe_key'')),
      an_index ''uq_pgrelay_job_queue_idempotency_key'' ''pgrelay_job'' [''queue_name'', ''idempotency_key''] True
        (Some (Is_not_null ''idempotency_key'')),
      an_index ''idx_pgrelay_job_replayed_from'' ''pgrelay_job'' [''replayed_from_job_id''] False
        (Some (Is_not_null ''replayed_from_job_id'')),
      an_index ''idx_pgrelay_attempt_job_started'' ''pgrelay_attempt'' [''job_id'', ''started_at''] False None,
      an_index ''idx_pgrelay_worker_last_heartbeat'' ''pgrelay_worker'' [''last_heartbeat_at''] False None]"

definition upgrade :: "operation list" where
  "upgrade =
     [Create_table migration_queue, Create_table migration_job, Create_table migration_attempt,
      Create_table migration_worker] @ map Create_index migration_indexes"

definition downgrade :: "operation list" where
  "downgrade =
     [Drop_index ''idx_pgrelay_worker_last_heartbeat'' ''pgrelay_worker'',
      Drop_index ''idx_pgrelay_attempt_job_started'' ''pgrelay_attempt'',
      Drop_index ''idx_pgrelay_job_replayed_from'' ''pgrelay_job'',
      Drop_index ''uq_pgrelay_job_queue_idempotency_key'' ''pgrelay_job'',
      Drop_index ''idx_pgrelay_job_dedupe_key'' ''pgrelay_job'',
      Drop_index ''idx_pgrelay_job_status_created'' ''pgrelay_job'',
      Drop_index ''idx_pgrelay_job_locked_expired'' ''pgrelay_job'',
      Drop_index ''idx_pgrelay_job_claim'' ''pgrelay_job'',
      Drop_table ''pgrelay_worker'',
      Drop_table ''pgrelay_attempt'',
      Drop_table ''pgrelay_job'',
      Drop_table ''pgrelay_queue'']"

section \<open>The models\<close>

text \<open>
  \<open>mapped_column\<close>: the type is given, or follows from the annotation, or, for a foreign key without one, is
  the type of the column it refers to.
\<close>

record mapped_column =
  m_name :: string
  m_type :: "column_type option"
  m_primary_key :: bool
  m_nullable :: bool
  m_default :: "string option"
  m_reference :: "reference option"

record model =
  md_table :: string
  md_columns :: "mapped_column list"
  md_checks :: "(string \<times> condition) list"
  md_indexes :: "(string \<times> string list \<times> bool \<times> condition option) list"

definition mapped_key :: "string \<Rightarrow> column_type \<Rightarrow> string option \<Rightarrow> mapped_column" where
  "mapped_key n ty dflt =
     \<lparr>m_name = n, m_type = Some ty, m_primary_key = True, m_nullable = False, m_default = dflt, m_reference = None\<rparr>"

definition mapped :: "string \<Rightarrow> column_type \<Rightarrow> bool \<Rightarrow> string option \<Rightarrow> mapped_column" where
  "mapped n ty nullable dflt =
     \<lparr>m_name = n, m_type = Some ty, m_primary_key = False, m_nullable = nullable, m_default = dflt, m_reference = None\<rparr>"

definition mapped_foreign :: "string \<Rightarrow> reference \<Rightarrow> bool \<Rightarrow> mapped_column" where
  "mapped_foreign n ref nullable =
     \<lparr>m_name = n, m_type = None, m_primary_key = False, m_nullable = nullable, m_default = None,
      m_reference = Some ref\<rparr>"

definition PgRelayQueue :: model where
  "PgRelayQueue =
     \<lparr>md_table = ''pgrelay_queue'',
      md_columns =
        [mapped_key ''name'' Text_type None,
         mapped ''paused'' Boolean_type False (Some ''false''),
         mapped ''concurrency_limit'' Integer_type False (Some ''8''),
         mapped ''created_at'' Timestamp_type False now_text,
         mapped ''updated_at'' Timestamp_type False now_text],
      md_checks = [(''ck_pgrelay_queue_concurrency_limit'', Positive ''concurrency_limit'')],
      md_indexes = []\<rparr>"

definition PgRelayJob :: model where
  "PgRelayJob =
     \<lparr>md_table = ''pgrelay_job'',
      md_columns =
        [mapped_key ''id'' Uuid_type (Some ''gen_random_uuid()''),
         mapped_foreign ''queue_name'' (Reference ''pgrelay_queue'' ''name'' None) False,
         mapped ''kind'' Text_type False None,
         mapped ''name'' Text_type False None,
         mapped ''payload'' Jsonb_type False empty_json,
         mapped ''headers'' Jsonb_type False empty_json,
         mapped ''metadata'' Jsonb_type False empty_json,
         mapped ''status'' Text_type False (Some (quoted ''pending'')),
         mapped ''priority'' Integer_type False (Some ''0''),
         mapped ''max_attempts'' Integer_type False (Some ''10''),
         mapped ''attempt_count'' Integer_type False (Some ''0''),
         mapped ''available_at'' Timestamp_type False now_text,
         mapped ''timeout_seconds'' Integer_type False (Some ''30''),
         mapped ''idempotency_key'' Text_type True None,
         mapped ''dedupe_key'' Text_type True None,
         mapped_foreign ''replayed_from_job_id'' (Reference ''pgrelay_job'' ''id'' (Some ''SET NULL'')) True,
         mapped ''locked_by'' Text_type True None,
         mapped ''locked_until'' Timestamp_type True None,
         mapped ''last_error_type'' Text_type True None,
         mapped ''last_error_message'' Text_type True None,
         mapped ''last_response_status'' Integer_type True None,
         mapped ''trace_id'' Text_type True None,
         mapped ''created_at'' Timestamp_type False now_text,
         mapped ''updated_at'' Timestamp_type False now_text,
         mapped ''completed_at'' Timestamp_type True None],
      md_checks =
        [(''ck_pgrelay_job_kind'', One_of ''kind'' [''http'', ''handler'']),
         (''ck_pgrelay_job_status'',
            One_of ''status'' [''pending'', ''leased'', ''succeeded'', ''dead_letter'', ''cancelled'']),
         (''ck_pgrelay_job_max_attempts'', Positive ''max_attempts'')],
      md_indexes =
        [(''idx_pgrelay_job_claim'', [''queue_name'', ''priority DESC'', ''available_at'', ''created_at''], False,
            Some (Equals ''status'' ''pending'')),
         (''idx_pgrelay_job_locked_expired'', [''locked_until''], False, Some (Equals ''status'' ''leased'')),
         (''idx_pgrelay_job_status_created'', [''status'', ''created_at''], False, None),
         (''idx_pgrelay_job_dedupe_key'', [''dedupe_key''], False, Some (Is_not_null ''dedupe_key'')),
         (''uq_pgrelay_job_queue_idempotency_key'', [''queue_name'', ''idempotency_key''], True,
            Some (Is_not_null ''idempotency_key'')),
         (''idx_pgrelay_job_replayed_from'', [''replayed_from_job_id''], False,
            Some (Is_not_null ''replayed_from_job_id''))]\<rparr>"

definition PgRelayAttempt :: model where
  "PgRelayAttempt =
     \<lparr>md_table = ''pgrelay_attempt'',
      md_columns =
        [mapped_key ''id'' Uuid_type (Some ''gen_random_uuid()''),
         mapped_foreign ''job_id'' (Reference ''pgrelay_job'' ''id'' (Some ''CASCADE'')) False,
         mapped ''attempt_number'' Integer_type False None,
         mapped ''worker_id'' Text_type False None,
         mapped ''status'' Text_type False None,
         mapped ''started_at'' Timestamp_type False None,
         mapped ''finished_at'' Timestamp_type False now_text,
         mapped ''duration_ms'' Integer_type False (Some ''0''),
         mapped ''error_type'' Text_type True None,
         mapped ''error_message'' Text_type True None,
         mapped ''response_status'' Integer_type True None,
         mapped ''response_body_preview'' (String_type 2000) True None],
      md_checks =
        [(''ck_pgrelay_attempt_number'', Positive ''attempt_number''),
         (''ck_pgrelay_attempt_status'',
            One_of ''status'' [''succeeded'', ''failed'', ''timeout'', ''lease_expired''])],
      md_indexes = [(''idx_pgrelay_attempt_job_started'', [''job_id'', ''started_at''], False, None)]\<rparr>"

definition PgRelayWorker :: model where
  "PgRelayWorker =
     \<lparr>md_table = ''pgrelay_worker'',
      md_columns =
        [mapped_key ''worker_id'' Text_type None,
         mapped ''queues'' (Array_type Text_type) False None,
         mapped ''hostname'' Text_type False None,
         mapped ''started_at'' Timestamp_type False now_text,
         mapped ''last_heartbeat_at'' Timestamp_type False now_text],
      md_checks = [],
      md_indexes = [(''idx_pgrelay_worker_last_heartbeat'', [''last_heartbeat_at''], False, None)]\<rparr>"

text \<open>\<open>Base.metadata\<close> once the models are loaded, and the schema it describes.\<close>

definition metadata :: "model list" where
  "metadata = [PgRelayQueue, PgRelayJob, PgRelayAttempt, PgRelayWorker]"

definition referred_type :: "model list \<Rightarrow> reference \<Rightarrow> column_type option" where
  "referred_type mds ref =
     (case ref of Reference t c action \<Rightarrow>
        case find (\<lambda>md. md_table md = t) mds of
          None \<Rightarrow> None
        | Some md \<Rightarrow>
            (case find (\<lambda>m. m_name m = c) (md_columns md) of None \<Rightarrow> None | Some m \<Rightarrow> m_type m))"

definition resolved :: "model list \<Rightarrow> mapped_column \<Rightarrow> column option" where
  "resolved mds m =
     map_option (\<lambda>ty. \<lparr>c_name = m_name m, c_type = ty, c_primary_key = m_primary_key m,
         c_nullable = m_nullable m, c_default = m_default m, c_reference = m_reference m\<rparr>)
       (case m_type m of
          Some ty \<Rightarrow> Some ty
        | None \<Rightarrow> (case m_reference m of None \<Rightarrow> None | Some ref \<Rightarrow> referred_type mds ref))"

definition declared_table :: "model list \<Rightarrow> model \<Rightarrow> table option" where
  "declared_table mds md =
     map_option (\<lambda>cs. \<lparr>t_name = md_table md, t_columns = cs, t_checks = md_checks md\<rparr>)
       (those (map (resolved mds) (md_columns md)))"

definition declared_indexes :: "model \<Rightarrow> index list" where
  "declared_indexes md = map (\<lambda>(n, es, u, w). an_index n (md_table md) es u w) (md_indexes md)"

definition declared_schema :: "model list \<Rightarrow> schema option" where
  "declared_schema mds =
     map_option (\<lambda>ts. \<lparr>s_tables = ts, s_indexes = concat (map declared_indexes mds)\<rparr>)
       (those (map (declared_table mds) mds))"

section \<open>Running a migration\<close>

definition has_table :: "string \<Rightarrow> schema \<Rightarrow> bool" where
  "has_table n sc \<longleftrightarrow> n \<in> t_name ` set (s_tables sc)"

definition refers_to :: "table \<Rightarrow> string \<Rightarrow> bool" where
  "refers_to t n \<longleftrightarrow>
     (\<exists>c \<in> set (t_columns t). case c_reference c of None \<Rightarrow> False | Some (Reference t' c' action) \<Rightarrow> t' = n)"

text \<open>A table may refer to the tables there are and to itself.\<close>

definition references_exist :: "table \<Rightarrow> schema \<Rightarrow> bool" where
  "references_exist t sc \<longleftrightarrow>
     (\<forall>c \<in> set (t_columns t). case c_reference c of
        None \<Rightarrow> True
      | Some (Reference t' c' action) \<Rightarrow>
          (\<exists>u \<in> set (t # s_tables sc). t_name u = t' \<and> c' \<in> c_name ` set (t_columns u)))"

text \<open>The columns of an index; an expression starts with its column.\<close>

definition expression_column :: "string \<Rightarrow> string" where
  "expression_column e = takeWhile (\<lambda>ch. ch \<noteq> CHR '' '') e"

definition indexable :: "index \<Rightarrow> schema \<Rightarrow> bool" where
  "indexable i sc \<longleftrightarrow>
     (\<exists>t \<in> set (s_tables sc). t_name t = i_table i \<and>
        (\<forall>e \<in> set (i_expressions i). expression_column e \<in> c_name ` set (t_columns t)))"

fun run_operation :: "operation \<Rightarrow> schema \<Rightarrow> string + schema" where
  "run_operation (Create_table t) sc =
     (if has_table (t_name t) sc then Inl ''DuplicateTable''
      else if \<not> references_exist t sc then Inl ''UndefinedTable''
      else Inr (sc\<lparr>s_tables := s_tables sc @ [t]\<rparr>))"
| "run_operation (Create_index i) sc =
     (if i_name i \<in> i_name ` set (s_indexes sc) then Inl ''DuplicateTable''
      else if \<not> indexable i sc then Inl ''UndefinedColumn''
      else Inr (sc\<lparr>s_indexes := s_indexes sc @ [i]\<rparr>))"
| "run_operation (Drop_index n t) sc =
     (if n \<notin> i_name ` set (s_indexes sc) then Inl ''UndefinedObject''
      else Inr (sc\<lparr>s_indexes := filter (\<lambda>i. i_name i \<noteq> n) (s_indexes sc)\<rparr>))"
| "run_operation (Drop_table n) sc =
     (if \<not> has_table n sc then Inl ''UndefinedTable''
      else if \<exists>t \<in> set (s_tables sc). t_name t \<noteq> n \<and> refers_to t n then Inl ''DependentObjectsStillExist''
      else Inr \<lparr>s_tables = filter (\<lambda>t. t_name t \<noteq> n) (s_tables sc),
                s_indexes = filter (\<lambda>i. i_table i \<noteq> n) (s_indexes sc)\<rparr>)"

text \<open>A migration runs in one transaction.\<close>

fun run_migration :: "operation list \<Rightarrow> schema \<Rightarrow> string + schema" where
  "run_migration [] sc = Inr sc"
| "run_migration (op # ops) sc =
     (case run_operation op sc of Inl e \<Rightarrow> Inl e | Inr sc' \<Rightarrow> run_migration ops sc')"

section \<open>A migration beside other tables\<close>

text \<open>
  What a migration does to its own tables it does beside any others, as long as the names differ and
  the others are complete: their foreign keys and indexes are about tables of their own.
\<close>

definition beside :: "schema \<Rightarrow> schema \<Rightarrow> schema" where
  "beside sc own = \<lparr>s_tables = s_tables sc @ s_tables own, s_indexes = s_indexes sc @ s_indexes own\<rparr>"

definition complete_schema :: "schema \<Rightarrow> bool" where
  "complete_schema sc \<longleftrightarrow>
     (\<forall>t \<in> set (s_tables sc). \<forall>n. refers_to t n \<longrightarrow> has_table n sc) \<and>
     (\<forall>i \<in> set (s_indexes sc). has_table (i_table i) sc)"

fun foreign_to :: "schema \<Rightarrow> operation \<Rightarrow> bool" where
  "foreign_to sc (Create_table t) = (\<not> has_table (t_name t) sc)"
| "foreign_to sc (Create_index i) = (i_name i \<notin> i_name ` set (s_indexes sc))"
| "foreign_to sc (Drop_index n t) = (n \<notin> i_name ` set (s_indexes sc))"
| "foreign_to sc (Drop_table n) = (\<not> has_table n sc)"

lemma beside_simps [simp]:
  "s_tables (beside sc own) = s_tables sc @ s_tables own" "s_indexes (beside sc own) = s_indexes sc @ s_indexes own"
  by (simp_all add: beside_def)

lemma beside_empty [simp]: "beside sc empty_schema = sc"
  by (simp add: beside_def empty_schema_def)

lemma beside_extends:
  "(beside sc own)\<lparr>s_tables := s_tables sc @ s_tables own @ ts\<rparr> = beside sc (own\<lparr>s_tables := s_tables own @ ts\<rparr>)"
  "(beside sc own)\<lparr>s_indexes := s_indexes sc @ s_indexes own @ ixs\<rparr> = beside sc (own\<lparr>s_indexes := s_indexes own @ ixs\<rparr>)"
  "(beside sc own)\<lparr>s_indexes := s_indexes sc @ ixs\<rparr> = beside sc (own\<lparr>s_indexes := ixs\<rparr>)"
  "\<lparr>s_tables = s_tables sc @ ts, s_indexes = s_indexes sc @ ixs\<rparr> = beside sc \<lparr>s_tables = ts, s_indexes = ixs\<rparr>"
  by (simp_all add: beside_def)

lemma has_table_beside: "has_table n (beside sc own) \<longleftrightarrow> has_table n sc \<or> has_table n own"
  by (auto simp: has_table_def)

lemma references_exist_beside: "references_exist t own \<Longrightarrow> references_exist t (beside sc own)"
  by (fastforce simp: references_exist_def split: option.splits reference.splits)

lemma indexable_beside: "indexable i own \<Longrightarrow> indexable i (beside sc own)"
  by (auto simp: indexable_def)

lemma run_operation_beside:
  assumes "run_operation op own = Inr own'" and "foreign_to sc op" and "complete_schema sc"
  shows "run_operation op (beside sc own) = Inr (beside sc own')"
proof (cases op)
  case (Create_table t)
  with assms show ?thesis
    by (auto simp: has_table_beside references_exist_beside beside_extends split: if_splits)
next
  case (Create_index i)
  with assms show ?thesis
    by (auto simp: indexable_beside image_Un beside_extends split: if_splits)
next
  case (Drop_index n t)
  with assms have "filter (\<lambda>i. i_name i \<noteq> n) (s_indexes sc) = s_indexes sc"
    by (force intro!: filter_True)
  with Drop_index assms show ?thesis
    by (auto simp: image_Un beside_extends split: if_splits)
next
  case (Drop_table n)
  with assms have "\<not> has_table n sc" by simp
  then have "filter (\<lambda>t. t_name t \<noteq> n) (s_tables sc) = s_tables sc"
    and "filter (\<lambda>i. i_table i \<noteq> n) (s_indexes sc) = s_indexes sc"
    and "\<forall>t \<in> set (s_tables sc). \<not> refers_to t n"
    using assms(3) by (auto simp: has_table_def complete_schema_def intro!: filter_True)
  with Drop_table assms show ?thesis
    by (auto simp: has_table_beside beside_extends split: if_splits)
qed

lemma run_migration_beside:
  "run_migration ops own = Inr own' \<Longrightarrow> \<forall>op \<in> set ops. foreign_to sc op \<Longrightarrow> complete_schema sc \<Longrightarrow>
    run_migration ops (beside sc own) = Inr (beside sc own')"
proof (induction ops arbitrary: own)
  case (Cons op ops)
  then obtain mid where "run_operation op own = Inr mid" and "run_migration ops mid = Inr own'"
    by (auto split: sum.splits)
  with Cons run_operation_beside show ?case by simp
qed simp

section \<open>What a schema demands of rows\<close>

datatype sql_value =
    Null
  | Txt string
  | Num int
  | Bit bool
  | Stamp time
  | Ident uuid
  | Doc dict
  | Texts "string list"

type_synonym sql_row = "(string \<times> sql_value) list"

definition field :: "sql_row \<Rightarrow> string \<Rightarrow> sql_value" where
  "field r c = (case map_of r c of None \<Rightarrow> Null | Some v \<Rightarrow> v)"

text \<open>The three truth values of SQL: a check passes unless it is false, a row is indexed if the condition is true.\<close>

fun truth :: "condition \<Rightarrow> sql_row \<Rightarrow> bool option" where
  "truth (Positive c) r = (case field r c of Num n \<Rightarrow> Some (0 < n) | _ \<Rightarrow> None)"
| "truth (One_of c vs) r = (case field r c of Txt v \<Rightarrow> Some (v \<in> set vs) | _ \<Rightarrow> None)"
| "truth (Equals c v) r = (case field r c of Txt u \<Rightarrow> Some (u = v) | _ \<Rightarrow> None)"
| "truth (Is_not_null c) r = Some (field r c \<noteq> Null)"

definition check_passes :: "condition \<Rightarrow> sql_row \<Rightarrow> bool" where
  "check_passes b r \<longleftrightarrow> truth b r \<noteq> Some False"

definition indexed :: "index \<Rightarrow> sql_row \<Rightarrow> bool" where
  "indexed i r \<longleftrightarrow>
     (case i_where i of None \<Rightarrow> True | Some b \<Rightarrow> truth b r = Some True) \<and>
     (\<forall>e \<in> set (i_expressions i). field r (expression_column e) \<noteq> Null)"

definition entry :: "index \<Rightarrow> sql_row \<Rightarrow> sql_value list" where
  "entry i r = map (\<lambda>e. field r (expression_column e)) (i_expressions i)"

definition primary_key :: "table \<Rightarrow> sql_row \<Rightarrow> sql_value list" where
  "primary_key t r = map (\<lambda>c. field r (c_name c)) (filter c_primary_key (t_columns t))"

definition key_exists :: "(string \<Rightarrow> sql_row list) \<Rightarrow> column \<Rightarrow> sql_row \<Rightarrow> bool" where
  "key_exists rows c r \<longleftrightarrow>
     (case c_reference c of
        None \<Rightarrow> True
      | Some (Reference t' c' action) \<Rightarrow>
          field r (c_name c) = Null \<or> field r (c_name c) \<in> (\<lambda>r'. field r' c') ` set (rows t'))"

definition table_ok :: "(string \<Rightarrow> sql_row list) \<Rightarrow> table \<Rightarrow> bool" where
  "table_ok rows t \<longleftrightarrow>
     distinct (map (primary_key t) (rows (t_name t))) \<and>
     (\<forall>r \<in> set (rows (t_name t)).
        (\<forall>c \<in> set (t_columns t). (\<not> c_nullable c \<longrightarrow> field r (c_name c) \<noteq> Null) \<and> key_exists rows c r) \<and>
        (\<forall>(n, b) \<in> set (t_checks t). check_passes b r))"

definition index_ok :: "(string \<Rightarrow> sql_row list) \<Rightarrow> index \<Rightarrow> bool" where
  "index_ok rows i \<longleftrightarrow>
     (i_unique i \<longrightarrow> distinct (map (entry i) (filter (indexed i) (rows (i_table i)))))"

definition satisfies :: "schema \<Rightarrow> (string \<Rightarrow> sql_row list) \<Rightarrow> bool" where
  "satisfies sc rows \<longleftrightarrow> (\<forall>t \<in> set (s_tables sc). table_ok rows t) \<and> (\<forall>i \<in> set (s_indexes sc). index_ok rows i)"

text \<open>The values a column can store: no NUL in a text, 32 bits in an integer.\<close>

fun stores :: "column_type \<Rightarrow> sql_value \<Rightarrow> bool" where
  "stores ty Null = True"
| "stores Text_type (Txt v) = (CHR 0x00 \<notin> set v)"
| "stores (String_type n) (Txt v) = (CHR 0x00 \<notin> set v \<and> length v \<le> n)"
| "stores Integer_type (Num k) = (- (2 ^ 31) \<le> k \<and> k < 2 ^ 31)"
| "stores Boolean_type (Bit b) = True"
| "stores Timestamp_type (Stamp u) = True"
| "stores Uuid_type (Ident u) = True"
| "stores Jsonb_type (Doc dict) = storable_json (JObj dict)"
| "stores (Array_type Text_type) (Texts vs) = (\<forall>v \<in> set vs. CHR 0x00 \<notin> set v)"
| "stores ty v = False"

definition stored_in :: "table \<Rightarrow> sql_row \<Rightarrow> bool" where
  "stored_in t r \<longleftrightarrow> (\<forall>c \<in> set (t_columns t). stores (c_type c) (field r (c_name c)))"

section \<open>The rows of the model\<close>

definition nullable :: "('a \<Rightarrow> sql_value) \<Rightarrow> 'a option \<Rightarrow> sql_value" where
  "nullable f v = (case v of None \<Rightarrow> Null | Some x \<Rightarrow> f x)"

definition queue_record :: "queue_row \<Rightarrow> sql_row" where
  "queue_record q =
     [(''name'', Txt (q_name q)), (''paused'', Bit (q_paused q)),
      (''concurrency_limit'', Num (q_concurrency_limit q)), (''created_at'', Stamp (q_created_at q)),
      (''updated_at'', Stamp (q_updated_at q))]"

definition job_record :: "job_row \<Rightarrow> sql_row" where
  "job_record j =
     [(''id'', Ident (j_id j)), (''queue_name'', Txt (j_queue_name j)), (''kind'', Txt (j_kind j)),
      (''name'', Txt (j_name j)), (''payload'', Doc (j_payload j)), (''headers'', Doc (j_headers j)),
      (''metadata'', Doc (j_metadata j)), (''status'', Txt (status_text (j_status j))),
      (''priority'', Num (j_priority j)), (''max_attempts'', Num (j_max_attempts j)),
      (''attempt_count'', Num (j_attempt_count j)), (''available_at'', Stamp (j_available_at j)),
      (''timeout_seconds'', Num (j_timeout_seconds j)), (''idempotency_key'', nullable Txt (j_idempotency_key j)),
      (''dedupe_key'', nullable Txt (j_dedupe_key j)),
      (''replayed_from_job_id'', nullable Ident (j_replayed_from_job_id j)),
      (''locked_by'', nullable Txt (j_locked_by j)), (''locked_until'', nullable Stamp (j_locked_until j)),
      (''last_error_type'', nullable Txt (j_last_error_type j)),
      (''last_error_message'', nullable Txt (j_last_error_message j)),
      (''last_response_status'', nullable Num (j_last_response_status j)),
      (''trace_id'', nullable Txt (j_trace_id j)), (''created_at'', Stamp (j_created_at j)),
      (''updated_at'', Stamp (j_updated_at j)), (''completed_at'', nullable Stamp (j_completed_at j))]"

fun attempt_status_text :: "attempt_status \<Rightarrow> string" where
  "attempt_status_text Attempt_succeeded = ''succeeded''"
| "attempt_status_text Attempt_failed = ''failed''"
| "attempt_status_text Attempt_timeout = ''timeout''"
| "attempt_status_text Attempt_lease_expired = ''lease_expired''"

definition attempt_record :: "attempt_row \<Rightarrow> sql_row" where
  "attempt_record a =
     [(''id'', Ident (a_id a)), (''job_id'', Ident (a_job_id a)), (''attempt_number'', Num (a_attempt_number a)),
      (''worker_id'', Txt (a_worker_id a)), (''status'', Txt (attempt_status_text (a_status a))),
      (''started_at'', Stamp (a_started_at a)), (''finished_at'', Stamp (a_finished_at a)),
      (''duration_ms'', Num (a_duration_ms a)), (''error_type'', nullable Txt (a_error_type a)),
      (''error_message'', nullable Txt (a_error_message a)),
      (''response_status'', nullable Num (a_response_status a)),
      (''response_body_preview'', nullable Txt (a_response_body_preview a))]"

definition worker_record :: "worker_row \<Rightarrow> sql_row" where
  "worker_record w =
     [(''worker_id'', Txt (w_worker_id w)), (''queues'', Texts (w_queues w)), (''hostname'', Txt (w_hostname w)),
      (''started_at'', Stamp (w_started_at w)), (''last_heartbeat_at'', Stamp (w_last_heartbeat_at w))]"

definition rows_of :: "db \<Rightarrow> string \<Rightarrow> sql_row list" where
  "rows_of d t =
     (if t = ''pgrelay_queue'' then map queue_record (queues d)
      else if t = ''pgrelay_job'' then map job_record (jobs d)
      else if t = ''pgrelay_attempt'' then map attempt_record (attempts d)
      else if t = ''pgrelay_worker'' then map worker_record (workers d)
      else [])"

lemma field_simps [simp]: "field [] c = Null" "field ((k, v) # r) c = (if k = c then v else field r c)"
  by (simp_all add: field_def)

lemma nullable_simps [simp]: "nullable f None = Null" "nullable f (Some x) = f x"
  by (simp_all add: nullable_def)

lemma rows_of_simps [simp]:
  "rows_of d ''pgrelay_queue'' = map queue_record (queues d)"
  "rows_of d ''pgrelay_job'' = map job_record (jobs d)"
  "rows_of d ''pgrelay_attempt'' = map attempt_record (attempts d)"
  "rows_of d ''pgrelay_worker'' = map worker_record (workers d)"
  by (simp_all add: rows_of_def)

lemma distinct_map_inj: "(\<And>x y. f x = f y \<longleftrightarrow> g x = g y) \<Longrightarrow> distinct (map f xs) \<longleftrightarrow> distinct (map g xs)"
  by (induction xs) auto

lemmas column_defs = key_column_def data_column_def foreign_column_def
lemmas row_checks = table_ok_def primary_key_def key_exists_def check_passes_def

lemma queue_table_ok:
  "table_ok (rows_of d) migration_queue \<longleftrightarrow>
     distinct (map q_name (queues d)) \<and> (\<forall>q \<in> set (queues d). queue_checks q)"
  by (simp add: row_checks migration_queue_def column_defs comp_def queue_record_def queue_checks_def
      distinct_map_inj [of "\<lambda>q. [Txt (q_name q)]" q_name])

lemma worker_table_ok: "table_ok (rows_of d) migration_worker \<longleftrightarrow> distinct (map w_worker_id (workers d))"
  by (simp add: row_checks migration_worker_def column_defs comp_def worker_record_def
      distinct_map_inj [of "\<lambda>w. [Txt (w_worker_id w)]" w_worker_id])

lemma status_text_known:
  "status_text st \<in> {''pending'', ''leased'', ''succeeded'', ''dead_letter'', ''cancelled''}"
  by (cases st) simp_all

lemma attempt_status_text_known:
  "attempt_status_text st \<in> {''succeeded'', ''failed'', ''timeout'', ''lease_expired''}"
  by (cases st) simp_all

lemma attempt_table_ok:
  "table_ok (rows_of d) migration_attempt \<longleftrightarrow>
     distinct (map a_id (attempts d)) \<and> (\<forall>a \<in> set (attempts d). attempt_checks a) \<and>
     (\<forall>a \<in> set (attempts d). a_job_id a \<in> j_id ` set (jobs d))"
  using attempt_status_text_known
  by (auto simp: row_checks migration_attempt_def column_defs comp_def attempt_record_def job_record_def attempt_checks_def
      image_image distinct_map_inj [of "\<lambda>a. [Ident (a_id a)]" a_id])

lemma queue_names: "(\<lambda>r. field r ''name'') ` queue_record ` set qs = Txt ` q_name ` set qs"
  by (simp add: image_image queue_record_def)

lemma job_ids: "(\<lambda>r. field r ''id'') ` job_record ` set js = Ident ` j_id ` set js"
  by (simp add: image_image job_record_def)

lemma not_null_simps [simp]: "nullable Txt v = Null \<longleftrightarrow> v = None" "nullable Ident w = Null \<longleftrightarrow> w = None"
  by (cases v, simp_all, cases w, simp_all)

lemma job_columns_ok:
  "(\<forall>c \<in> set (t_columns migration_job). (\<not> c_nullable c \<longrightarrow> field (job_record j) (c_name c) \<noteq> Null) \<and>
      key_exists (rows_of d) c (job_record j)) \<longleftrightarrow>
    j_queue_name j \<in> q_name ` set (queues d) \<and>
    (\<forall>r. j_replayed_from_job_id j = Some r \<longrightarrow> r \<in> j_id ` set (jobs d))"
proof -
  have "nullable Ident (j_replayed_from_job_id j) = Null \<or>
      nullable Ident (j_replayed_from_job_id j) \<in> Ident ` j_id ` set (jobs d) \<longleftrightarrow>
      (\<forall>r. j_replayed_from_job_id j = Some r \<longrightarrow> r \<in> j_id ` set (jobs d))"
    by (cases "j_replayed_from_job_id j") auto
  moreover have "Txt (j_queue_name j) \<in> Txt ` q_name ` set (queues d) \<longleftrightarrow> j_queue_name j \<in> q_name ` set (queues d)"
    by auto
  ultimately show ?thesis
    by (simp add: migration_job_def column_defs key_exists_def queue_names job_ids, simp add: job_record_def)
qed

lemma job_checks_ok:
  "(\<forall>(n, b) \<in> set (t_checks migration_job). check_passes b (job_record j)) \<longleftrightarrow> job_checks j"
  using status_text_known [of "j_status j"]
  by (auto simp: migration_job_def check_passes_def job_record_def job_checks_def JOB_KINDS_def JOB_KIND_HTTP_def
      JOB_KIND_HANDLER_def)

lemma job_table_ok:
  "table_ok (rows_of d) migration_job \<longleftrightarrow>
     distinct (map j_id (jobs d)) \<and> (\<forall>j \<in> set (jobs d). job_checks j) \<and>
     (\<forall>j \<in> set (jobs d). j_queue_name j \<in> q_name ` set (queues d)) \<and>
     (\<forall>j \<in> set (jobs d). \<forall>r. j_replayed_from_job_id j = Some r \<longrightarrow> r \<in> j_id ` set (jobs d))"
proof -
  have "map (primary_key migration_job) (map job_record (jobs d)) = map (\<lambda>j. [Ident (j_id j)]) (jobs d)"
    by (simp add: primary_key_def migration_job_def column_defs job_record_def)
  then have key: "distinct (map (primary_key migration_job) (map job_record (jobs d))) = distinct (map j_id (jobs d))"
    by (simp only: distinct_map_inj [of "\<lambda>j. [Ident (j_id j)]" j_id] list.inject sql_value.inject simp_thms)
  have name: "rows_of d (t_name migration_job) = map job_record (jobs d)"
    by (simp add: migration_job_def)
  show ?thesis
    unfolding table_ok_def name key by (auto simp only: set_map ball_simps job_columns_ok job_checks_ok)
qed

lemma idem_entries_filter:
  "idem_entries js = map (\<lambda>j. (j_queue_name j, the (j_idempotency_key j))) (filter (\<lambda>j. j_idempotency_key j \<noteq> None) js)"
  unfolding idem_entries_def
  by (induction js) (auto simp: idem_entry_def List.map_filter_simps split: option.splits)

lemma indexes_ok:
  "(\<forall>i \<in> set migration_indexes. index_ok (rows_of d) i) \<longleftrightarrow> distinct (idem_entries (jobs d))"
proof -
  let ?i = "an_index ''uq_pgrelay_job_queue_idempotency_key'' ''pgrelay_job'' [''queue_name'', ''idempotency_key''] True
    (Some (Is_not_null ''idempotency_key''))"
  have "filter (indexed ?i) (map job_record (jobs d)) =
      map job_record (filter (\<lambda>j. j_idempotency_key j \<noteq> None) (jobs d))"
    by (simp add: filter_map comp_def an_index_def indexed_def expression_column_def job_record_def)
  moreover have "entry ?i (job_record j) = [Txt (j_queue_name j), nullable Txt (j_idempotency_key j)]" for j
    by (simp add: an_index_def entry_def expression_column_def job_record_def)
  moreover have "distinct (map (\<lambda>j. [Txt (j_queue_name j), nullable Txt (j_idempotency_key j)])
        (filter (\<lambda>j. j_idempotency_key j \<noteq> None) js)) = distinct (idem_entries js)" for js
    unfolding idem_entries_filter by (induction js) (auto simp: image_iff)
  ultimately have "index_ok (rows_of d) ?i \<longleftrightarrow> distinct (idem_entries (jobs d))"
    by (simp add: index_ok_def comp_def) (simp add: an_index_def comp_def)
  then show ?thesis
    by (simp add: migration_indexes_def) (simp add: index_ok_def an_index_def)
qed

lemma attempt_stored: "stored_in migration_attempt (attempt_record a) \<longleftrightarrow> attempt_columns a"
  using attempt_status_text_known [of "a_status a"]
  by (cases "a_error_type a"; cases "a_error_message a"; cases "a_response_status a"; cases "a_response_body_preview a")
    (auto simp: stored_in_def migration_attempt_def column_defs attempt_record_def attempt_columns_def int4_def
      storable_text_def)

lemma nullable_stored:
  "stores Text_type (nullable Txt v) \<longleftrightarrow> storable_text v"
  "stores Integer_type (nullable Num k) \<longleftrightarrow> (case k of None \<Rightarrow> True | Some n \<Rightarrow> int4 n)"
  "stores Timestamp_type (nullable Stamp u)" "stores Uuid_type (nullable Ident w)"
  by (simp_all add: nullable_def storable_text_def int4_def split: option.split)

lemma status_text_readable: "CHR 0x00 \<notin> set (status_text st)"
  by (cases st) simp_all

lemma job_stored: "stored_in migration_job (job_record j) \<longleftrightarrow> job_columns j"
  by (simp add: stored_in_def migration_job_def column_defs job_record_def nullable_stored status_text_readable
      job_columns_def)
    (auto simp: int4_def storable_text_def)

definition migrated_schema :: schema where
  "migrated_schema =
     \<lparr>s_tables = [migration_queue, migration_job, migration_attempt, migration_worker],
      s_indexes = migration_indexes\<rparr>"

lemma upgrade_from_empty: "run_migration upgrade empty_schema = Inr migrated_schema"
  by code_simp

lemma models_declare: "declared_schema metadata = Some migrated_schema"
  by code_simp

lemma downgrade_to_empty: "run_migration downgrade migrated_schema = Inr empty_schema"
  by code_simp

lemma migrated_schema_ok:
  "schema_ok d \<longleftrightarrow>
     satisfies migrated_schema (rows_of d) \<and> (\<forall>r \<in> set (rows_of d ''pgrelay_attempt''). stored_in migration_attempt r)"
proof -
  have "(\<forall>r \<in> set (rows_of d ''pgrelay_attempt''). stored_in migration_attempt r) \<longleftrightarrow>
      (\<forall>a \<in> set (attempts d). attempt_columns a)"
    by (simp add: attempt_stored)
  moreover have "satisfies migrated_schema (rows_of d) \<longleftrightarrow>
      table_ok (rows_of d) migration_queue \<and> table_ok (rows_of d) migration_job \<and>
      table_ok (rows_of d) migration_attempt \<and> table_ok (rows_of d) migration_worker \<and>
      (\<forall>i \<in> set migration_indexes. index_ok (rows_of d) i)"
    by (auto simp: satisfies_def migrated_schema_def)
  ultimately show ?thesis
    unfolding queue_table_ok job_table_ok attempt_table_ok worker_table_ok indexes_ok schema_ok_def by blast
qed

end
