(* ===== verification/Migrations.thy ===== *)
theory Migrations imports Schema Entry_Points "HOL-Library.AList" begin

text \<open>
  How a migration is started: the commands (\<open>cli/commands_migrate.py\<close>), the configuration they hand to
  Alembic (\<open>db/migrations.py\<close>) and the environment Alembic runs (\<open>migrations/env.py\<close>). Alembic and
  SQLAlchemy's URLs are parameters; what Alembic documents of its options, that they are those of a
  \<open>ConfigParser\<close>, is a named hypothesis.
\<close>

section \<open>The options of a configuration\<close>

type_synonym config = "(string \<times> string) list"

type_synonym option_setter = "string \<Rightarrow> string \<Rightarrow> config \<Rightarrow> exn + config"

text \<open>
  \<open>ConfigParser.set\<close> checks the interpolation syntax of a value: after dropping escaped percent signs
  and references \<open>%(name)s\<close>, no percent sign may be left.
\<close>

fun without_escapes :: "string \<Rightarrow> string" where
  "without_escapes (a # b # cs) =
     (if a = CHR ''%'' \<and> b = CHR ''%'' then without_escapes cs else a # without_escapes (b # cs))"
| "without_escapes cs = cs"

definition after_reference :: "string \<Rightarrow> string option" where
  "after_reference v =
     (if take 2 v = ''%('' then
        (let name = takeWhile (\<lambda>c. c \<noteq> CHR '')'') (drop 2 v); rest = dropWhile (\<lambda>c. c \<noteq> CHR '')'') (drop 2 v)
         in if name \<noteq> [] \<and> take 2 rest = '')s'' then Some (drop 2 rest) else None)
      else None)"

lemma after_reference_shorter: "after_reference v = Some r \<Longrightarrow> length r < length v"
  using length_dropWhile_le [of "\<lambda>c. c \<noteq> CHR '')''" "drop 2 v"]
  by (cases v) (auto simp: after_reference_def Let_def split: if_splits)

function without_references :: "string \<Rightarrow> string" where
  "without_references [] = []"
| "without_references (c # cs) =
     (case after_reference (c # cs) of
        Some rest \<Rightarrow> without_references rest
      | None \<Rightarrow> c # without_references cs)"
  by pat_completeness auto

termination
  by (relation "measure length") (auto dest: after_reference_shorter)

definition parser_set :: "string \<Rightarrow> string \<Rightarrow> config \<Rightarrow> exn + config" where
  "parser_set k v config =
     (if CHR ''%'' \<in> set (without_references (without_escapes v))
      then Inl (ValueError ''invalid interpolation syntax'')
      else Inr (AList.update k v config))"

text \<open>What Alembic documents: \<open>Config.set_main_option\<close> passes the value to \<open>ConfigParser.set\<close>.\<close>

definition passes_to_parser :: "option_setter \<Rightarrow> bool" where
  "passes_to_parser set_main \<longleftrightarrow> (\<forall>k v config. set_main k v config = parser_set k v config)"

section \<open>The configuration and the commands\<close>

text \<open>
  The migrations of a source checkout lie beside its \<open>alembic.ini\<close>, those of an installed package in the
  package. A path is the list of its components; \<open>parents[n]\<close> drops the last \<open>n + 1\<close>.
\<close>

definition parent :: "nat \<Rightarrow> string list \<Rightarrow> string list" where
  "parent n path = take (length path - Suc n) path"

definition get_migration_root :: "(string list \<Rightarrow> bool) \<Rightarrow> string list \<Rightarrow> string list" where
  "get_migration_root exists package_file =
     (let source_root = parent 3 package_file
      in if exists (source_root @ [''alembic.ini'']) then source_root else parent 2 package_file)"

definition path_str :: "string list \<Rightarrow> string" where
  "path_str path = concat (map (\<lambda>c. CHR ''/'' # c) path)"

text \<open>The main options of \<open>alembic.ini\<close>.\<close>

definition alembic_ini :: config where
  "alembic_ini =
     [(''script_location'', ''migrations''), (''version_table'', ''pgrelay_alembic_version''),
      (''prepend_sys_path'', ''.'')]"

definition create_alembic_config :: "option_setter \<Rightarrow> string list \<Rightarrow> settings \<Rightarrow> exn + config" where
  "create_alembic_config set_main directory s =
     (case set_main ''script_location'' (path_str (directory @ [''migrations''])) alembic_ini of
        Inl e \<Rightarrow> Inl e
      | Inr c1 \<Rightarrow>
          (case set_main ''sqlalchemy.url'' (database_url s) c1 of
             Inl e \<Rightarrow> Inl e
           | Inr c2 \<Rightarrow> set_main ''version_table'' ''pgrelay_alembic_version'' c2))"

text \<open>The commands check the settings and hand a configuration and a revision to Alembic.\<close>

definition migrate_upgrade ::
  "option_setter \<Rightarrow> string list \<Rightarrow> settings \<Rightarrow> string \<Rightarrow> exn + config \<times> string" where
  "migrate_upgrade set_main directory environ revision =
     (case runtime_settings environ of
        Inl e \<Rightarrow> Inl e
      | Inr s \<Rightarrow> map_sum id (\<lambda>config. (config, revision)) (create_alembic_config set_main directory s))"

definition migrate_downgrade ::
  "option_setter \<Rightarrow> string list \<Rightarrow> settings \<Rightarrow> string \<Rightarrow> exn + config \<times> string" where
  "migrate_downgrade set_main directory environ revision =
     (case runtime_settings environ of
        Inl e \<Rightarrow> Inl e
      | Inr s \<Rightarrow> map_sum id (\<lambda>config. (config, revision)) (create_alembic_config set_main directory s))"

section \<open>The environment\<close>

text \<open>
  \<open>env.py\<close>: the URL of the configuration or, without one, of the settings, rewritten by SQLAlchemy for the
  synchronous driver (\<open>render\<close>), and put back into the configuration.
\<close>

definition migration_url ::
  "(string \<Rightarrow> config \<Rightarrow> string option) \<Rightarrow> (string \<Rightarrow> string) \<Rightarrow> option_setter \<Rightarrow> settings \<Rightarrow> config \<Rightarrow>
    exn + string \<times> config" where
  "migration_url get_option render set_main environ config =
     (case (case get_option ''sqlalchemy.url'' config of
              Some u \<Rightarrow> if u \<noteq> [] then Inr u else map_sum id database_url (load_settings environ)
            | None \<Rightarrow> map_sum id database_url (load_settings environ)) of
        Inl e \<Rightarrow> Inl e
      | Inr u \<Rightarrow> map_sum id (Pair (render u)) (set_main ''sqlalchemy.url'' (render u) config))"

text \<open>What \<open>context.configure\<close> is given: a URL offline, a connection online.\<close>

datatype context_options =
    Offline string "model list" bool string string
  | Online config "model list" string

definition run_migrations_offline :: "string \<Rightarrow> context_options" where
  "run_migrations_offline url = Offline url metadata True ''named'' ''pgrelay_alembic_version''"

definition run_migrations_online :: "config \<Rightarrow> context_options" where
  "run_migrations_online config = Online config metadata ''pgrelay_alembic_version''"

definition run_env ::
  "bool \<Rightarrow> (string \<Rightarrow> config \<Rightarrow> string option) \<Rightarrow> (string \<Rightarrow> string) \<Rightarrow> option_setter \<Rightarrow> settings \<Rightarrow> config \<Rightarrow>
    exn + context_options" where
  "run_env is_offline_mode get_option render set_main environ config =
     (case migration_url get_option render set_main environ config of
        Inl e \<Rightarrow> Inl e
      | Inr (url, config') \<Rightarrow>
          Inr (if is_offline_mode then run_migrations_offline url else run_migrations_online config'))"

end
