(* ===== verification/Migration_Properties.thy ===== *)
theory Migration_Properties imports Migrations Fixtures begin

text \<open>
  The properties of the schema and of the migrations.
\<close>

section \<open>The schema\<close>

text \<open>C39: the migration and the models declare one schema, and it is the one every other result assumes: on an
  empty database the upgrade creates exactly the tables, columns, checks and indexes of the models, and
  the rows of a database satisfy them, with the columns of its attempts storable, exactly when schema_ok
  holds; the job table can hold exactly the rows an insertion accepts.\<close>

theorem the_migration_declares_the_assumed_schema:
  "run_migration upgrade empty_schema = Inr migrated_schema \<and> declared_schema metadata = Some migrated_schema \<and>
    (schema_ok d \<longleftrightarrow>
       satisfies migrated_schema (rows_of d) \<and> list_all (stored_in migration_attempt) (rows_of d ''pgrelay_attempt'')) \<and>
    (stored_in migration_job (job_record j) \<longleftrightarrow> job_columns j)"
  by (simp only: upgrade_from_empty models_declare migrated_schema_ok job_stored list_all_iff)

lemma own_names:
  "md_table ` set metadata = {''pgrelay_queue'', ''pgrelay_job'', ''pgrelay_attempt'', ''pgrelay_worker''}"
  "i_name ` set migration_indexes =
     {''idx_pgrelay_job_claim'', ''idx_pgrelay_job_locked_expired'', ''idx_pgrelay_job_status_created'',
      ''idx_pgrelay_job_dedupe_key'', ''uq_pgrelay_job_queue_idempotency_key'', ''idx_pgrelay_job_replayed_from'',
      ''idx_pgrelay_attempt_job_started'', ''idx_pgrelay_worker_last_heartbeat''}"
  "t_name migration_queue = ''pgrelay_queue''" "t_name migration_job = ''pgrelay_job''"
  "t_name migration_attempt = ''pgrelay_attempt''" "t_name migration_worker = ''pgrelay_worker''"
  by (simp_all add: metadata_def PgRelayQueue_def PgRelayJob_def PgRelayAttempt_def PgRelayWorker_def
      migration_indexes_def an_index_def migration_queue_def migration_job_def migration_attempt_def migration_worker_def)

text \<open>The migration is reversible wherever it can run: on a database with any other tables and indexes,
  complete in themselves and under other names, the upgrade succeeds and only adds its own, and the
  downgrade takes away just these.\<close>

theorem the_migration_is_reversible:
  assumes "complete_schema sc"
    and "\<And>md. md \<in> set metadata \<Longrightarrow> \<not> has_table (md_table md) sc"
    and "\<And>i. i \<in> set migration_indexes \<Longrightarrow> i_name i \<notin> i_name ` set (s_indexes sc)"
  shows "run_migration upgrade sc = Inr (beside sc migrated_schema) \<and>
    run_migration downgrade (beside sc migrated_schema) = Inr sc"
proof
  have t: "\<not> has_table n sc" if "n \<in> md_table ` set metadata" for n
    using assms(2) that by blast
  have ix: "n \<notin> i_name ` set (s_indexes sc)" if "n \<in> i_name ` set migration_indexes" for n
    using that by (rule imageE) (simp only: assms(3) not_False_eq_True)
  have "\<forall>op \<in> set upgrade. foreign_to sc op"
    using assms(3) by (auto simp: upgrade_def intro!: t simp: own_names)
  from run_migration_beside [OF upgrade_from_empty this assms(1)]
  show "run_migration upgrade sc = Inr (beside sc migrated_schema)" by simp
  have "\<forall>op \<in> set downgrade. foreign_to sc op"
    unfolding downgrade_def by (simp add: t ix own_names del: image_iff)
  from run_migration_beside [OF downgrade_to_empty this assms(1)]
  show "run_migration downgrade (beside sc migrated_schema) = Inr sc" by simp
qed

definition fx_other_schema :: schema where
  "fx_other_schema =
     \<lparr>s_tables =
        [\<lparr>t_name = ''account'', t_columns = [key_column ''id'' Integer_type None], t_checks = []\<rparr>,
         \<lparr>t_name = ''invoice'', t_columns = [foreign_column ''account_id'' Integer_type (Reference ''account'' ''id'' None) False],
          t_checks = []\<rparr>],
      s_indexes = [an_index ''idx_invoice_account'' ''invoice'' [''account_id''] False None]\<rparr>"

theorem the_migration_is_reversible_witness:
  "\<exists>sc'. run_migration upgrade fx_other_schema = Inr sc' \<and> length (s_tables sc') = 6 \<and>
    run_migration downgrade sc' = Inr fx_other_schema"
proof -
  have "complete_schema fx_other_schema"
    by (auto simp: complete_schema_def fx_other_schema_def has_table_def refers_to_def key_column_def
        foreign_column_def an_index_def)
  moreover have "\<not> has_table (md_table md) fx_other_schema" if "md \<in> set metadata" for md
    using that by (auto simp: metadata_def fx_other_schema_def has_table_def PgRelayQueue_def PgRelayJob_def
        PgRelayAttempt_def PgRelayWorker_def)
  moreover have "i_name i \<notin> i_name ` set (s_indexes fx_other_schema)" if "i \<in> set migration_indexes" for i
    using that by (auto simp: migration_indexes_def fx_other_schema_def an_index_def)
  ultimately show ?thesis
    using the_migration_is_reversible [of fx_other_schema]
    by (intro exI [of _ "beside fx_other_schema migrated_schema"])
      (simp add: fx_other_schema_def migrated_schema_def)
qed

section \<open>The configuration\<close>

text \<open>A database URL with a percent sign, as in an escaped password, cannot be migrated: the settings are
  accepted and the other processes start with them, but the command fails before Alembic runs, since
  the sign is invalid interpolation syntax.\<close>

theorem a_percent_in_the_url_stops_migrations:
  assumes "passes_to_parser set_main" and "runtime_settings environ = Inr s"
    and "CHR ''%'' \<in> set (without_references (without_escapes (database_url s)))"
  shows "migrate_upgrade set_main directory environ revision = Inl (ValueError ''invalid interpolation syntax'') \<and>
    migrate_downgrade set_main directory environ revision = Inl (ValueError ''invalid interpolation syntax'')"
  using assms
  by (auto simp: migrate_upgrade_def migrate_downgrade_def create_alembic_config_def passes_to_parser_def
      parser_set_def split: sum.split)

definition fx_escaped_settings :: settings where
  "fx_escaped_settings = default_settings ''postgresql+asyncpg://app:p%40ss@db/app''"

theorem a_percent_in_the_url_stops_migrations_witness:
  "runtime_settings fx_escaped_settings = Inr fx_escaped_settings \<and>
    migrate_upgrade parser_set [''app''] fx_escaped_settings ''head'' = Inl (ValueError ''invalid interpolation syntax'')"
proof -
  have "passes_to_parser parser_set" by (simp add: passes_to_parser_def)
  moreover have "runtime_settings fx_escaped_settings = Inr fx_escaped_settings"
    and "CHR ''%'' \<in> set (without_references (without_escapes (database_url fx_escaped_settings)))"
    by code_simp+
  ultimately show ?thesis using a_percent_in_the_url_stops_migrations by blast
qed

end
