(* ===== verification/Lock_Order.thy ===== *)
theory Lock_Order imports Claim begin

text \<open>
  The locks on queues and on unique keys that a whole transaction takes, and in which order. A claim
  (\<open>repositories/jobs.py\<close>, \<open>job_sql.py\<close>) locks queue rows with \<open>FOR UPDATE\<close>; inserting a job makes
  PostgreSQL check its foreign key, which locks the row of its queue with \<open>FOR KEY SHARE\<close>; both locks
  exclude each other and are kept until the transaction ends. The transaction of an enqueue is the
  caller's (\<open>sdk/client.py\<close>), so it may insert any number of jobs in any order. An insertion that meets
  an uncommitted row with the same key waits for its transaction. Rows of jobs are not in this model:
  claims and recoveries skip those that are locked.
\<close>

section \<open>Resources and modes\<close>

datatype resource = New_queue string | Job_key string string | Queue_row string

fun rank :: "resource \<Rightarrow> string \<times> nat \<times> string" where
  "rank (New_queue q) = (q, 0, [])"
| "rank (Job_key q k) = (q, 1, k)"
| "rank (Queue_row q) = (q, 2, [])"

lemma rank_inj: "rank a = rank b \<longleftrightarrow> a = b"
  by (cases a; cases b) simp_all

text \<open>Resources are ordered by their queue, and inside a queue as one insertion takes them.\<close>

instantiation resource :: linorder
begin

definition less_eq_resource :: "resource \<Rightarrow> resource \<Rightarrow> bool" where
  "less_eq_resource a b \<longleftrightarrow> rank a \<le> rank b"

definition less_resource :: "resource \<Rightarrow> resource \<Rightarrow> bool" where
  "less_resource a b \<longleftrightarrow> rank a < rank b"

instance
  by standard (auto simp: less_eq_resource_def less_resource_def less_le_not_le rank_inj)

end

datatype lock_mode = Insertion | For_update | For_no_key_update | For_key_share

text \<open>PostgreSQL's table of conflicting row locks, for the modes used here.\<close>

fun conflicts :: "lock_mode \<Rightarrow> lock_mode \<Rightarrow> bool" where
  "conflicts For_key_share For_key_share = False"
| "conflicts For_key_share For_no_key_update = False"
| "conflicts For_no_key_update For_key_share = False"
| "conflicts _ _ = True"

lemma conflicts_sym: "conflicts a b = conflicts b a"
  by (cases a; cases b) simp_all

type_synonym lock_request = "resource \<times> lock_mode"

section \<open>What each transaction asks for\<close>

text \<open>\<open>d1\<close> and \<open>d2\<close> are the databases the two statements of a claim see.\<close>

definition claim_requests :: "string list \<Rightarrow> db \<Rightarrow> db \<Rightarrow> lock_request list" where
  "claim_requests names d1 d2 =
     map (\<lambda>q. (Queue_row (q_name q), For_update)) (locked_queues names d1 @ locked_queues names d2)"

definition upsert_requests :: "string \<Rightarrow> db \<Rightarrow> lock_request list" where
  "upsert_requests q d = (if q \<in> q_name ` set (queues d) then [] else [(New_queue q, Insertion)])"

text \<open>
  \<open>insert_job\<close> upserts the queue and inserts the job. With an idempotency key that is committed already
  nothing is inserted; otherwise the unique index is entered, and the foreign key is checked last.
\<close>

definition insert_requests :: "job_params \<Rightarrow> db \<Rightarrow> lock_request list" where
  "insert_requests p d =
     upsert_requests (p_queue_name p) d @
     (case p_idempotency_key p of
        None \<Rightarrow> [(Queue_row (p_queue_name p), For_key_share)]
      | Some k \<Rightarrow>
          if (p_queue_name p, k) \<in> set (idem_entries (jobs d)) then []
          else [(Job_key (p_queue_name p) k, Insertion), (Queue_row (p_queue_name p), For_key_share)])"

text \<open>The transaction of a caller that enqueues several jobs, each with the database it sees.\<close>

definition enqueue_requests :: "(job_params \<times> db) list \<Rightarrow> lock_request list" where
  "enqueue_requests calls = concat (map (\<lambda>(p, d). insert_requests p d) calls)"

definition update_queue_requests :: "string \<Rightarrow> bool option \<Rightarrow> int option \<Rightarrow> db \<Rightarrow> lock_request list" where
  "update_queue_requests q paused limit d =
     upsert_requests q d @
     (if paused = None \<and> limit = None then [] else [(Queue_row q, For_no_key_update)])"

text \<open>
  The transactions of the program. In an \<open>orderly\<close> history no queue becomes claimable between the two
  statements of a claim, and a caller that enqueues several jobs in one transaction does so in the order
  of their queues' names, one for each.
\<close>

inductive transaction :: "bool \<Rightarrow> lock_request list \<Rightarrow> bool" for orderly :: bool where
  t_claim: "wf_db d1 \<Longrightarrow> wf_db d2 \<Longrightarrow>
    (orderly \<longrightarrow> q_name ` set (locked_queues names d2) \<subseteq> q_name ` set (locked_queues names d1)) \<Longrightarrow>
    transaction orderly (claim_requests names d1 d2)"
| t_enqueue: "(orderly \<longrightarrow> sorted_wrt (<) (map (\<lambda>(p, d). p_queue_name p) calls)) \<Longrightarrow>
    transaction orderly (enqueue_requests calls)"
| t_update_queue: "transaction orderly (update_queue_requests q paused limit d)"

section \<open>Locking\<close>

text \<open>The locks every transaction holds, and those it still has to ask for, in their order.\<close>

record locks =
  held :: "nat \<Rightarrow> lock_request list"
  todo :: "nat \<Rightarrow> lock_request list"

definition blocked_by :: "locks \<Rightarrow> nat \<Rightarrow> nat \<Rightarrow> bool" where
  "blocked_by L t u \<longleftrightarrow>
     u \<noteq> t \<and> todo L t \<noteq> [] \<and>
     (\<exists>m \<in> snd ` set (filter (\<lambda>r. fst r = fst (hd (todo L t))) (held L u)). conflicts (snd (hd (todo L t))) m)"

inductive lock_step :: "bool \<Rightarrow> locks \<Rightarrow> locks \<Rightarrow> bool" for orderly :: bool where
  l_begin: "held L t = [] \<Longrightarrow> todo L t = [] \<Longrightarrow> transaction orderly rs \<Longrightarrow>
    lock_step orderly L (L\<lparr>todo := (todo L)(t := rs)\<rparr>)"
| l_acquire: "todo L t = r # rs \<Longrightarrow> (\<And>u. \<not> blocked_by L t u) \<Longrightarrow>
    lock_step orderly L (L\<lparr>held := (held L)(t := r # held L t), todo := (todo L)(t := rs)\<rparr>)"
| l_end: "lock_step orderly L (L\<lparr>held := (held L)(t := []), todo := (todo L)(t := [])\<rparr>)"

definition no_locks :: locks where
  "no_locks = \<lparr>held = (\<lambda>_. []), todo = (\<lambda>_. [])\<rparr>"

inductive lock_run :: "bool \<Rightarrow> locks \<Rightarrow> bool" for orderly :: bool where
  lock_start: "lock_run orderly no_locks"
| lock_more: "lock_run orderly L \<Longrightarrow> lock_step orderly L L' \<Longrightarrow> lock_run orderly L'"

section \<open>Ordered requests\<close>

text \<open>A request is for a lock the transaction has, or for a resource above all it has.\<close>

fun ordered_from :: "lock_request list \<Rightarrow> lock_request list \<Rightarrow> bool" where
  "ordered_from H [] = True"
| "ordered_from H (r # rs) \<longleftrightarrow> (r \<in> set H \<or> (\<forall>h \<in> set H. fst h < fst r)) \<and> ordered_from (r # H) rs"

lemma ordered_from_cong: "set H = set H' \<Longrightarrow> ordered_from H rs = ordered_from H' rs"
proof (induction rs arbitrary: H H')
  case (Cons r rs)
  then have "ordered_from (r # H) rs = ordered_from (r # H') rs" by (metis list.set(2))
  with Cons.prems show ?case by simp
qed simp

lemma ordered_from_members: "set rs \<subseteq> set H \<Longrightarrow> ordered_from H rs"
  by (induction rs arbitrary: H) (simp_all add: subset_insertI2)

lemma ordered_from_append:
  "ordered_from H (rs @ ss) \<longleftrightarrow> ordered_from H rs \<and> ordered_from (rev rs @ H) ss"
  by (induction rs arbitrary: H) auto

lemma ordered_from_sorted:
  "sorted_wrt (<) (map fst rs) \<Longrightarrow> \<forall>h \<in> set H. \<forall>r \<in> set rs. fst h < fst r \<Longrightarrow> ordered_from H rs"
  by (induction rs arbitrary: H) auto

lemma resource_less_queue: "q < r \<Longrightarrow> fst (rank a) = q \<Longrightarrow> fst (rank b) = r \<Longrightarrow> a < b"
  by (cases "rank a"; cases "rank b") (simp add: less_resource_def less_prod_def)

lemma resource_less_simps [simp]:
  "New_queue q < Job_key q k" "New_queue q < Queue_row q" "Job_key q k < Queue_row q"
  "Queue_row q < Queue_row r \<longleftrightarrow> q < r"
  by (simp_all add: less_resource_def less_prod_def)

lemma claim_requests_ordered:
  assumes "wf_db d1" and "q_name ` set (locked_queues names d2) \<subseteq> q_name ` set (locked_queues names d1)"
  shows "ordered_from [] (claim_requests names d1 d2)"
proof -
  have "sorted_wrt (<) (map q_name (locked_queues names d1))"
    using distinct_locked_queues [OF assms(1)] by (simp add: strict_sorted_iff locked_queues_def)
  then have "ordered_from [] (map (\<lambda>q. (Queue_row (q_name q), For_update)) (locked_queues names d1))"
    by (intro ordered_from_sorted) (simp_all add: comp_def sorted_wrt_map)
  moreover have "(\<lambda>q. (Queue_row (q_name q), For_update)) ` set (locked_queues names d2) \<subseteq>
      (\<lambda>q. (Queue_row (q_name q), For_update)) ` set (locked_queues names d1)"
    using image_mono [OF assms(2), of "\<lambda>n. (Queue_row n, For_update)"] by (simp add: image_image)
  ultimately show ?thesis
    by (simp add: claim_requests_def ordered_from_append ordered_from_members)
qed

lemma insert_requests_queue: "r \<in> set (insert_requests p d) \<Longrightarrow> fst (rank (fst r)) = p_queue_name p"
  by (auto simp: insert_requests_def upsert_requests_def split: if_splits option.splits)

lemma insert_requests_sorted: "sorted_wrt (<) (map fst (insert_requests p d))"
  by (auto simp: insert_requests_def upsert_requests_def split: option.split)

lemma enqueue_requests_ordered:
  assumes "sorted_wrt (<) (map (\<lambda>(p, d). p_queue_name p) calls)"
  shows "ordered_from [] (enqueue_requests calls)"
proof (rule ordered_from_sorted)
  show "sorted_wrt (<) (map fst (enqueue_requests calls))"
    using assms
  proof (induction calls)
    case (Cons c calls)
    obtain p d where c: "c = (p, d)" by (cases c)
    have "x < y" if "x \<in> fst ` set (insert_requests p d)" "y \<in> fst ` set (enqueue_requests calls)" for x y
      using that Cons.prems c
      by (force simp: enqueue_requests_def intro: resource_less_queue dest!: insert_requests_queue)
    with Cons c insert_requests_sorted [of p d] show ?case
      by (simp add: enqueue_requests_def sorted_wrt_append)
  qed (simp add: enqueue_requests_def)
qed simp

lemma update_queue_requests_ordered: "ordered_from [] (update_queue_requests q paused limit d)"
  by (simp add: update_queue_requests_def upsert_requests_def)

lemma orderly_transactions: "transaction True rs \<Longrightarrow> ordered_from [] rs"
  by (induction rule: transaction.induct)
    (simp_all add: claim_requests_ordered enqueue_requests_ordered update_queue_requests_ordered)

section \<open>The locks that are held exclude each other\<close>

definition compatible :: "locks \<Rightarrow> bool" where
  "compatible L \<longleftrightarrow>
     (\<forall>t u. t \<noteq> u \<longrightarrow> (\<forall>(r, m) \<in> set (held L t). \<forall>(r', m') \<in> set (held L u). r = r' \<longrightarrow> \<not> conflicts m m'))"

lemma blocked_by_iff:
  "blocked_by L t u \<longleftrightarrow>
     u \<noteq> t \<and> (\<exists>r m rs m'. todo L t = (r, m) # rs \<and> (r, m') \<in> set (held L u) \<and> conflicts m m')"
  by (cases "todo L t") (force simp: blocked_by_def)+

lemma lock_run_compatible: "lock_run orderly L \<Longrightarrow> compatible L"
proof (induction rule: lock_run.induct)
  case lock_start
  then show ?case by (simp add: compatible_def no_locks_def)
next
  case (lock_more L L')
  from lock_more.hyps(2) lock_more.IH show ?case
  proof (induction rule: lock_step.induct)
    case (l_acquire L t r rs)
    obtain x m where r: "r = (x, m)" by (cases r)
    have new: "\<not> conflicts m m'" if "u \<noteq> t" "(x, m') \<in> set (held L u)" for u m'
      using l_acquire.hyps(2) [of u] that l_acquire.hyps(1) r by (auto simp: blocked_by_iff)
    then have "\<not> conflicts m' m" if "u \<noteq> t" "(x, m') \<in> set (held L u)" for u m'
      using that conflicts_sym by metis
    with new l_acquire.prems r show ?case by (fastforce simp: compatible_def)
  qed (auto simp: compatible_def)
qed

lemma lock_run_ordered: "lock_run True L \<Longrightarrow> ordered_from (held L t) (todo L t)"
proof (induction arbitrary: t rule: lock_run.induct)
  case lock_start
  then show ?case by (simp add: no_locks_def)
next
  case (lock_more L L')
  from lock_more.hyps(2) lock_more.IH show ?case
  proof (induction rule: lock_step.induct)
    case (l_begin L u rs)
    then show ?case using orderly_transactions by simp
  next
    case (l_acquire L u r rs)
    from l_acquire.prems [of u] l_acquire.hyps(1) have "ordered_from (r # held L u) rs" by simp
    with l_acquire.prems show ?case by simp
  qed simp
qed

section \<open>No circle of waiting transactions\<close>

definition next_resource :: "locks \<Rightarrow> nat \<Rightarrow> resource" where
  "next_resource L t = fst (hd (todo L t))"

lemma blocked_grows:
  assumes "lock_run True L" and "blocked_by L t u" and "blocked_by L u v"
  shows "next_resource L t < next_resource L u"
proof -
  from assms(2) obtain r m rs m' where t: "todo L t = (r, m) # rs" "(r, m') \<in> set (held L u)"
    by (auto simp: blocked_by_iff)
  from assms(3) obtain x n ss n' where
    u: "u \<noteq> v" "todo L u = (x, n) # ss" "(x, n') \<in> set (held L v)" "conflicts n n'"
    by (auto simp: blocked_by_iff)
  with lock_run_compatible [OF assms(1)] have "(x, n) \<notin> set (held L u)"
    by (fastforce simp: compatible_def)
  with lock_run_ordered [OF assms(1), of u] u(2) have "\<forall>h \<in> set (held L u). fst h < x" by auto
  with t(2) have "r < x" by force
  with t(1) u(2) show ?thesis by (simp add: next_resource_def)
qed

lemma blocked_chain_grows:
  assumes "lock_run True L" and "(blocked_by L)\<^sup>+\<^sup>+ t u" and "blocked_by L u v"
  shows "next_resource L t < next_resource L u"
  using assms(2,3)
proof (induction arbitrary: v rule: tranclp_induct)
  case (base u)
  with blocked_grows [OF assms(1)] show ?case by blast
next
  case (step u w)
  with blocked_grows [OF assms(1)] show ?case by (meson less_trans)
qed

lemma no_blocking_cycle:
  assumes "lock_run True L"
  shows "\<not> (blocked_by L)\<^sup>+\<^sup>+ t t"
  by (meson assms blocked_chain_grows less_irrefl tranclpD)

text \<open>Following those that wait leads to one that does not.\<close>

lemma finite_active: "lock_run orderly L \<Longrightarrow> finite {t. todo L t \<noteq> []}"
proof (induction rule: lock_run.induct)
  case lock_start
  then show ?case by (simp add: no_locks_def)
next
  case (lock_more L L')
  have "{u. ((todo L)(t := rs)) u \<noteq> []} \<subseteq> insert t {u. todo L u \<noteq> []}" for t rs by auto
  then have fin: "finite {u. ((todo L)(t := rs)) u \<noteq> []}" for t rs
    using lock_more.IH finite_subset by blast
  from lock_more.hyps(2) fin show ?case
    by (induction rule: lock_step.induct) (simp_all del: fun_upd_apply)
qed

lemma someone_goes_on:
  assumes "lock_run True L" and "blocked_by L t u"
  shows "\<exists>v. (blocked_by L)\<^sup>+\<^sup>+ t v \<and> (\<forall>w. \<not> blocked_by L v w)"
proof (rule ccontr)
  assume none: "\<nexists>v. (blocked_by L)\<^sup>+\<^sup>+ t v \<and> (\<forall>w. \<not> blocked_by L v w)"
  let ?C = "{v. (blocked_by L)\<^sup>+\<^sup>+ t v}"
  have "?C \<subseteq> {v. todo L v \<noteq> []}"
    using none by (auto simp: blocked_by_def)
  then have fin: "finite (next_resource L ` ?C)"
    using finite_active [OF assms(1)] finite_subset by blast
  from assms(2) have "u \<in> ?C" by auto
  then have "next_resource L ` ?C \<noteq> {}" by blast
  from Max_in [OF fin this] obtain v where v: "v \<in> ?C" "Max (next_resource L ` ?C) = next_resource L v"
    by blast
  from none v(1) obtain w where w: "blocked_by L v w" by blast
  with v(1) have "w \<in> ?C" by (auto intro: tranclp.trancl_into_trancl)
  with none obtain x where "blocked_by L w x" by blast
  from blocked_grows [OF assms(1) w this] Max_ge [OF fin imageI [OF \<open>w \<in> ?C\<close>]] v(2) show False by simp
qed

end
