(* ===== verification/Lock_Properties.thy ===== *)
theory Lock_Properties imports Lock_Order Fixtures begin

text \<open>
  The properties of the order in which transactions lock queues: when none of them can wait in a circle,
  and the run in which a caller that enqueues two jobs and a claim do.
\<close>

section \<open>Two queues\<close>

definition lk_db :: db where
  "lk_db = empty_db\<lparr>queues := [new_queue 0 ''b'', new_queue 0 ''a'']\<rparr>"

definition lk_job :: "string \<Rightarrow> job_params" where
  "lk_job q = (fx_params None)\<lparr>p_queue_name := q\<rparr>"

lemma lk_wf: "wf_db lk_db"
  by (simp add: wf_db_def schema_ok_def lk_db_def empty_db_def new_queue_def queue_checks_def)

lemma lk_locked: "map q_name (locked_queues [''b'', ''a''] lk_db) = [''a'', ''b'']"
  by code_simp


section \<open>Runs of two transactions\<close>

lemma lock_begin:
  "lock_run orderly L \<Longrightarrow> held L t = [] \<Longrightarrow> todo L t = [] \<Longrightarrow> transaction orderly rs \<Longrightarrow>
    lock_run orderly (L\<lparr>todo := (todo L)(t := rs)\<rparr>)"
  by (blast intro: lock_more l_begin)

lemma lock_acquire:
  "lock_run orderly L \<Longrightarrow> todo L t = r # rs \<Longrightarrow> (\<And>u. \<not> blocked_by L t u) \<Longrightarrow>
    lock_run orderly (L\<lparr>held := (held L)(t := r # held L t), todo := (todo L)(t := rs)\<rparr>)"
  by (blast intro: lock_more l_acquire)

definition two_transactions :: "lock_request list \<Rightarrow> lock_request list \<Rightarrow> lock_request list \<Rightarrow> lock_request list \<Rightarrow> locks" where
  "two_transactions h0 t0 h1 t1 =
     \<lparr>held = (\<lambda>t. if t = 0 then h0 else if t = 1 then h1 else []),
      todo = (\<lambda>t. if t = 0 then t0 else if t = 1 then t1 else [])\<rparr>"

lemma two_transactions_simps [simp]:
  "held (two_transactions h0 t0 h1 t1) t = (if t = 0 then h0 else if t = 1 then h1 else [])"
  "todo (two_transactions h0 t0 h1 t1) t = (if t = 0 then t0 else if t = 1 then t1 else [])"
  by (simp_all add: two_transactions_def)

lemma two_transactions_blocked:
  "blocked_by (two_transactions h0 ((r, m) # t0) h1 t1) 0 u \<longleftrightarrow> u = 1 \<and> (\<exists>m'. (r, m') \<in> set h1 \<and> conflicts m m')"
  "blocked_by (two_transactions h0 t0 h1 ((r, m) # t1)) 1 u \<longleftrightarrow> u = 0 \<and> (\<exists>m'. (r, m') \<in> set h0 \<and> conflicts m m')"
  by (auto simp: blocked_by_iff two_transactions_def split: if_splits)

lemma two_transactions_update:
  "two_transactions h0 t0 h1 t1\<lparr>held := (held (two_transactions h0 t0 h1 t1))(0 := h), todo := (todo (two_transactions h0 t0 h1 t1))(0 := t)\<rparr> =
     two_transactions h t h1 t1"
  "two_transactions h0 t0 h1 t1\<lparr>held := (held (two_transactions h0 t0 h1 t1))(1 := h), todo := (todo (two_transactions h0 t0 h1 t1))(1 := t)\<rparr> =
     two_transactions h0 t0 h t"
  "two_transactions h0 t0 h1 t1\<lparr>todo := (todo (two_transactions h0 t0 h1 t1))(0 := t)\<rparr> = two_transactions h0 t h1 t1"
  "two_transactions h0 t0 h1 t1\<lparr>todo := (todo (two_transactions h0 t0 h1 t1))(1 := t)\<rparr> = two_transactions h0 t0 h1 t"
  "no_locks = two_transactions [] [] [] []"
  by (simp_all add: two_transactions_def no_locks_def fun_eq_iff)

text \<open>Transaction 1 takes its first lock, then transaction 0 its first.\<close>

lemma two_transactions_run:
  assumes "transaction orderly ((x, m) # t0)" and "transaction orderly ((y, n) # t1)" and "x \<noteq> y"
  shows "lock_run orderly (two_transactions [(x, m)] t0 [(y, n)] t1)"
proof -
  have 1: "lock_run orderly (two_transactions [] [] [] ((y, n) # t1))"
    using lock_begin [OF lock_start, of 1, OF _ _ assms(2)] unfolding two_transactions_update by simp
  have "\<not> blocked_by (two_transactions [] [] [] ((y, n) # t1)) 1 u" for u
    by (simp only: two_transactions_blocked) simp
  from lock_acquire [OF 1 _ this, of "(y, n)" t1] have 2: "lock_run orderly (two_transactions [] [] [(y, n)] t1)"
    unfolding two_transactions_update by simp
  from lock_begin [OF 2, of 0, OF _ _ assms(1)]
  have 3: "lock_run orderly (two_transactions [] ((x, m) # t0) [(y, n)] t1)"
    unfolding two_transactions_update by simp
  have "\<not> blocked_by (two_transactions [] ((x, m) # t0) [(y, n)] t1) 0 u" for u
    using assms(3) by (simp only: two_transactions_blocked) simp
  from lock_acquire [OF 3 _ this, of "(x, m)" t0] show ?thesis
    unfolding two_transactions_update by simp
qed

section \<open>Locking in order\<close>




section \<open>Enqueueing against the order\<close>

text \<open>C40: a caller that inserts a job in one queue and then a job in a queue whose name comes before can
  wait for a claim of both queues that waits for the caller: the claim has locked the first name and
  waits for the foreign key lock on the second, the caller waits to take its foreign key lock on the
  first. PostgreSQL then fails one of the two transactions, which may be the caller's.\<close>

theorem enqueueing_can_deadlock_with_a_claim:
  assumes "wf_db d" and "map q_name (locked_queues names d) = [x, y]"
    and "p_queue_name p = y" and "p_queue_name p' = x"
    and "p_idempotency_key p = None" and "p_idempotency_key p' = None"
  shows "\<exists>L. lock_run False L \<and>
      held L 0 @ todo L 0 = claim_requests names d d \<and>
      held L 1 @ todo L 1 = enqueue_requests [(p, d), (p', d)] \<and>
      blocked_by L 0 1 \<and> blocked_by L 1 0"
proof -
  have c: "transaction False (claim_requests names d d)" using assms(1) by (simp add: t_claim)
  have e: "transaction False (enqueue_requests [(p, d), (p', d)])" by (simp add: t_enqueue)
  have claim: "claim_requests names d d =
      [(Queue_row x, For_update), (Queue_row y, For_update), (Queue_row x, For_update), (Queue_row y, For_update)]"
    using arg_cong [OF assms(2), of "map (\<lambda>n. (Queue_row n, For_update))"]
    by (simp add: claim_requests_def comp_def)
  have "{x, y} \<subseteq> q_name ` set (queues d)"
    using arg_cong [OF assms(2), of set] by (auto simp: locked_queues_def)
  then have enq: "enqueue_requests [(p, d), (p', d)] = [(Queue_row y, For_key_share), (Queue_row x, For_key_share)]"
    using assms(3-6) by (simp add: enqueue_requests_def insert_requests_def upsert_requests_def)
  have "distinct [x, y]" using distinct_locked_queues [OF assms(1), of names] assms(2) by simp
  then have run: "lock_run False (two_transactions [(Queue_row x, For_update)]
      [(Queue_row y, For_update), (Queue_row x, For_update), (Queue_row y, For_update)]
      [(Queue_row y, For_key_share)] [(Queue_row x, For_key_share)])"
    by (intro two_transactions_run c [unfolded claim] e [unfolded enq]) simp
  then show "\<exists>L. lock_run False L \<and>
      held L 0 @ todo L 0 = claim_requests names d d \<and>
      held L 1 @ todo L 1 = enqueue_requests [(p, d), (p', d)] \<and>
      blocked_by L 0 1 \<and> blocked_by L 1 0"
    by (intro exI conjI, assumption) (simp_all only: two_transactions_blocked, simp_all add: claim enq)
qed

theorem enqueueing_can_deadlock_with_a_claim_witness:
  "\<exists>L. lock_run False L \<and> blocked_by L 0 1 \<and> blocked_by L 1 0 \<and> \<not> lock_run True L"
proof -
  from enqueueing_can_deadlock_with_a_claim [OF lk_wf lk_locked, of "lk_job ''b''" "lk_job ''a''"]
  obtain L where L: "lock_run False L" "blocked_by L 0 1" "blocked_by L 1 0"
    by (auto simp: lk_job_def fx_params_def)
  from L(2,3) have "(blocked_by L)\<^sup>+\<^sup>+ 0 0" by (meson tranclp.r_into_trancl tranclp_trans)
  with L no_blocking_cycle [of L 0] show ?thesis by blast
qed

end
