(* ===== verification/Metrics.thy ===== *)
theory Metrics imports Runner begin

text \<open>
  The Prometheus collectors of the worker (\<open>observability/metrics.py\<close>) and where the code feeds them: the
  claim loop, the recording of results, the registration of the worker (\<open>worker/runner.py\<close>) and the
  classification of a response (\<open>worker/http_executor.py\<close>). A labelled collector is a function of its
  labels; a histogram is the list of what it has observed.
\<close>

section \<open>Collectors\<close>

record metrics =
  JOBS_CLAIMED_TOTAL :: "string \<Rightarrow> nat"
  JOBS_COMPLETED_TOTAL :: "string \<times> outcome \<Rightarrow> nat"
  JOB_DURATION_SECONDS :: "string \<times> string \<Rightarrow> rat list"
  QUEUE_DEPTH :: "string \<times> string \<Rightarrow> rat"
  OLDEST_PENDING_AGE_SECONDS :: "string \<Rightarrow> rat"
  CLAIM_BATCH_SIZE :: "nat list"
  HTTP_DELIVERY_TOTAL :: "string \<Rightarrow> nat"
  WORKER_HEARTBEAT_TIMESTAMP_SECONDS :: "string \<Rightarrow> rat"

definition no_metrics :: metrics where
  "no_metrics =
     \<lparr>JOBS_CLAIMED_TOTAL = (\<lambda>_. 0), JOBS_COMPLETED_TOTAL = (\<lambda>_. 0), JOB_DURATION_SECONDS = (\<lambda>_. []),
      QUEUE_DEPTH = (\<lambda>_. 0), OLDEST_PENDING_AGE_SECONDS = (\<lambda>_. 0), CLAIM_BATCH_SIZE = [],
      HTTP_DELIVERY_TOTAL = (\<lambda>_. 0), WORKER_HEARTBEAT_TIMESTAMP_SECONDS = (\<lambda>_. 0)\<rparr>"

definition inc :: "'l \<Rightarrow> ('l \<Rightarrow> nat) \<Rightarrow> 'l \<Rightarrow> nat" where
  "inc l f = f(l := Suc (f l))"

definition observe :: "'l \<Rightarrow> rat \<Rightarrow> ('l \<Rightarrow> rat list) \<Rightarrow> 'l \<Rightarrow> rat list" where
  "observe l x f = f(l := f l @ [x])"

section \<open>What feeds them\<close>

fun count_claimed :: "job_row list \<Rightarrow> metrics \<Rightarrow> metrics" where
  "count_claimed [] m = m"
| "count_claimed (job # rest) m =
     count_claimed rest (m\<lparr>JOBS_CLAIMED_TOTAL := inc (j_queue_name job) (JOBS_CLAIMED_TOTAL m)\<rparr>)"

text \<open>After a claim has committed: the size of the batch, and one count for each job.\<close>

definition claim_metrics :: "job_row list \<Rightarrow> metrics \<Rightarrow> metrics" where
  "claim_metrics claimed m = count_claimed claimed (m\<lparr>CLAIM_BATCH_SIZE := CLAIM_BATCH_SIZE m @ [length claimed]\<rparr>)"

text \<open>After a result has committed: only one that updated the job counts.\<close>

definition completion_metrics :: "job_row \<Rightarrow> executor_result \<Rightarrow> bool \<Rightarrow> metrics \<Rightarrow> metrics" where
  "completion_metrics job r updated m =
     (if updated
      then m\<lparr>JOBS_COMPLETED_TOTAL := inc (j_queue_name job, x_outcome r) (JOBS_COMPLETED_TOTAL m),
             JOB_DURATION_SECONDS := observe (j_queue_name job, j_kind job) (of_int (x_duration_ms r) / 1000)
               (JOB_DURATION_SECONDS m)\<rparr>
      else m)"

text \<open>The class of a status, \<open>2xx\<close> and so on, floor division as in Python.\<close>

definition status_class :: "int \<Rightarrow> string" where
  "status_class status = int_str (status div 100) @ ''xx''"

definition delivery_metrics :: "int \<Rightarrow> metrics \<Rightarrow> metrics" where
  "delivery_metrics status m =
     m\<lparr>HTTP_DELIVERY_TOTAL := inc (status_class status) (HTTP_DELIVERY_TOTAL m)\<rparr>"

definition heartbeat_metrics :: "string \<Rightarrow> rat \<Rightarrow> metrics \<Rightarrow> metrics" where
  "heartbeat_metrics worker_id t m =
     m\<lparr>WORKER_HEARTBEAT_TIMESTAMP_SECONDS := (WORKER_HEARTBEAT_TIMESTAMP_SECONDS m)(worker_id := t)\<rparr>"

section \<open>The metered transactions\<close>

definition metered_claim ::
  "job_repository \<Rightarrow> settings \<Rightarrow> string \<Rightarrow> nat \<Rightarrow> env \<Rightarrow> metrics \<times> db \<Rightarrow> metrics \<times> db" where
  "metered_claim repository s worker_id inflight e st =
     (case st of (m, d) \<Rightarrow>
        (case transact e (claim_transaction repository s worker_id inflight) d of
           (Inl x, d') \<Rightarrow> (m, d')
         | (Inr claimed, d') \<Rightarrow> (claim_metrics claimed m, d')))"

definition metered_record ::
  "job_repository \<Rightarrow> chance \<Rightarrow> settings \<Rightarrow> string \<Rightarrow> job_row \<Rightarrow> executor_result \<Rightarrow> env \<Rightarrow> metrics \<times> db \<Rightarrow>
    metrics \<times> db" where
  "metered_record repository c s worker_id job r e st =
     (case st of (m, d) \<Rightarrow>
        (case transact e (record_result repository c s worker_id job r) d of
           (Inl x, d') \<Rightarrow> (m, d')
         | (Inr updated, d') \<Rightarrow> (completion_metrics job r updated m, d')))"

section \<open>The counters agree with the tables\<close>

lemma inc_apply: "inc l f x = f x + (if x = l then 1 else 0)"
  by (simp add: inc_def)

lemma count_claimed_total:
  "JOBS_CLAIMED_TOTAL (count_claimed claimed m) q =
     JOBS_CLAIMED_TOTAL m q + count_where (\<lambda>j. j_queue_name j = q) claimed"
  by (induction claimed arbitrary: m) (simp_all add: inc_apply)

lemma count_claimed_batch [simp]: "CLAIM_BATCH_SIZE (count_claimed claimed m) = CLAIM_BATCH_SIZE m"
  by (induction claimed arbitrary: m) simp_all

context lease_store
begin

lemma claim_transaction_rows:
  assumes "claim_transaction R s w n t = (Inr rows, t')" and "wf_db (working t)" and "wf_db (committed t)"
    and "j \<in> set rows"
  shows "owned (j_id j) w j \<and> j \<in> set (jobs (working t'))"
proof -
  from assms(1) obtain k t1 where rec: "recover R s t = (Inr k, t1)"
    and rest: "(if 0 < claim_batch_size s n then jr_claim_jobs R w (get_queue_names s)
       (claim_batch_size s n) (worker_lease_seconds s) else return_tx []) t1 = (Inr rows, t')"
    by (auto simp: claim_transaction_def bind_tx_Inr_iff)
  have "wf_db (working t1)"
    using keepsD_working [OF recover_wf assms(3,2) rec [unfolded recover_def]] .
  with rest assms(4) claim_rows show ?thesis by (auto split: if_splits)
qed

end

text \<open>
  A claim that commits is observed once, with at most the batch it asked for, and every job it counts
  for a queue is leased to the worker in that queue.
\<close>

lemma metered_claim_counts:
  assumes "metered_claim JobRepository s w n e (m, d) = (m', d')" and "wf_db d"
  shows "m' = m \<or> (\<exists>claimed. CLAIM_BATCH_SIZE m' = CLAIM_BATCH_SIZE m @ [length claimed] \<and>
    length claimed \<le> claim_batch_size s n \<and>
    (\<forall>q. JOBS_CLAIMED_TOTAL m' q = JOBS_CLAIMED_TOTAL m q +
       count_where (\<lambda>j. j_queue_name j = q \<and> owned (j_id j) w j \<and> j \<in> set (jobs d')) claimed))"
proof (cases "transact e (claim_transaction JobRepository s w n) d")
  case (Pair r d1)
  show ?thesis
  proof (cases r)
    case (Inl x)
    with Pair assms(1) show ?thesis by (simp add: metered_claim_def)
  next
    case (Inr claimed)
    with Pair assms(1) have m': "m' = claim_metrics claimed m" "d1 = d'"
      by (simp_all add: metered_claim_def)
    from Pair [unfolded Inr m'(2)] obtain t
      where t: "claim_transaction JobRepository s w n (open_session e d) = (Inr claimed, t)" and d': "d' = working t"
      by (rule transact_InrD)
    have wf: "wf_db (working (open_session e d))" "wf_db (committed (open_session e d))" using assms(2) by simp_all
    have "count_where (\<lambda>j. j_queue_name j = q \<and> owned (j_id j) w j \<and> j \<in> set (jobs d')) claimed =
        count_where (\<lambda>j. j_queue_name j = q) claimed" for q
      using pg_leases.claim_transaction_rows [OF t wf] by (simp add: count_where_def d' cong: filter_cong)
    with m' pg_leases.claim_transaction_Inr [OF t wf] show ?thesis
      by (intro disjI2 exI [of _ claimed]) (simp add: claim_metrics_def count_claimed_total)
  qed
qed

text \<open>The completed jobs counted are the attempts recorded.\<close>

lemma metered_record_counts:
  assumes "metered_record JobRepository c s w job r e (m, d) = (m', d')" and "wf_db d"
  shows "length (attempts d') - length (attempts d) =
      JOBS_COMPLETED_TOTAL m' (j_queue_name job, x_outcome r) - JOBS_COMPLETED_TOTAL m (j_queue_name job, x_outcome r)"
    and "length (attempts d) \<le> length (attempts d')"
    and "l \<noteq> (j_queue_name job, x_outcome r) \<Longrightarrow> JOBS_COMPLETED_TOTAL m' l = JOBS_COMPLETED_TOTAL m l"
proof (atomize (full), cases "transact e (record_result JobRepository c s w job r) d")
  case (Pair v d1)
  show "(length (attempts d') - length (attempts d) =
      JOBS_COMPLETED_TOTAL m' (j_queue_name job, x_outcome r) - JOBS_COMPLETED_TOTAL m (j_queue_name job, x_outcome r)) \<and>
    length (attempts d) \<le> length (attempts d') \<and>
    (l \<noteq> (j_queue_name job, x_outcome r) \<longrightarrow> JOBS_COMPLETED_TOTAL m' l = JOBS_COMPLETED_TOTAL m l)"
  proof (cases v)
    case (Inl x)
    with Pair have "d1 = d"
      using transact_raise [OF uncommitted_record_result, of e c s w job r d x] by simp
    with Pair Inl assms(1) have "d' = d" "m' = m"
      by (simp_all add: metered_record_def)
    then show ?thesis by simp
  next
    case (Inr b)
    with Pair assms(1) have m': "m' = completion_metrics job r b m" and d1: "d1 = d'"
      by (simp_all add: metered_record_def)
    from Pair [unfolded Inr d1] obtain t where t: "record_result JobRepository c s w job r (open_session e d) = (Inr b, t)"
      and d': "d' = working t"
      by (rule transact_InrD)
    show ?thesis
    proof (cases b)
      case True
      have "wf_db (working (open_session e d))" using assms(2) by simp
      moreover have "record_result JobRepository c s w job r (open_session e d) = (Inr True, t)"
        using t True by simp
      ultimately obtain a where "attempts d' = attempts d @ [a]"
        using record_result_settles [of c s w job r "open_session e d" t] by (auto simp: d')
      with m' True show ?thesis by (simp add: completion_metrics_def inc_apply)
    next
      case False
      with pg_leases.record_result_Inr [OF t] have "d' = d" by (simp add: d')
      with m' False show ?thesis by (simp add: completion_metrics_def)
    qed
  qed
qed

end
