(* ===== verification/Handler_Example.thy ===== *)
theory Handler_Example imports Runner begin

text \<open>
  The example worker (\<open>examples/handler_worker.py\<close>): its handler, the registry with the decorator applied to
  it, and what its module text promises of failures, proved of the worker that runs it.
\<close>

section \<open>The handler\<close>

definition payload_member :: "string \<Rightarrow> dict \<Rightarrow> json option" where
  "payload_member k payload = map_of payload k"

definition recalculate_order_totals :: "dict \<Rightarrow> handler_event" where
  "recalculate_order_totals payload =
     (case payload_member ''order_id'' payload of
        None \<Rightarrow> Raised (KeyError ''order_id'')
      | Some _ \<Rightarrow>
          if payload_member ''failure_mode'' payload = Some (JStr ''transient'')
          then Raised (RetryableJobError ''temporary downstream failure'')
          else if payload_member ''failure_mode'' payload = Some (JStr ''permanent'')
          then Raised (OtherException ''RuntimeError'' ''unexpected handler failure'')
          else Returned)"

text \<open>\<open>@registry.register\<close> on an empty registry.\<close>

definition example_registry :: "exn + (dict \<Rightarrow> handler_event) registry" where
  "example_registry =
     (case register ''orders.recalculate_totals'' None [] of
        Inl e \<Rightarrow> Inl e
      | Inr (Registered handlers) \<Rightarrow> Inr handlers
      | Inr (Decorator apply_to) \<Rightarrow> apply_to (True, recalculate_order_totals) [])"

lemma example_registry_Inr:
  "example_registry = Inr [(''orders.recalculate_totals'', recalculate_order_totals)]"
  by (simp add: example_registry_def register_def decorator_def)

section \<open>What becomes of its jobs\<close>

text \<open>The handler ends within its timeout.\<close>

definition example_execute :: "rat \<Rightarrow> rat \<Rightarrow> job_row \<Rightarrow> executor_result" where
  "example_execute started finished job =
     python_execute [(''orders.recalculate_totals'', recalculate_order_totals)] (\<lambda>h payload timeout. h payload)
       started finished job"

lemma example_outcome:
  assumes "j_name job = ''orders.recalculate_totals''"
  shows "x_outcome (example_execute started finished job) =
    (case recalculate_order_totals (j_payload job) of
       Returned \<Rightarrow> Out_succeeded
     | Raised (RetryableJobError m) \<Rightarrow> Out_retryable_failure
     | Raised e \<Rightarrow> Out_permanent_failure)"
  using assms
  by (auto simp: example_execute_def python_execute_def get_handler_def handler_result_def
      recalculate_order_totals_def Let_def split: option.split)

text \<open>
  ``RetryableJobError asks PgRelay to retry. Unexpected handler exceptions move the job to dead_letter.''
\<close>

lemma example_failures:
  assumes "j_name job = ''orders.recalculate_totals''"
  shows "settled_status job (example_execute started finished job) =
    (case recalculate_order_totals (j_payload job) of
       Returned \<Rightarrow> Succeeded
     | Raised (RetryableJobError m) \<Rightarrow> if j_attempt_count job < j_max_attempts job then Pending else Dead_letter
     | Raised e \<Rightarrow> Dead_letter)"
  unfolding settled_status_def example_outcome [OF assms]
  by (simp add: recalculate_order_totals_def split: option.split)

lemma example_recorded:
  assumes "record_result JobRepository c s w job (example_execute started finished job) t = (Inr True, t')"
    and "wf_db (working t)"
  shows "map_option j_status (job_by_id (j_id job) (working t')) =
    Some (settled_status job (example_execute started finished job))"
proof -
  obtain j where "job_by_id (j_id job) (working t') = Some
      (if x_outcome (example_execute started finished job) = Out_succeeded
       then completed (x_response_status (example_execute started finished job)) (now t) j
       else failed (settled_status job (example_execute started finished job) = Pending) (retry_delay c s job)
         (x_error_type (example_execute started finished job)) (x_error_message (example_execute started finished job))
         (x_response_status (example_execute started finished job)) (now t) j)"
    by (rule record_result_settles [OF assms])
  then show ?thesis
    by (simp add: completed_def failed_def settled_status_def)
qed

end
