(* ===== verification/Outbox_Example.thy ===== *)
theory Outbox_Example imports Fixtures Service_Properties begin

text \<open>
  The FastAPI example (\<open>examples/fastapi_app\<close>): an endpoint that records a domain event and enqueues its
  webhook in one transaction, the outbox PgRelay is for. The application's own table stands beside the
  database of PgRelay; both are committed, or neither.
\<close>

section \<open>The application\<close>

record webhook_event =
  ev_event_id :: string
  ev_status :: string

definition CreateEventRequest :: "string \<Rightarrow> exn + string" where
  "CreateEventRequest i =
     (if 1 \<le> length i then Inr i else Inl (PydanticValidationError ''CreateEventRequest''))"

text \<open>
  \<open>session.add\<close> only collects the row: with \<open>autoflush=False\<close> it is inserted when the block commits, as the
  next statement of the session. A clash on the primary key is an \<open>IntegrityError\<close>.
\<close>

definition flush_event :: "webhook_event \<Rightarrow> webhook_event list \<Rightarrow> session \<Rightarrow> exn + webhook_event list" where
  "flush_event event events s =
     (if faults s (stmt_no s) then Inl (SQLAlchemyError ''OperationalError'')
      else if \<not> storable_text (Some (ev_event_id event)) \<or> \<not> storable_text (Some (ev_status event))
        then Inl (SQLAlchemyError ''invalid input value'')
      else if ev_event_id event \<in> ev_event_id ` set events
        then Inl (SQLAlchemyError ''example_webhook_event_pkey'')
      else Inr (events @ [event]))"

definition event_key :: "string \<Rightarrow> string" where
  "event_key i = ''event:'' @ i"

definition enqueue_webhook :: "url_parser \<Rightarrow> settings \<Rightarrow> string \<Rightarrow> enqueue_result tx" where
  "enqueue_webhook urlparse s i =
     enqueue_http JobRepository urlparse s
       ((client_arguments ''example.webhook'')\<lparr>r_idempotency_key := Some (event_key i)\<rparr>)
       ''POST'' ''https://example.com/webhook'' (Some (JObj [(''event_id'', JStr i)])) None None None"

text \<open>\<open>async with SessionFactory() as session, session.begin()\<close>: commit at the end, roll back on an exception.\<close>

definition create_event ::
  "url_parser \<Rightarrow> settings \<Rightarrow> string \<Rightarrow> env \<Rightarrow> webhook_event list \<times> db \<Rightarrow>
    (exn + dict) \<times> webhook_event list \<times> db" where
  "create_event urlparse s event_id e state =
     (case state of (events, d) \<Rightarrow>
        (case CreateEventRequest event_id of
           Inl x \<Rightarrow> (Inl x, events, d)
         | Inr i \<Rightarrow>
             (case enqueue_webhook urlparse s i (open_session e d) of
                (Inl x, t) \<Rightarrow> (Inl x, events, committed (rollback t))
              | (Inr _, t) \<Rightarrow>
                  (case flush_event \<lparr>ev_event_id = i, ev_status = ''created''\<rparr> events t of
                     Inl x \<Rightarrow> (Inl x, events, committed (rollback t))
                   | Inr events' \<Rightarrow> (Inr [(''status'', JStr ''created'')], events', committed (commit t))))))"

section \<open>What it promises\<close>

definition webhook_payload :: "string \<Rightarrow> dict" where
  "webhook_payload i =
     [(''method'', JStr ''POST''), (''url'', JStr ''https://example.com/webhook''), (''headers'', JObj []),
      (''json'', JObj [(''event_id'', JStr i)])]"

lemma webhook_arguments:
  "http_payload_validate (http_arguments ''POST'' ''https://example.com/webhook'' (Some (JObj [(''event_id'', JStr i)]))
     None None) = Inr p \<Longrightarrow> http_payload_dump p = webhook_payload i"
  by (auto simp: http_payload_validate_def http_arguments_def body_member_def HTTP_METHODS_def http_payload_dump_def
      webhook_payload_def)

text \<open>The job of an accepted event: the one that had its key before, or a new one.\<close>

definition webhook_job :: "string \<Rightarrow> job_row list \<Rightarrow> job_row list \<Rightarrow> job_row \<Rightarrow> bool" where
  "webhook_job i before after j \<longleftrightarrow>
     j_queue_name j = DEFAULT_QUEUE_NAME \<and> j_idempotency_key j = Some (event_key i) \<and>
     (j \<in> set before \<and> after = before \<or>
      after = before @ [j] \<and> j_status j = Pending \<and> j_kind j = JOB_KIND_HTTP \<and> j_payload j = webhook_payload i)"

lemma enqueue_webhook_Inr:
  assumes "enqueue_webhook urlparse s i t = (Inr res, t')" and "wf_db (working t)" and "wf_db (committed t)"
  shows "\<exists>j \<in> set (jobs (working t')). webhook_job i (jobs (working t)) (jobs (working t')) j"
proof -
  from assms(1) obtain p where p: "http_payload_validate (http_arguments ''POST'' ''https://example.com/webhook''
      (Some (JObj [(''event_id'', JStr i)])) None None) = Inr p"
    and enq: "enqueue JobRepository urlparse s (Model (client_request
      ((client_arguments ''example.webhook'')\<lparr>r_idempotency_key := Some (event_key i)\<rparr>) ''http'' (http_payload_dump p) None)) t
      = (Inr res, t')"
    unfolding enqueue_webhook_def by (rule enqueue_http_Inr)
  let ?r = "client_request ((client_arguments ''example.webhook'')\<lparr>r_idempotency_key := Some (event_key i)\<rparr>) ''http''
      (http_payload_dump p) None"
  from enq obtain payload j where checks: "enqueue_checks urlparse s ?r = Inr payload"
    and ins: "insert_job (request_params ?r payload) t = (Inr (j, er_created res), t')"
    by (auto elim!: enqueue_Inr)
  have params: "p_queue_name (request_params ?r payload) = DEFAULT_QUEUE_NAME"
    "p_idempotency_key (request_params ?r payload) = Some (event_key i)"
    "p_kind (request_params ?r payload) = JOB_KIND_HTTP"
    by (simp_all add: request_params_def client_request_def client_arguments_def DEFAULT_QUEUE_NAME_def JOB_KIND_HTTP_def)
  have "payload = http_payload_dump p"
    by (rule enqueue_checks_http [OF checks])
      (simp_all add: client_request_def http_payload_validate_ok [OF p])
  then have body: "p_payload (request_params ?r payload) = webhook_payload i"
    using webhook_arguments [OF p] by (simp add: request_params_def)
  show ?thesis
  proof (cases "er_created res")
    case True
    with ins have ins': "insert_job (request_params ?r payload) t = (Inr (j, True), t')" by simp
    from insert_job_created(2) [OF this assms(2)] obtain k where "j = new_job (now t) k (request_params ?r payload)"
      by blast
    with insert_job_created(1) [OF ins' assms(2)] params body show ?thesis
      by (auto simp: webhook_job_def new_job_def)
  next
    case False
    with ins have ins': "insert_job (request_params ?r payload) t = (Inr (j, False), t')" by simp
    from insert_job_existing [OF this assms(2,3)] params show ?thesis
      by (auto simp: webhook_job_def)
  qed
qed

lemma enqueue_webhook_keeps: "keeps wf_db (enqueue_webhook urlparse s i)"
  unfolding enqueue_webhook_def enqueue_http_def by (intro keeps_intros pg_jobs.enqueue_wf)

lemma flush_event_Inr:
  "flush_event event events s = Inr events' \<Longrightarrow>
     events' = events @ [event] \<and> ev_event_id event \<notin> ev_event_id ` set events"
  by (auto simp: flush_event_def split: if_splits)

text \<open>An identifier is bounded below only, its key by 512 characters: longer ones are never recorded.\<close>

lemma long_identifiers_are_never_recorded:
  assumes "506 < length i"
  shows "create_event urlparse s i e (events, d) = (Inl (PydanticValidationError ''EnqueueJobRequest''), events, d)"
proof -
  have "EnqueueJobRequest (client_request ((client_arguments ''example.webhook'')\<lparr>r_idempotency_key := Some (event_key i)\<rparr>)
      ''http'' payload None) = Inl (PydanticValidationError ''EnqueueJobRequest'')" for payload
  proof -
    have "validate_queue_name ''default'' = Inr ()" by code_simp
    then show ?thesis
      using assms by (simp add: EnqueueJobRequest_def client_request_def client_arguments_def request_fields_ok_def
          short_text_def event_key_def Let_def)
  qed
  moreover have "http_payload_validate (http_arguments ''POST'' ''https://example.com/webhook''
      (Some (JObj [(''event_id'', JStr i)])) None None) \<noteq> Inl x" for x
    by (simp add: http_payload_validate_def http_arguments_def body_member_def HTTP_METHODS_def)
  ultimately have "enqueue_webhook urlparse s i (open_session e d) =
      (Inl (PydanticValidationError ''EnqueueJobRequest''), open_session e d)"
    by (auto simp: enqueue_webhook_def enqueue_http_def split: sum.split)
  with assms show ?thesis
    by (simp add: create_event_def CreateEventRequest_def)
qed

text \<open>C27: an application that enqueues in the transaction of its own rows has both or neither: a request to
  the example either records its event, under an identifier that was not there, together with the webhook
  job of that event, or fails and changes neither the events nor the database of PgRelay.\<close>

theorem an_event_and_its_job_are_committed_together:
  assumes "wf_db d" and "create_event urlparse s i e (events, d) = (outcome, events', d')"
  shows "wf_db d' \<and>
    (case outcome of
       Inl x \<Rightarrow> events' = events \<and> d' = d
     | Inr answer \<Rightarrow>
         i \<notin> ev_event_id ` set events \<and> events' = events @ [\<lparr>ev_event_id = i, ev_status = ''created''\<rparr>] \<and>
         (\<exists>j \<in> set (jobs d'). webhook_job i (jobs d) (jobs d') j))"
proof -
  obtain r t where run: "enqueue_webhook urlparse s i (open_session e d) = (r, t)"
    by (cases "enqueue_webhook urlparse s i (open_session e d)")
  have c: "committed t = d" and wf: "wf_db (working t)"
    using keepsD_committed [OF enqueue_webhook_keeps _ _ run] keepsD_working [OF enqueue_webhook_keeps _ _ run] assms(1)
    by simp_all
  show ?thesis
  proof (cases outcome)
    case (Inl x)
    with assms(1,2) run c show ?thesis
      by (auto simp: create_event_def CreateEventRequest_def split: if_splits sum.splits)
  next
    case (Inr answer)
    with assms(2) run obtain res where r: "r = Inr res" and d': "d' = working t"
      and fl: "flush_event \<lparr>ev_event_id = i, ev_status = ''created''\<rparr> events t = Inr events'"
      by (auto simp: create_event_def CreateEventRequest_def split: if_splits sum.splits)
    have "\<exists>j \<in> set (jobs d'). webhook_job i (jobs d) (jobs d') j"
      using enqueue_webhook_Inr [OF run [unfolded r]] assms(1) d' by simp
    with flush_event_Inr [OF fl] wf d' Inr show ?thesis by simp
  qed
qed

text \<open>The first request with an identifier is answered, the second one with it fails and changes nothing.\<close>

theorem an_event_and_its_job_are_committed_together_witness:
  "\<exists>answer events d. create_event fx_urlparse fx_settings ''evt_1'' (fx_env 0 100) ([], empty_db) = (Inr answer, events, d) \<and>
    length events = 1 \<and> jobs d \<noteq> [] \<and>
    snd (create_event fx_urlparse fx_settings ''evt_1'' (fx_env 1 200) (events, d)) = (events, d)"
proof -
  let ?first = "create_event fx_urlparse fx_settings ''evt_1'' (fx_env 0 100) ([], empty_db)"
  obtain outcome events d where run: "?first = (outcome, events, d)" by (metis prod_cases3)
  have "\<not> isl (fst ?first)" by code_simp
  with run obtain answer where o: "outcome = Inr answer" by (cases outcome) simp_all
  from an_event_and_its_job_are_committed_together [OF wf_empty_db run] o
  have wf: "wf_db d" and ev: "length events = 1" "''evt_1'' \<in> ev_event_id ` set events" and j: "jobs d \<noteq> []"
    by (auto simp: empty_db_def)
  obtain outcome2 events2 d2
    where run2: "create_event fx_urlparse fx_settings ''evt_1'' (fx_env 1 200) (events, d) = (outcome2, events2, d2)"
    by (metis prod_cases3)
  from an_event_and_its_job_are_committed_together [OF wf run2] ev(2) have "events2 = events \<and> d2 = d"
    by (cases outcome2) simp_all
  with run o ev(1) j run2 show ?thesis
    by (intro exI [of _ answer] exI [of _ events] exI [of _ d]) simp
qed

end
