(* ===== verification/Logging.thy ===== *)
theory Logging imports Identifiers begin

text \<open>
  Logging (\<open>observability/logging.py\<close>): the chain of processors an event goes through before its line is
  written, with the place of the redaction in it, and the events the worker logs for an exception.
\<close>

section \<open>The processors\<close>

text \<open>
  The processors of structlog are parameters: the filter, which drops an event whose method is below the
  configured level, the three that add members to it, and the renderer.
\<close>

record structlog =
  filter_by_level :: "string \<Rightarrow> string \<Rightarrow> bool"
  time_stamper :: "dict \<Rightarrow> dict"
  add_log_level :: "string \<Rightarrow> dict \<Rightarrow> dict"
  format_exc_info :: "dict \<Rightarrow> dict"
  json_renderer :: "dict \<Rightarrow> string"

definition log_processors :: "structlog \<Rightarrow> string \<Rightarrow> (dict \<Rightarrow> dict) list" where
  "log_processors lib meth = [time_stamper lib, add_log_level lib meth, format_exc_info lib, redact_event]"

definition log_line :: "structlog \<Rightarrow> string \<Rightarrow> string \<Rightarrow> dict \<Rightarrow> string option" where
  "log_line lib level meth event =
     (if filter_by_level lib level meth
      then Some (json_renderer lib (fold (\<lambda>p e. p e) (log_processors lib meth) event)) else None)"

section \<open>What the worker logs of an exception\<close>

text \<open>Some events carry a job id, and that of a finished task carries a null where the job is not known.\<close>

definition exception_event :: "string \<Rightarrow> string option option \<Rightarrow> exn \<Rightarrow> dict" where
  "exception_event name job_id exc =
     [(''event'', JStr name)] @
     (case job_id of None \<Rightarrow> [] | Some None \<Rightarrow> [(''job_id'', JNull)] | Some (Some i) \<Rightarrow> [(''job_id'', JStr i)]) @
     [(''error_type'', JStr (exn_name exc)), (''error_message'', JStr (exn_message exc))]"

section \<open>Facts\<close>

lemma log_line_Some:
  "log_line lib level meth event = Some line \<longleftrightarrow>
     filter_by_level lib level meth \<and>
     line = json_renderer lib (redact_event (format_exc_info lib (add_log_level lib meth (time_stamper lib event))))"
  by (auto simp: log_line_def log_processors_def)

text \<open>
  Redaction comes last before the renderer, so whatever the others have added, no line shows a value under
  a secret key, as long as lists hold no lists.
\<close>

lemma log_lines_hide_secrets:
  assumes "log_line lib level meth event = Some line"
    and "flat (format_exc_info lib (add_log_level lib meth (time_stamper lib event)))"
  obtains shown where "line = json_renderer lib shown" and "set (secrets shown) \<subseteq> {JStr REDACTED_VALUE}"
  using assms redact_flat_secrets(1) by (auto simp: log_line_Some redact_event_def)

text \<open>Two events that differ under secret keys only give the same line, when nothing but members is added.\<close>

lemma log_lines_agree:
  assumes "redact_mapping e1 = redact_mapping e2"
    and "\<And>e. format_exc_info lib (add_log_level lib meth (time_stamper lib e)) = e @ added"
  shows "log_line lib level meth e1 = log_line lib level meth e2"
proof -
  have app: "redact_mapping (m @ n) = redact_mapping m @ redact_mapping n" for m n
    by (induction m) auto
  have "redact_event (e1 @ added) = redact_event (e2 @ added)"
    using assms(1) by (simp add: redact_event_def app)
  then show ?thesis
    using assms(2) by (simp add: log_line_def log_processors_def)
qed

text \<open>Nothing of an exception event is redacted: the message of the exception is written as it is.\<close>

lemma exception_events_are_not_redacted: "redact_event (exception_event name job_id exc) = exception_event name job_id exc"
proof -
  have "\<not> secret_key k" if "k \<in> {''event'', ''job_id'', ''error_type'', ''error_message''}" for k
    using that by (elim insertE emptyE) (simp_all, code_simp+)
  then show ?thesis
    by (simp add: exception_event_def redact_event_def split: option.split)
qed

end
