(* ===== verification/Spec2Isabelle.thy ===== *)
theory Spec2Isabelle imports Job_Properties Claim_Properties Program_Properties Worker_Properties Migration_Properties Lock_Properties Metrics Handler_Example Outbox_Example Logging begin

text \<open>
  PgRelay is a job queue kept in PostgreSQL. Applications and the admin API insert jobs; worker
  processes claim due jobs under a lease, run them over HTTP or by a registered handler, and record
  the outcome; failed jobs are retried with backoff or dead-lettered, expired leases are recovered,
  old finished jobs are purged. This library models that program, below \<open>src/src/pgrelay\<close>, and
  proves what makes it correct.

  \<^bold>\<open>The parts and where they are.\<close>
  \<^item> Data: \<open>Domain\<close> has the statuses (\<open>constants.py\<close>), the errors (\<open>errors.py\<close>), the rows of the four
    tables as records and the constraints of the schema (\<open>db/models.py\<close>, the migration) as
    \<open>schema_ok\<close>; \<open>wf_db\<close> adds what the repository maintains beyond it.
  \<^item> Transactions: \<open>Session\<close> models \<open>AsyncSession\<close>. A transaction is a function from a session (committed
    and working database, \<open>now()\<close>, generated identifiers, failing statements, rows locked elsewhere)
    to a result or exception and a session; \<open>transact\<close> runs one on a database. \<open>keeps\<close> and
    \<open>uncommitted\<close> are its two program logics, driven by \<open>keeps_intros\<close> and \<open>wf_intros\<close>.
  \<^item> Repositories: \<open>Job_Sql\<close> has each SQL statement as a function on the database, \<open>Job_Sql_Facts\<close> what the
    statements preserve; \<open>Job_Repository\<close>, \<open>Job_State\<close>, \<open>Queue_Repository\<close>, \<open>Worker_Repository\<close> and
    \<open>Stats\<close> have the methods of \<open>repositories/\<close>, under the names of the code.
  \<^item> Contracts: the protocols of \<open>repositories/protocols.py\<close> are records of operations; \<open>queue_store\<close> (in
    \<open>Queue_Repository\<close>), \<open>job_store\<close> and \<open>lease_store\<close> (in \<open>Protocols\<close>) state the laws their clients rely on; \<open>job_executor\<close>
    and \<open>job_executors\<close> (in \<open>Executors\<close>) those of \<open>JobExecutor\<close>. Each is interpreted on the model of the
    code, and the services and the worker are proved over the contract.
  \<^item> Services: \<open>Enqueue\<close>, \<open>Job_Service\<close>, \<open>Queue_Service\<close>, \<open>Purge_Service\<close> (\<open>services/\<close>, \<open>schemas/\<close>, \<open>sdk/\<close>),
    with \<open>Py_Text\<close>, \<open>Validation\<close>, \<open>Json\<close>, \<open>Redaction\<close>, \<open>Identifiers\<close>, \<open>Settings\<close> and \<open>Auth\<close> for the
    helpers they call (\<open>utils/\<close>, \<open>config/\<close>, \<open>security/\<close>).
  \<^item> The worker: \<open>Backoff\<close>, \<open>Executors\<close>, \<open>Transport\<close> and \<open>Runner\<close> (\<open>worker/\<close>) have its methods as functions.
    \<open>Job_Task\<close> is the task of one job at the granularity of the event loop, a transition relation
    \<open>task_step\<close> on the coroutine, the execution it awaits and the heartbeat beside it, with a
    cancellation arriving at any suspension. \<open>Process\<close> is \<open>WorkerRunner.run\<close> from registering to its
    return, a relation \<open>process_step\<close> that interleaves the claim loop, the tasks, the purge loop, stop
    requests, the shutdown and the transactions of everyone else.
  \<^item> The schema: \<open>Schema\<close> has the tables and indexes as the models and the migration each declare them, as
    data, what PostgreSQL does with an operation of a migration, and what a schema demands of rows;
    \<open>Migrations\<close> the commands, the configuration they hand to Alembic and its environment.
  \<^item> Interfaces: \<open>App_State\<close> has what the lifespan of the application builds and the dependencies that read
    it, \<open>Api\<close> the endpoints with authentication and the envelopes of errors, \<open>Application\<close> the table of
    routes and the answer to any request (\<open>create_app\<close>), \<open>Cli\<close> the commands with their exit codes and
    output, \<open>Entry_Points\<close> the checks each process makes before it starts and what it starts with.
  \<^item> \<open>Metrics\<close> has the collectors of the worker and what feeds them, \<open>Logging\<close> the chain a log event goes
    through, with the redaction last. \<open>Handler_Example\<close> is the example worker,
    \<open>Outbox_Example\<close> the example application, whose own table is written in the transaction that enqueues.
  \<^item> Everything together: \<open>Program\<close> is the transition relation of the whole program, any number of
    workers beside requests, enqueueing applications and commands.
  \<^item> Concurrency: \<open>Claim_Steps\<close> takes the transaction of the claim loop apart into its recovery and the two
    statements of the claim and interleaves them for any number of claimers, with the row locks and
    snapshots PostgreSQL documents for READ COMMITTED; \<open>Concurrent_Claims\<close> has its invariants; \<open>Lone_Claim\<close>
    shows that with nobody in their way these steps are the atomic transaction of \<open>Runner\<close>.
    \<open>Lock_Order\<close> has the locks on queues and unique keys that claims, enqueueing callers and changes of
    queues take, one after the other, until they end.

  \<^bold>\<open>What is proved.\<close> \<open>Claim\<close>, \<open>Lifecycle\<close>, \<open>System\<close> and \<open>Attempt_Budget\<close> hold the arguments about jobs: the
  limits and the order of claiming; the simulation of the abstract life of a job by every transaction;
  the invariants of every database reachable by any sequence of transactions, with any failures; and
  the bound on the attempts recorded. \<open>Program\<close> reduces every step of the program to such a sequence.
  \<open>Concurrent_Claims\<close> proves that simultaneous claims respect the limits, lease no job twice and do not
  deadlock, the first and the last as long as no queue becomes claimable between the two statements of
  a claim, and \<open>Claim_Life\<close> that their interleavings keep to the life and the budget of every job; \<open>Claim_Properties\<close> has the run that passes a limit when one does. \<open>Lock_Order\<close> proves that
  transactions that lock in the order of names never wait in a circle; \<open>Lock_Properties\<close> has the run in
  which a caller that enqueues against that order and a claim do. \<open>Job_Contracts\<close> states the
  vocabulary of these results independently of the SQL. \<open>Job_Task\<close> proves that every task ends, records
  nothing once its heartbeat has found the lease lost, and does to the database what the big-step
  \<open>Runner.execute_job\<close> says; \<open>Process\<close> that a worker keeps to its concurrency and that each of its leases
  has a task that will give it up. \<open>Schema\<close> proves that what the migration creates is what the models
  declare and that its rows are those of \<open>schema_ok\<close>. The theories \<open>Job_Properties\<close>, \<open>Claim_Properties\<close>,
  \<open>Service_Properties\<close>, \<open>Program_Properties\<close>, \<open>Worker_Properties\<close>, \<open>Migration_Properties\<close>, \<open>Lock_Properties\<close> and
  this one state the properties, each with an instance at concrete databases (\<open>Fixtures\<close>).

  \<^bold>\<open>Modelling decisions.\<close>
  \<^item> Transactions are atomic and run one after the other. What other transactions hold at that
    moment is the set of locked rows the statements with \<open>SKIP LOCKED\<close> leave out, and the claim waits
    for the queue rows it locks. Only \<open>Claim_Steps\<close> looks inside: there the claimers' transactions interleave
    statement by statement, and the others, which wait for or skip the rows claimers hold, are atomic.
  \<^item> Timestamps are microseconds as integers, floats are rationals (with a rounding function where a
    float is converted), identifiers are 128-bit words, characters are those up to code point 255.
  \<^item> The column types are enforced where values come from outside: on every attempt (no NUL character in a
    text, 32-bit integers, at most 2000 characters of a response), on a job when it is inserted
    (\<open>job_columns\<close>, with the JSON documents) and on the parameters of the queue and list queries. What an
    \<open>UPDATE\<close> of a job writes is a constant, a counter below \<open>max_attempts\<close>, the id of a worker, or what the attempt inserted in
    the same transaction holds, so there the check of the attempt decides.
  \<^item> Tables are lists, and no statement depends on their order except to break ties; the step
    \<open>s_scan_order\<close> permutes the rows at will.
  \<^item> The loops of purging and draining are partial functions, so that not returning is a value;
    \<open>purge_until_done_finishes\<close> and \<open>drain_reports_truthfully\<close> prove that they return: each full batch
    deletes rows, and the clock passes the deadline. No fuel is used anywhere.
  \<^item> The event loop runs one coroutine at a time: a step of a task is what happens between two
    suspensions, or one transaction. A signal is the stop request; nothing cancels \<open>run\<close> itself.
  \<^item> Code that is not in the repository is a parameter: \<open>urlparse\<close>, \<open>ipaddress\<close>, the resolver, the HTTP
    client, base64 and text decoding, handlers, the clock, the random draw, the planner.

  \<^bold>\<open>Not modelled.\<close> The places where log events are raised; sleeping and waiting (the relations
    let any time pass between two steps); the installation of signal handlers; the parsing of the command
    line, uvicorn and the Alembic runner; the effect of indexes on speed; the coercions pydantic makes
    before it checks a field. These are input and output or configuration of libraries, without logic of
    the program's own. Starlette's router, SHA-256 and the random identifiers are parameters.
\<close>

section \<open>Authentication and the API\<close>

text \<open>C32: in production the API starts only with settings that keep it closed: a request without a token
  and one with the published development token are refused, for reading and for writing; HTTP jobs are
  confined to an allowlist; and the pool has a connection for every job and two more.\<close>

theorem production_is_closed:
  assumes "lifespan p given environ = Inr st" and "s_env (get_settings st) = Prod"
  shows "require_auth st None \<noteq> Inr () \<and> require_write_auth st None \<noteq> Inr () \<and>
    require_auth st (Some (''Bearer '' @ DEFAULT_API_TOKEN)) \<noteq> Inr () \<and>
    require_write_auth st (Some (''Bearer '' @ DEFAULT_API_TOKEN)) \<noteq> Inr () \<and>
    (h \<notin> get_allowed_hosts (get_settings st) \<longrightarrow> lower h = h \<longrightarrow>
      validate_allowed_host h (get_allowed_hosts (get_settings st)) \<noteq> Inr ()) \<and>
    worker_concurrency (get_settings st) + 2 \<le> capacity (as_engine st)"
proof -
  from lifespan_Inr [OF assms(1)] obtain s where "validate_runtime s = Inr ()" and "st = create_state p s" by blast
  then show ?thesis
    using assms(2)
    by (auto simp: validate_runtime_Inr require_auth_def require_write_auth_Inr require_api_token_Inr
        require_api_write_token_Inr validate_allowed_host_def capacity_def create_engine_def)
qed

theorem production_is_closed_witness:
  "require_auth (create_state fx_planner (fx_settings\<lparr>s_env := Prod\<rparr>)) None \<noteq> Inr ()"
proof -
  have "load_settings (fx_settings\<lparr>s_env := Prod\<rparr>) = Inr (fx_settings\<lparr>s_env := Prod\<rparr>)"
    "validate_runtime (fx_settings\<lparr>s_env := Prod\<rparr>) = Inr ()"
    by code_simp+
  then have "lifespan fx_planner None (fx_settings\<lparr>s_env := Prod\<rparr>) =
      Inr (create_state fx_planner (fx_settings\<lparr>s_env := Prod\<rparr>))"
    by (simp add: lifespan_def)
  then show ?thesis by (rule production_is_closed [THEN conjunct1]) simp
qed



text \<open>C33: the API discloses no payload: the listing, the detail and the attempts of jobs are answered the
  same whatever the payloads, headers and metadata of the stored jobs and the response bodies their
  attempts recorded.\<close>

theorem responses_do_not_depend_on_payloads:
  "fst (get_jobs (create_state pl s) a q e (disguised f g h p d)) = fst (get_jobs (create_state pl s) a q e d) \<and>
   fst (get_job_detail (create_state pl s) a i e (disguised f g h p d)) = fst (get_job_detail (create_state pl s) a i e d) \<and>
   fst (get_attempts (create_state pl s) a i e (disguised f g h p d)) = fst (get_attempts (create_state pl s) a i e d)"
  unfolding get_jobs_def get_job_detail_def get_attempts_def create_state_simps
  by (intro conjI run_route_same list_disguised detail_disguised attempts_disguised_route)

section \<open>The drain command\<close>




end
